(* ===== verification/GoStrings.thy ===== *)
theory GoStrings
  imports Prelude "HOL-Library.Sublist" "HOL-Library.Char_ord"
begin

text \<open>
  The part of Go's \<open>strings\<close>, \<open>strconv\<close>, \<open>encoding/hex\<close> and \<open>encoding/base64\<close> the
  service uses. A Go string is a sequence of bytes, so it is a \<open>char list\<close> here, one
  \<open>char\<close> per byte; Unicode text is its UTF-8 encoding and \<open>length\<close> is Go's \<open>len\<close>.
\<close>

section \<open>Prefixes, searching\<close>

definition has_prefix :: "string \<Rightarrow> string \<Rightarrow> bool" where
  "has_prefix s p \<longleftrightarrow> prefix p s"

definition trim_prefix :: "string \<Rightarrow> string \<Rightarrow> string" where
  "trim_prefix s p = (if prefix p s then drop (length p) s else s)"

lemma trim_prefix_append [simp]: "trim_prefix (p @ s) p = s"
  by (simp add: trim_prefix_def)

lemma has_prefix_append [simp]: "has_prefix (p @ s) p"
  by (simp add: has_prefix_def)

text \<open>\<open>strings.Index\<close>: the offset of the first occurrence, \<open>None\<close> for Go's \<open>-1\<close>.\<close>

fun str_index :: "string \<Rightarrow> string \<Rightarrow> nat option" where
  "str_index s p =
     (if prefix p s then Some 0
      else (case s of [] \<Rightarrow> None | c # s' \<Rightarrow> map_option Suc (str_index s' p)))"

declare str_index.simps [simp del]

definition str_contains :: "string \<Rightarrow> string \<Rightarrow> bool" where
  "str_contains s p \<longleftrightarrow> str_index s p \<noteq> None"

fun join :: "string list \<Rightarrow> string \<Rightarrow> string" where
  "join [] sep = []"
| "join [s] sep = s"
| "join (s # t # ss) sep = s @ sep @ join (t # ss) sep"

lemma str_index_Some:
  "str_index s p = Some i \<Longrightarrow> i + length p \<le> length s \<and> prefix p (drop i s)"
proof (induction s p arbitrary: i rule: str_index.induct)
  case (1 s p)
  then show ?case
    by (subst (asm) (2) str_index.simps)
       (auto split: if_splits list.splits dest: prefix_length_le)
qed

lemma str_index_append: "str_index (u @ p @ v) p \<noteq> None"
proof (induction u)
  case Nil
  then show ?case by (subst str_index.simps) simp
next
  case (Cons a u)
  then show ?case by (subst str_index.simps) auto
qed

lemma str_contains_iff: "str_contains s p \<longleftrightarrow> sublist p s"
proof
  assume "str_contains s p"
  then obtain i where "str_index s p = Some i" by (auto simp: str_contains_def)
  then have "prefix p (drop i s)" by (auto dest: str_index_Some)
  then obtain v where "drop i s = p @ v" by (auto simp: prefix_def)
  then have "s = take i s @ p @ v" by (metis append_take_drop_id)
  then show "sublist p s" by (auto simp: sublist_def)
next
  assume "sublist p s"
  then obtain u v where "s = u @ p @ v" by (auto simp: sublist_def)
  then show "str_contains s p" by (simp add: str_contains_def str_index_append)
qed

section \<open>Trimming white space\<close>

text \<open>
  \<open>strings.TrimSpace\<close> removes leading and trailing Unicode white space. On bytes these are
  the six ASCII spaces and the UTF-8 encodings of U+0085, U+00A0, U+1680, U+2000 to U+200A,
  U+2028, U+2029, U+202F, U+205F and U+3000.
\<close>

definition space_seqs :: "string list" where
  "space_seqs =
    [[CHR 0x09], [CHR 0x0A], [CHR 0x0B], [CHR 0x0C], [CHR 0x0D], [CHR 0x20],
     [CHR 0xC2, CHR 0x85], [CHR 0xC2, CHR 0xA0], [CHR 0xE1, CHR 0x9A, CHR 0x80],
     [CHR 0xE2, CHR 0x80, CHR 0x80], [CHR 0xE2, CHR 0x80, CHR 0x81],
     [CHR 0xE2, CHR 0x80, CHR 0x82], [CHR 0xE2, CHR 0x80, CHR 0x83],
     [CHR 0xE2, CHR 0x80, CHR 0x84], [CHR 0xE2, CHR 0x80, CHR 0x85],
     [CHR 0xE2, CHR 0x80, CHR 0x86], [CHR 0xE2, CHR 0x80, CHR 0x87],
     [CHR 0xE2, CHR 0x80, CHR 0x88], [CHR 0xE2, CHR 0x80, CHR 0x89],
     [CHR 0xE2, CHR 0x80, CHR 0x8A], [CHR 0xE2, CHR 0x80, CHR 0xA8],
     [CHR 0xE2, CHR 0x80, CHR 0xA9], [CHR 0xE2, CHR 0x80, CHR 0xAF],
     [CHR 0xE2, CHR 0x81, CHR 0x9F], [CHR 0xE3, CHR 0x80, CHR 0x80]]"

lemma space_seqs_nonempty: "p \<in> set space_seqs \<Longrightarrow> p \<noteq> []"
  by (auto simp: space_seqs_def)

text \<open>Strip every leading occurrence of one of the given byte sequences.\<close>

function strip_left :: "string list \<Rightarrow> string \<Rightarrow> string" where
  "strip_left ps s =
     (case List.find (\<lambda>p. p \<noteq> [] \<and> prefix p s) ps of
        None \<Rightarrow> s
      | Some p \<Rightarrow> strip_left ps (drop (length p) s))"
  by pat_completeness auto
termination
  by (relation "measure (\<lambda>(ps, s). length s)")
     (auto dest!: find_Some_mem simp: prefix_def)

declare strip_left.simps [simp del]

definition strip_right :: "string list \<Rightarrow> string \<Rightarrow> string" where
  "strip_right ps s = rev (strip_left (map rev ps) (rev s))"

definition trim_space :: "string \<Rightarrow> string" where
  "trim_space s = strip_right space_seqs (strip_left space_seqs s)"

text \<open>What \<open>strip_left\<close> leaves is a suffix that starts with none of the sequences.\<close>

definition clean_left :: "string list \<Rightarrow> string \<Rightarrow> bool" where
  "clean_left ps s \<longleftrightarrow> (\<forall>p\<in>set ps. p \<noteq> [] \<longrightarrow> \<not> prefix p s)"

lemma strip_left_clean: "clean_left ps (strip_left ps s)"
proof (induction ps s rule: strip_left.induct)
  case (1 ps s)
  then show ?case
    by (subst strip_left.simps)
       (auto split: option.splits simp: clean_left_def find_None_iff)
qed

lemma strip_left_suffix: "suffix (strip_left ps s) s"
proof (induction ps s rule: strip_left.induct)
  case (1 ps s)
  then show ?case
    by (subst strip_left.simps)
       (auto split: option.splits intro: suffix_order.trans suffix_drop)
qed

lemma strip_left_id: "clean_left ps s \<Longrightarrow> strip_left ps s = s"
  by (subst strip_left.simps) (auto simp: clean_left_def split: option.splits dest: find_Some_mem)

lemma strip_right_prefix: "prefix (strip_right ps s) s"
  using strip_left_suffix [of "map rev ps" "rev s"]
  by (simp add: strip_right_def suffix_to_prefix)

lemma clean_left_prefix: "clean_left ps s \<Longrightarrow> prefix t s \<Longrightarrow> clean_left ps t"
  by (meson clean_left_def prefix_order.trans)

lemma strip_right_idem: "strip_right ps (strip_right ps s) = strip_right ps s"
  by (simp add: strip_right_def strip_left_id strip_left_clean)

lemma trim_space_idem [simp]: "trim_space (trim_space s) = trim_space s"
proof -
  have "clean_left space_seqs (trim_space s)"
    unfolding trim_space_def
    using strip_left_clean strip_right_prefix clean_left_prefix by blast
  then show ?thesis
    by (simp add: trim_space_def strip_left_id strip_right_idem)
qed

lemma strip_left_Cons:
  "[] \<notin> set ps \<Longrightarrow> (\<forall>p\<in>set ps. hd p \<noteq> c) \<Longrightarrow> strip_left ps (c # s) = c # s"
  by (rule strip_left_id) (auto simp: clean_left_def prefix_Cons)

lemma length_trim_space_le: "length (trim_space s) \<le> length s"
proof -
  have "length (strip_right space_seqs (strip_left space_seqs s)) \<le> length (strip_left space_seqs s)"
    by (rule prefix_length_le [OF strip_right_prefix])
  also have "\<dots> \<le> length s" by (rule suffix_length_le [OF strip_left_suffix])
  finally show ?thesis by (simp add: trim_space_def)
qed

section \<open>Lower case\<close>

text \<open>
  \<open>strings.ToLower\<close> maps ASCII letters itself and hands a string with a non-ASCII byte to
  the Unicode tables; those tables are the argument \<open>uni\<close>.
\<close>

definition byte_of :: "char \<Rightarrow> nat" where
  "byte_of c = of_char c"

definition is_ascii :: "char \<Rightarrow> bool" where
  "is_ascii c \<longleftrightarrow> byte_of c < 128"

definition ascii_lower :: "char \<Rightarrow> char" where
  "ascii_lower c =
     (if 65 \<le> byte_of c \<and> byte_of c \<le> 90 then char_of (byte_of c + 32) else c)"

definition to_lower :: "(string \<Rightarrow> string) \<Rightarrow> string \<Rightarrow> string" where
  "to_lower uni s = (if list_all is_ascii s then map ascii_lower s else uni s)"

lemma byte_of_bound: "byte_of c < 256"
  by (simp add: byte_of_def)

lemma byte_of_char_of: "n < 256 \<Longrightarrow> byte_of (char_of n) = n"
  by (simp add: byte_of_def)

lemma byte_of_inject: "byte_of c = byte_of d \<longleftrightarrow> c = d"
  by (simp add: byte_of_def)

lemma ascii_lower_idem: "ascii_lower (ascii_lower c) = ascii_lower c"
  by (auto simp: ascii_lower_def byte_of_char_of)

lemma is_ascii_lower: "is_ascii c \<Longrightarrow> is_ascii (ascii_lower c)"
  by (auto simp: ascii_lower_def is_ascii_def byte_of_char_of)

lemma to_lower_ascii_idem:
  "list_all is_ascii s \<Longrightarrow> to_lower uni (to_lower uni s) = to_lower uni s"
  by (auto simp: to_lower_def list_all_iff is_ascii_lower ascii_lower_idem)

section \<open>Hexadecimal\<close>

definition hex_digit :: "nat \<Rightarrow> char" where
  "hex_digit n = ''0123456789abcdef'' ! (n mod 16)"

definition hex_value :: "char \<Rightarrow> nat option" where
  "hex_value c =
     (let b = byte_of c in
      if 48 \<le> b \<and> b \<le> 57 then Some (b - 48)
      else if 97 \<le> b \<and> b \<le> 102 then Some (b - 87)
      else if 65 \<le> b \<and> b \<le> 70 then Some (b - 55)
      else None)"

text \<open>\<open>hex.EncodeToString\<close> and \<open>hex.DecodeString\<close> (\<open>None\<close>: odd length or a bad digit).\<close>

fun hex_encode :: "string \<Rightarrow> string" where
  "hex_encode [] = []"
| "hex_encode (c # cs) =
     hex_digit (byte_of c div 16) # hex_digit (byte_of c mod 16) # hex_encode cs"

fun hex_decode :: "string \<Rightarrow> string option" where
  "hex_decode [] = Some []"
| "hex_decode [_] = None"
| "hex_decode (a # b # cs) =
     (case (hex_value a, hex_value b, hex_decode cs) of
        (Some x, Some y, Some r) \<Rightarrow> Some (char_of (16 * x + y) # r)
      | _ \<Rightarrow> None)"

lemma hex_value_digit: "n < 16 \<Longrightarrow> hex_value (hex_digit n) = Some n"
proof -
  assume "n < 16"
  then have "n \<in> {0,1,2,3,4,5,6,7,8,9,10,11,12,13,14,15}"
    unfolding insert_iff empty_iff by arith
  then show ?thesis by (auto simp: hex_value_def hex_digit_def byte_of_def)
qed

lemma hex_decode_encode [simp]: "hex_decode (hex_encode s) = Some s"
proof (induction s)
  case (Cons c cs)
  have "byte_of c div 16 < 16" using byte_of_bound [of c] by simp
  moreover have "16 * (byte_of c div 16) + byte_of c mod 16 = byte_of c" by simp
  ultimately show ?case using Cons
    by (simp add: hex_value_digit) (simp add: byte_of_def)
qed simp

lemma length_hex_encode [simp]: "length (hex_encode s) = 2 * length s"
  by (induction s) auto

lemma hex_decode_length: "hex_decode h = Some s \<Longrightarrow> length h = 2 * length s"
  by (induction h arbitrary: s rule: hex_decode.induct) (auto split: option.splits)

lemma hex_encode_inj: "hex_encode s = hex_encode t \<Longrightarrow> s = t"
  by (metis hex_decode_encode option.inject)

lemma set_hex_encode: "set (hex_encode s) \<subseteq> set ''0123456789abcdef''"
proof (induction s)
  case (Cons c cs)
  have "hex_digit n \<in> set ''0123456789abcdef''" for n
    unfolding hex_digit_def by (rule nth_mem) simp
  with Cons show ?case by (metis hex_encode.simps(2) insert_subset list.simps(15))
qed simp

section \<open>Decimal\<close>

text \<open>\<open>fmt.Sprintf("%d", n)\<close> for a non-negative and for a signed number.\<close>

function show_nat :: "nat \<Rightarrow> string" where
  "show_nat n = (if n < 10 then [char_of (48 + n)] else show_nat (n div 10) @ [char_of (48 + n mod 10)])"
  by pat_completeness auto
termination by (relation "measure id") auto

declare show_nat.simps [simp del]

definition show_int :: "int \<Rightarrow> string" where
  "show_int i = (if i < 0 then CHR ''-'' # show_nat (nat (- i)) else show_nat (nat i))"

fun read_nat_from :: "nat \<Rightarrow> string \<Rightarrow> nat" where
  "read_nat_from acc [] = acc"
| "read_nat_from acc (c # cs) = read_nat_from (10 * acc + (byte_of c - 48)) cs"

definition is_digit :: "char \<Rightarrow> bool" where
  "is_digit c \<longleftrightarrow> 48 \<le> byte_of c \<and> byte_of c \<le> 57"

lemma read_nat_from_append:
  "read_nat_from acc (xs @ ys) = read_nat_from (read_nat_from acc xs) ys"
  by (induction xs arbitrary: acc) auto

lemma read_show_nat: "read_nat_from 0 (show_nat n) = n"
proof (induction n rule: show_nat.induct)
  case (1 n)
  then show ?case
    by (subst show_nat.simps) (auto simp: read_nat_from_append byte_of_char_of)
qed

lemma show_nat_inj: "show_nat m = show_nat n \<Longrightarrow> m = n"
  by (metis read_show_nat)

lemma show_nat_nonempty: "show_nat n \<noteq> []"
  by (subst show_nat.simps) simp

lemma show_nat_digits: "list_all is_digit (show_nat n)"
proof (induction n rule: show_nat.induct)
  case (1 n)
  have "is_digit (char_of (48 + m))" if "m < 10" for m :: nat
    using that by (simp add: is_digit_def byte_of_char_of)
  with 1 show ?case by (subst show_nat.simps) auto
qed

section \<open>Base64\<close>

text \<open>\<open>base64.RawURLEncoding.EncodeToString\<close>: the URL alphabet without padding.\<close>

definition b64_char :: "nat \<Rightarrow> char" where
  "b64_char n =
    ''ABCDEFGHIJKLMNOPQRSTUVWXYZabcdefghijklmnopqrstuvwxyz0123456789-_'' ! (n mod 64)"

fun b64url_encode :: "string \<Rightarrow> string" where
  "b64url_encode [] = []"
| "b64url_encode [a] =
     (let n = byte_of a * 16 in [b64_char (n div 64), b64_char n])"
| "b64url_encode [a, b] =
     (let n = byte_of a * 1024 + byte_of b * 4
      in [b64_char (n div 4096), b64_char (n div 64), b64_char n])"
| "b64url_encode (a # b # c # cs) =
     (let n = byte_of a * 65536 + byte_of b * 256 + byte_of c
      in b64_char (n div 262144) # b64_char (n div 4096) # b64_char (n div 64) # b64_char n
         # b64url_encode cs)"

end
