(* ===== verification/Float64.thy ===== *)
theory Float64
  imports GoStrings "HOL-Library.Log_Nat"
begin

text \<open>
  Go's \<open>float64\<close> as the service meets it: finite values only, read from decimal literals by
  \<open>strconv.ParseFloat\<close> and compared. A value is the rational number it denotes; \<open>round64\<close>
  rounds an exact rational to the nearest binary64 value, ties to even, with the denormal
  range, and is \<open>None\<close> where Go reports \<open>ErrRange\<close> (the result would be infinite).
\<close>

type_synonym float64 = rat

definition round_even :: "rat \<Rightarrow> int" where
  "round_even x =
     (let f = \<lfloor>x\<rfloor>; d = x - of_int f
      in if d < 1/2 then f else if 1/2 < d then f + 1 else if even f then f else f + 1)"

text \<open>The exponent of the leading bit: \<open>2 ^ e \<le> x < 2 ^ (e + 1)\<close> for \<open>x > 0\<close>.\<close>

definition ilog2 :: "rat \<Rightarrow> int" where
  "ilog2 x =
     (let (n, d) = quotient_of x; k = bitlen n - bitlen d
      in if 2 powi k \<le> x then k else k - 1)"

text \<open>The weight of the last bit of the binary64 numbers around \<open>x\<close>.\<close>

definition ulp64 :: "rat \<Rightarrow> rat" where
  "ulp64 x = 2 powi (max (- 1074) (ilog2 x - 52))"

definition round64_pos :: "rat \<Rightarrow> rat" where
  "round64_pos x = of_int (round_even (x / ulp64 x)) * ulp64 x"

definition round64 :: "rat \<Rightarrow> float64 option" where
  "round64 x =
     (let v = (if x = 0 then 0 else sgn x * round64_pos \<bar>x\<bar>)
      in if \<bar>v\<bar> < 2 ^ 1024 then Some v else None)"

lemma round_even_bounds: "x - 1/2 \<le> of_int (round_even x)" "of_int (round_even x) \<le> x + 1/2"
  by (auto simp: round_even_def Let_def) linarith+

lemma round_even_int [simp]: "round_even (of_int n) = n"
  by (simp add: round_even_def)

lemma round_even_mono:
  assumes "x \<le> y" shows "round_even x \<le> round_even y"
proof (cases "\<lfloor>x\<rfloor> = \<lfloor>y\<rfloor>")
  case True
  with assms show ?thesis by (auto simp: round_even_def Let_def)
next
  case False
  with assms have "\<lfloor>x\<rfloor> + 1 \<le> \<lfloor>y\<rfloor>" using floor_mono [OF assms] by linarith
  moreover have "round_even x \<le> \<lfloor>x\<rfloor> + 1" by (simp add: round_even_def Let_def)
  moreover have "\<lfloor>y\<rfloor> \<le> round_even y" by (simp add: round_even_def Let_def)
  ultimately show ?thesis by linarith
qed

lemma bitlen_rat_bounds:
  assumes "0 < (n::int)"
  shows "(2::rat) powi (bitlen n - 1) \<le> of_int n" "of_int n < (2::rat) powi (bitlen n)"
proof -
  have b1: "1 \<le> bitlen n" using assms by (simp add: bitlen_ge_iff_power)
  have "(2::rat) powi (bitlen n - 1) = of_int (2 ^ nat (bitlen n - 1))"
    using b1 by (simp add: power_int_def)
  also have "\<dots> \<le> of_int n" unfolding of_int_le_iff using bitlen_bounds [OF assms] by simp
  finally show "(2::rat) powi (bitlen n - 1) \<le> of_int n" .
  have "(of_int n :: rat) < of_int (2 ^ nat (bitlen n))"
    unfolding of_int_less_iff using bitlen_bounds [OF assms] by simp
  also have "\<dots> = 2 powi (bitlen n)" using b1 by (simp add: power_int_def)
  finally show "of_int n < (2::rat) powi (bitlen n)" .
qed

lemma powi_2_pos [simp]: "0 < (2::rat) powi k"
  by simp

lemma powi_2_Suc: "(2::rat) powi (k + 1) = 2 * 2 powi k"
  by (simp add: power_int_add)

lemma ilog2_bounds:
  assumes "0 < x"
  shows "2 powi (ilog2 x) \<le> x" "x < 2 powi (ilog2 x + 1)"
proof -
  obtain n d where q: "quotient_of x = (n, d)" by fastforce
  have d: "0 < d" using q by (rule quotient_of_denom_pos)
  have x: "x = of_int n / of_int d" using q by (rule quotient_of_div)
  with assms d have n: "0 < n" by (simp add: zero_less_divide_iff)
  define k where "k = bitlen n - bitlen d"
  have "2 powi (k - 1) * of_int d < (2::rat) powi (k - 1) * 2 powi (bitlen d)"
    using bitlen_rat_bounds(2) [OF d] by simp
  also have "\<dots> = 2 powi (bitlen n - 1)" by (simp add: k_def flip: power_int_add)
  also have "\<dots> \<le> of_int n" by (rule bitlen_rat_bounds(1) [OF n])
  finally have lo: "2 powi (k - 1) \<le> x" using d by (simp add: x field_simps)
  have "of_int n < (2::rat) powi (bitlen n)" by (rule bitlen_rat_bounds(2) [OF n])
  also have "\<dots> = 2 powi (k + 1) * 2 powi (bitlen d - 1)" by (simp add: k_def flip: power_int_add)
  also have "\<dots> \<le> 2 powi (k + 1) * of_int d"
    using bitlen_rat_bounds(1) [OF d] by simp
  finally have hi: "x < 2 powi (k + 1)" using d by (simp add: x field_simps)
  have e: "ilog2 x = (if 2 powi k \<le> x then k else k - 1)"
    by (simp add: ilog2_def q k_def)
  show "2 powi (ilog2 x) \<le> x" using lo by (simp add: e)
  show "x < 2 powi (ilog2 x + 1)" using hi by (simp add: e)
qed

lemma ilog2_mono:
  assumes "0 < x" "x \<le> y" shows "ilog2 x \<le> ilog2 y"
proof (rule ccontr)
  assume "\<not> ilog2 x \<le> ilog2 y"
  then have "(2::rat) powi (ilog2 y + 1) \<le> 2 powi (ilog2 x)"
    by (intro power_int_increasing) auto
  with ilog2_bounds(1) [of x] ilog2_bounds(2) [of y] assms show False by linarith
qed

lemma ulp64_pos [simp]: "0 < ulp64 x"
  by (simp add: ulp64_def)

lemma ulp64_nonzero [simp]: "ulp64 x \<noteq> 0"
  by (simp add: ulp64_def)

text \<open>Rounding keeps a magnitude inside its binade.\<close>

lemma round64_pos_nonneg: "0 \<le> x \<Longrightarrow> 0 \<le> round64_pos x"
proof -
  assume "0 \<le> x"
  then have "round_even 0 \<le> round_even (x / ulp64 x)"
    by (intro round_even_mono) (simp add: order_less_imp_le)
  then show ?thesis
    using round_even_int [of 0] by (simp add: round64_pos_def order_less_imp_le)
qed

lemma round64_pos_error: "\<bar>round64_pos x - x\<bar> \<le> ulp64 x / 2"
proof -
  let ?u = "ulp64 x"
  have u: "0 < ?u" by simp
  have "\<bar>of_int (round_even (x / ?u)) - x / ?u\<bar> \<le> 1/2"
    using round_even_bounds [of "x / ?u"] by linarith
  then have "\<bar>of_int (round_even (x / ?u)) - x / ?u\<bar> * ?u \<le> 1/2 * ?u"
    by (intro mult_right_mono) (auto simp: order_less_imp_le)
  moreover have "\<bar>of_int (round_even (x / ?u)) - x / ?u\<bar> * ?u = \<bar>round64_pos x - x\<bar>"
  proof -
    have "(of_int (round_even (x / ?u)) - x / ?u) * ?u = round64_pos x - x"
      using u by (simp add: round64_pos_def left_diff_distrib less_imp_neq [THEN not_sym])
    then show ?thesis using u by (metis abs_mult abs_of_pos)
  qed
  ultimately show ?thesis by simp
qed

lemma round64_pos_mono:
  assumes "0 < x" "x \<le> y"
  shows "round64_pos x \<le> round64_pos y"
proof (cases "ulp64 x = ulp64 y")
  case True
  have "x / ulp64 y \<le> y / ulp64 y" using assms by (simp add: divide_right_mono order_less_imp_le)
  then show ?thesis
    by (simp add: round64_pos_def True round_even_mono order_less_imp_le)
next
  case False
  define e where "e = max (- 1074) (ilog2 y - 52)"
  have ey: "e = ilog2 y - 52" and ex: "max (- 1074) (ilog2 x - 52) + 1 \<le> e" "ilog2 x + 1 \<le> ilog2 y"
  proof -
    have "max (- 1074) (ilog2 x - 52) \<noteq> e" using False by (auto simp: ulp64_def e_def)
    then show "e = ilog2 y - 52" "max (- 1074) (ilog2 x - 52) + 1 \<le> e" "ilog2 x + 1 \<le> ilog2 y"
      using ilog2_mono [OF assms] unfolding e_def by linarith+
  qed
  \<comment> \<open>the boundary \<open>2 powi (ilog2 y)\<close> is a multiple of both units\<close>
  have mid: "round64_pos x \<le> 2 powi (ilog2 y)"
  proof -
    let ?ux = "max (- 1074) (ilog2 x - 52)"
    have "x \<le> 2 powi (ilog2 y)"
      using ilog2_bounds(2) [OF assms(1)] power_int_increasing [of "ilog2 x + 1" "ilog2 y" "2::rat"] ex
      by auto
    then have "x / ulp64 x \<le> 2 powi (ilog2 y) / ulp64 x"
      by (simp add: divide_right_mono order_less_imp_le)
    also have "\<dots> = 2 powi (ilog2 y - ?ux)" by (simp add: ulp64_def power_int_diff)
    also have "\<dots> = of_int (2 ^ nat (ilog2 y - ?ux))"
      using ex ey by (simp add: power_int_def)
    finally have "round_even (x / ulp64 x) \<le> 2 ^ nat (ilog2 y - ?ux)"
      using round_even_mono round_even_int by metis
    then have "of_int (round_even (x / ulp64 x)) \<le> (of_int (2 ^ nat (ilog2 y - ?ux)) :: rat)"
      by (simp only: of_int_le_iff)
    also have "\<dots> = 2 powi (ilog2 y - ?ux)" using ex ey by (simp add: power_int_def)
    finally have "round64_pos x \<le> 2 powi (ilog2 y - ?ux) * ulp64 x"
      by (simp add: round64_pos_def)
    also have "\<dots> = 2 powi (ilog2 y)" by (simp add: ulp64_def flip: power_int_add)
    finally show ?thesis .
  qed
  have "2 powi (ilog2 y) \<le> round64_pos y"
  proof -
    have "of_int (2 ^ 52) = (2::rat) powi (ilog2 y) / ulp64 y"
      by (simp add: ulp64_def flip: e_def) (simp add: ey power_int_diff)
    also have "\<dots> \<le> y / ulp64 y"
      using ilog2_bounds(1) [of y] assms by (simp add: divide_right_mono order_less_imp_le)
    finally have "2 ^ 52 \<le> round_even (y / ulp64 y)"
      using round_even_mono round_even_int by metis
    then have "(of_int (2 ^ 52) :: rat) \<le> of_int (round_even (y / ulp64 y))"
      by (simp only: of_int_le_iff)
    then have "2 ^ 52 * ulp64 y \<le> round64_pos y"
      by (simp add: round64_pos_def)
    moreover have "2 ^ 52 * ulp64 y = 2 powi (ilog2 y)"
      by (simp add: ulp64_def flip: e_def) (simp add: ey power_int_diff)
    ultimately show ?thesis by simp
  qed
  with mid show ?thesis by linarith
qed

lemma round64_pos_zero_le: "0 < x \<Longrightarrow> 0 \<le> round64_pos x"
  by (rule round64_pos_nonneg) simp

text \<open>Reading a larger decimal never gives a smaller float.\<close>

lemma round64_mono:
  assumes "x \<le> y" "round64 x = Some a" "round64 y = Some b"
  shows "a \<le> b"
proof -
  have a: "a = (if x = 0 then 0 else sgn x * round64_pos \<bar>x\<bar>)"
    using assms(2) by (auto simp: round64_def Let_def split: if_splits)
  have b: "b = (if y = 0 then 0 else sgn y * round64_pos \<bar>y\<bar>)"
    using assms(3) by (auto simp: round64_def Let_def split: if_splits)
  consider "0 < x" "0 < y" | "x < 0" "y < 0" | "x \<le> 0" "0 \<le> y"
    using assms(1) by linarith
  then show ?thesis
  proof cases
    case 1
    with assms(1) show ?thesis using round64_pos_mono [of x y] by (simp add: a b)
  next
    case 2
    with assms(1) show ?thesis using round64_pos_mono [of "- y" "- x"] by (simp add: a b)
  next
    case 3
    then have "a \<le> 0" "0 \<le> b"
      using round64_pos_zero_le [of "\<bar>x\<bar>"] round64_pos_zero_le [of "\<bar>y\<bar>"]
      by (auto simp: a b sgn_if)
    then show ?thesis by simp
  qed
qed

lemma round64_zero [simp]: "round64 0 = Some 0"
  by (simp add: round64_def)

lemma round64_bound: "round64 x = Some v \<Longrightarrow> \<bar>v\<bar> < 2 ^ 1024"
  by (auto simp: round64_def Let_def split: if_splits)

text \<open>
  The binary64 values are the \<open>n * 2 powi j\<close> with \<open>\<bar>n\<bar> < 2 ^ 53\<close> and \<open>j \<ge> -1074\<close>
  below \<open>2 ^ 1024\<close>; each is read exactly.
\<close>

lemma round64_pos_exact:
  assumes n: "0 < n" "n < 2 ^ 53" and j: "- 1074 \<le> j"
  shows "round64_pos (of_int n * 2 powi j) = of_int n * 2 powi j"
proof -
  let ?x = "of_int n * 2 powi j :: rat"
  define e where "e = max (- 1074) (ilog2 ?x - 52)"
  have x: "0 < ?x" using n by simp
  have hi: "?x < 2 powi 53 * 2 powi j"
  proof -
    have "of_int n < (of_int (2 ^ 53) :: rat)" using n(2) unfolding of_int_less_iff .
    then show ?thesis by (simp add: power_int_def)
  qed
  have "2 powi (ilog2 ?x) \<le> ?x" by (rule ilog2_bounds(1) [OF x])
  also note hi
  also have "(2::rat) powi 53 * 2 powi j = 2 powi (53 + j)" by (subst power_int_add) simp_all
  finally have "ilog2 ?x < 53 + j"
    by (meson not_le power_int_increasing one_le_numeral)
  with j have ej: "e \<le> j" by (simp add: e_def)
  have u: "ulp64 ?x = 2 powi e" by (simp add: ulp64_def e_def)
  have "?x / ulp64 ?x = of_int n * 2 powi (j - e)" by (simp add: u power_int_diff)
  also have "\<dots> = of_int (n * 2 ^ nat (j - e))" using ej by (simp add: power_int_def)
  finally have exact: "?x / ulp64 ?x = of_int (n * 2 ^ nat (j - e))" .
  then have "round_even (?x / ulp64 ?x) = n * 2 ^ nat (j - e)"
    using round_even_int by metis
  then have "of_int (round_even (?x / ulp64 ?x)) = ?x / ulp64 ?x" using exact by simp
  then show ?thesis by (simp add: round64_pos_def)
qed

lemma round64_exact:
  assumes n: "\<bar>n\<bar> < 2 ^ 53" and j: "- 1074 \<le> j"
    and x: "x = of_int n * 2 powi j" and b: "\<bar>x\<bar> < 2 ^ 1024"
  shows "round64 x = Some x"
proof -
  consider "n = 0" | "0 < n" | "n < 0" by linarith
  then show ?thesis
  proof cases
    case 1
    then show ?thesis by (simp add: x)
  next
    case 2
    then have "round64_pos x = x" using n j by (simp add: x round64_pos_exact)
    moreover have "0 < x" using 2 by (simp add: x)
    ultimately show ?thesis using b by (simp add: round64_def)
  next
    case 3
    then have "round64_pos (of_int (- n) * 2 powi j) = of_int (- n) * 2 powi j"
      using n j by (intro round64_pos_exact) auto
    moreover have "x < 0" using 3 by (simp add: x mult_neg_pos)
    ultimately show ?thesis using b by (simp add: round64_def x)
  qed
qed

lemma round64_int: "\<bar>n\<bar> < 2 ^ 53 \<Longrightarrow> round64 (of_int n) = Some (of_int n)"
proof -
  assume n: "\<bar>n\<bar> < 2 ^ 53"
  have "\<bar>of_int n\<bar> = (of_int \<bar>n\<bar> :: rat)" by simp
  also have "\<dots> < of_int (2 ^ 53)" using n unfolding of_int_less_iff .
  also have "\<dots> \<le> (2 ^ 1024 :: rat)" by simp
  finally show ?thesis using n by (intro round64_exact [of n 0]) auto
qed

end
