(* ===== verification/Json.thy ===== *)
theory Json
  imports Float64
begin

text \<open>
  The part of Go's \<open>encoding/json\<close> the service uses: \<open>Unmarshal\<close> (the whole input is one
  value), \<open>Decoder.Decode\<close> (the first value of a stream), and the decoding of a value into
  struct fields, maps, pointers, numbers and \<open>json.RawMessage\<close>. A \<open>RawMessage\<close> is the
  parsed value it holds.
\<close>

section \<open>Values\<close>

text \<open>A number literal keeps its parts: sign, integer digits, fraction digits (none: no
  point), and the exponent's sign and digits.\<close>

datatype num_lit = Num (num_neg: bool) (num_int: string) (num_frac: string)
  (num_exp: "(bool \<times> string) option")

datatype json =
    JNull
  | JBool bool
  | JNum num_lit
  | JStr string
  | JArr "json list"
  | JObj "(string \<times> json) list"

definition num_value :: "num_lit \<Rightarrow> rat" where
  "num_value n =
     (case n of Num s i f e \<Rightarrow>
        (if s then - 1 else 1) * of_nat (read_nat_from 0 (i @ f)) *
        10 powi ((case e of None \<Rightarrow> 0
                  | Some (es, ed) \<Rightarrow> (if es then - 1 else 1) * int (read_nat_from 0 ed))
                 - int (length f)))"

section \<open>Lexing\<close>

definition json_space :: "char \<Rightarrow> bool" where
  "json_space c \<longleftrightarrow> c = CHR 0x20 \<or> c = CHR 0x09 \<or> c = CHR 0x0D \<or> c = CHR 0x0A"

definition skip_ws :: "string \<Rightarrow> string" where
  "skip_ws s = dropWhile json_space s"

lemma length_skip_ws: "length (skip_ws s) \<le> length s"
  by (simp add: skip_ws_def length_dropWhile_le)

lemma skip_ws_ConsD: "skip_ws s = c # r \<Longrightarrow> length r < length s"
  using length_skip_ws [of s] by simp

subsection \<open>Numbers\<close>

definition lex_int :: "string \<Rightarrow> (string \<times> string) option" where
  "lex_int s =
     (case s of [] \<Rightarrow> None
      | c # cs \<Rightarrow>
          if c = CHR ''0'' then Some ([c], cs)
          else if is_digit c then Some (c # takeWhile is_digit cs, dropWhile is_digit cs)
          else None)"

definition lex_digits :: "string \<Rightarrow> (string \<times> string) option" where
  "lex_digits s =
     (if takeWhile is_digit s = [] then None
      else Some (takeWhile is_digit s, dropWhile is_digit s))"

definition lex_frac :: "string \<Rightarrow> (string \<times> string) option" where
  "lex_frac s =
     (case s of [] \<Rightarrow> Some ([], [])
      | c # cs \<Rightarrow> if c = CHR ''.'' then lex_digits cs else Some ([], s))"

definition lex_exp :: "string \<Rightarrow> ((bool \<times> string) option \<times> string) option" where
  "lex_exp s =
     (case s of [] \<Rightarrow> Some (None, [])
      | c # cs \<Rightarrow>
          if c = CHR ''e'' \<or> c = CHR ''E'' then
            (let (neg, ds) = (case cs of [] \<Rightarrow> (False, [])
                              | d # ds \<Rightarrow> if d = CHR ''-'' then (True, ds)
                                        else if d = CHR ''+'' then (False, ds) else (False, cs))
             in map_option (\<lambda>(e, r). (Some (neg, e), r)) (lex_digits ds))
          else Some (None, s))"

definition lex_num :: "string \<Rightarrow> (num_lit \<times> string) option" where
  "lex_num s =
     (let (neg, s1) = (case s of [] \<Rightarrow> (False, [])
                       | c # cs \<Rightarrow> if c = CHR ''-'' then (True, cs) else (False, s))
      in case lex_int s1 of None \<Rightarrow> None
         | Some (i, s2) \<Rightarrow>
             (case lex_frac s2 of None \<Rightarrow> None
              | Some (f, s3) \<Rightarrow>
                  (case lex_exp s3 of None \<Rightarrow> None
                   | Some (e, s4) \<Rightarrow> Some (Num neg i f e, s4))))"

lemma lex_int_length: "lex_int s = Some (i, r) \<Longrightarrow> length r < length s"
  by (auto simp: lex_int_def length_dropWhile_le less_Suc_eq_le split: list.splits if_splits)

lemma lex_digits_length: "lex_digits s = Some (i, r) \<Longrightarrow> length r \<le> length s"
  by (auto simp: lex_digits_def length_dropWhile_le split: if_splits)

lemma lex_frac_length: "lex_frac s = Some (i, r) \<Longrightarrow> length r \<le> length s"
  by (auto simp: lex_frac_def split: list.splits if_splits dest!: lex_digits_length)

lemma lex_exp_length: "lex_exp s = Some (e, r) \<Longrightarrow> length r \<le> length s"
  by (auto simp: lex_exp_def split: list.splits if_splits prod.splits dest!: lex_digits_length)

lemma lex_num_length: "lex_num s = Some (n, r) \<Longrightarrow> length r < length s"
  by (auto simp: lex_num_def split: list.splits if_splits option.splits prod.splits
      dest!: lex_int_length lex_frac_length lex_exp_length)

subsection \<open>Strings\<close>

text \<open>\<open>utf8.EncodeRune\<close>, and the width of the valid UTF-8 sequence a string starts with
  (0: none, the byte is replaced by U+FFFD).\<close>

definition replacement :: string where
  "replacement = [CHR 0xEF, CHR 0xBF, CHR 0xBD]"

definition utf8_encode :: "nat \<Rightarrow> string" where
  "utf8_encode r =
     (if r < 0x80 then [char_of r]
      else if r < 0x800 then [char_of (0xC0 + r div 64), char_of (0x80 + r mod 64)]
      else if (0xD800 \<le> r \<and> r < 0xE000) \<or> 0x10FFFF < r then replacement
      else if r < 0x10000 then
        [char_of (0xE0 + r div 4096), char_of (0x80 + r div 64 mod 64), char_of (0x80 + r mod 64)]
      else [char_of (0xF0 + r div 262144), char_of (0x80 + r div 4096 mod 64),
            char_of (0x80 + r div 64 mod 64), char_of (0x80 + r mod 64)])"

definition byte_in :: "nat \<Rightarrow> nat \<Rightarrow> string \<Rightarrow> nat \<Rightarrow> bool" where
  "byte_in lo hi s i \<longleftrightarrow> i < length s \<and> lo \<le> byte_of (s ! i) \<and> byte_of (s ! i) \<le> hi"

definition utf8_width :: "string \<Rightarrow> nat" where
  "utf8_width s =
     (let cont = byte_in 0x80 0xBF s in
      if byte_in 0 0x7F s 0 then 1
      else if byte_in 0xC2 0xDF s 0 \<and> cont 1 then 2
      else if byte_in 0xE0 0xE0 s 0 \<and> byte_in 0xA0 0xBF s 1 \<and> cont 2 then 3
      else if (byte_in 0xE1 0xEC s 0 \<or> byte_in 0xEE 0xEF s 0) \<and> cont 1 \<and> cont 2 then 3
      else if byte_in 0xED 0xED s 0 \<and> byte_in 0x80 0x9F s 1 \<and> cont 2 then 3
      else if byte_in 0xF0 0xF0 s 0 \<and> byte_in 0x90 0xBF s 1 \<and> cont 2 \<and> cont 3 then 4
      else if byte_in 0xF1 0xF3 s 0 \<and> cont 1 \<and> cont 2 \<and> cont 3 then 4
      else if byte_in 0xF4 0xF4 s 0 \<and> byte_in 0x80 0x8F s 1 \<and> cont 2 \<and> cont 3 then 4
      else 0)"

fun hex4 :: "string \<Rightarrow> (nat \<times> string) option" where
  "hex4 (a # b # c # d # r) =
     (case (hex_value a, hex_value b, hex_value c, hex_value d) of
        (Some w, Some x, Some y, Some z) \<Rightarrow> Some (w * 4096 + x * 256 + y * 16 + z, r)
      | _ \<Rightarrow> None)"
| "hex4 _ = None"

text \<open>The escape after a backslash: the bytes it stands for and the rest. A \<open>\u\<close> escape of a
  high surrogate joins with a following low one; an unpaired surrogate is U+FFFD.\<close>

definition low_surrogate :: "string \<Rightarrow> (nat \<times> string) option" where
  "low_surrogate s =
     (case s of
        b # u # r \<Rightarrow>
          if b = CHR 0x5C \<and> u = CHR ''u'' then
            (case hex4 r of
               Some (n, r') \<Rightarrow> if 0xDC00 \<le> n \<and> n < 0xE000 then Some (n, r') else None
             | None \<Rightarrow> None)
          else None
      | _ \<Rightarrow> None)"

definition unicode_escape :: "string \<Rightarrow> (string \<times> string) option" where
  "unicode_escape s =
     (case hex4 s of None \<Rightarrow> None
      | Some (n, r) \<Rightarrow>
          if 0xD800 \<le> n \<and> n < 0xDC00 then
            (case low_surrogate r of
               Some (m, r') \<Rightarrow> Some (utf8_encode ((n - 0xD800) * 1024 + (m - 0xDC00) + 0x10000), r')
             | None \<Rightarrow> Some (replacement, r))
          else Some (utf8_encode n, r))"

definition escape :: "string \<Rightarrow> (string \<times> string) option" where
  "escape s =
     (case s of [] \<Rightarrow> None
      | c # r \<Rightarrow>
          if c = CHR 0x22 \<or> c = CHR 0x5C \<or> c = CHR 0x2F then Some ([c], r)
          else if c = CHR ''b'' then Some ([CHR 0x08], r)
          else if c = CHR ''f'' then Some ([CHR 0x0C], r)
          else if c = CHR ''n'' then Some ([CHR 0x0A], r)
          else if c = CHR ''r'' then Some ([CHR 0x0D], r)
          else if c = CHR ''t'' then Some ([CHR 0x09], r)
          else if c = CHR ''u'' then unicode_escape r
          else None)"

lemma hex4_length: "hex4 s = Some (n, r) \<Longrightarrow> length r < length s"
  by (cases s rule: hex4.cases) (auto split: option.splits)

lemma low_surrogate_length: "low_surrogate s = Some (n, r) \<Longrightarrow> length r < length s"
  by (auto simp: low_surrogate_def split: list.splits if_splits option.splits dest!: hex4_length)

lemma unicode_escape_length: "unicode_escape s = Some (t, r) \<Longrightarrow> length r < length s"
  by (auto simp: unicode_escape_def split: if_splits option.splits
      dest!: hex4_length low_surrogate_length)

lemma escape_length: "escape s = Some (t, r) \<Longrightarrow> length r < length s"
  by (auto simp: escape_def split: list.splits if_splits dest!: unicode_escape_length)

text \<open>The characters of a string literal after its opening quote.\<close>

function parse_chars :: "string \<Rightarrow> (string \<times> string) option" where
  "parse_chars s =
     (case s of [] \<Rightarrow> None
      | c # cs \<Rightarrow>
          if c = CHR 0x22 then Some ([], cs)
          else if c = CHR 0x5C then
            (case escape cs of None \<Rightarrow> None
             | Some (t, r) \<Rightarrow> map_option (\<lambda>(u, r'). (t @ u, r')) (parse_chars r))
          else if byte_of c < 0x20 then None
          else if utf8_width s = 0 then
            map_option (\<lambda>(u, r). (replacement @ u, r)) (parse_chars cs)
          else map_option (\<lambda>(u, r). (take (utf8_width s) s @ u, r))
                 (parse_chars (drop (utf8_width s) s)))"
  by pat_completeness auto
termination
  by (relation "measure length") (auto dest!: escape_length)

declare parse_chars.simps [simp del]

lemma parse_chars_length: "parse_chars s = Some (t, r) \<Longrightarrow> length r < length s"
proof (induction s arbitrary: t r rule: parse_chars.induct)
  case (1 s)
  then obtain c cs where s: "s = c # cs"
    by (subst (asm) (3) parse_chars.simps) (auto split: list.splits)
  note p = "1.prems" [unfolded s parse_chars.simps [of "c # cs"]]
  consider (quote) "c = CHR 0x22" | (esc) "c = CHR 0x5C" "c \<noteq> CHR 0x22"
    | (bad) "c \<noteq> CHR 0x22" "c \<noteq> CHR 0x5C" "\<not> byte_of c < 0x20" "utf8_width s = 0"
    | (rune) "c \<noteq> CHR 0x22" "c \<noteq> CHR 0x5C" "\<not> byte_of c < 0x20" "utf8_width s \<noteq> 0"
    | (ctl) "c \<noteq> CHR 0x22" "c \<noteq> CHR 0x5C" "byte_of c < 0x20"
    by blast
  then show ?case
  proof cases
    case quote
    with p show ?thesis by (simp add: s)
  next
    case esc
    with p obtain t1 r1 where e: "escape cs = Some (t1, r1)" by (auto split: option.splits)
    with esc p obtain u where "parse_chars r1 = Some (u, r)" by auto
    with esc e have "length r < length r1" by (intro "1.IH"(1) [OF s]) auto
    with escape_length [OF e] show ?thesis by (simp add: s)
  next
    case bad
    with p obtain u where "parse_chars cs = Some (u, r)" by (auto simp: s)
    with bad show ?thesis using "1.IH"(2) [OF s, of u r] by (simp add: s)
  next
    case rune
    with p obtain u where "parse_chars (drop (utf8_width s) s) = Some (u, r)" by (auto simp: s)
    with rune show ?thesis using "1.IH"(3) [OF s, of u r] by simp
  next
    case ctl
    with p show ?thesis by simp
  qed
qed

section \<open>Values\<close>

text \<open>
  The scanner's grammar as a recursive descent. The first argument is the nesting that is still
  allowed (Go stops at 10000). The length guards are what the termination argument needs;
  \<open>parse_guards\<close> below shows that they never cut anything off.
\<close>

definition lex_lit :: "string \<Rightarrow> json \<Rightarrow> string \<Rightarrow> (json \<times> string) option" where
  "lex_lit w v s = (if prefix w s then Some (v, drop (length w) s) else None)"

function parse_val :: "nat \<Rightarrow> string \<Rightarrow> (json \<times> string) option"
  and parse_elems :: "nat \<Rightarrow> string \<Rightarrow> (json list \<times> string) option"
  and parse_members :: "nat \<Rightarrow> string \<Rightarrow> ((string \<times> json) list \<times> string) option"
where
  "parse_val d s =
     (case skip_ws s of [] \<Rightarrow> None
      | c # cs \<Rightarrow>
          if c = CHR 0x7B then
            (if d = 0 then None
             else if skip_ws cs \<noteq> [] \<and> hd (skip_ws cs) = CHR 0x7D
             then Some (JObj [], tl (skip_ws cs))
             else map_option (\<lambda>(ms, r). (JObj ms, r)) (parse_members (d - 1) cs))
          else if c = CHR 0x5B then
            (if d = 0 then None
             else if skip_ws cs \<noteq> [] \<and> hd (skip_ws cs) = CHR 0x5D
             then Some (JArr [], tl (skip_ws cs))
             else map_option (\<lambda>(vs, r). (JArr vs, r)) (parse_elems (d - 1) cs))
          else if c = CHR 0x22 then map_option (\<lambda>(t, r). (JStr t, r)) (parse_chars cs)
          else if c = CHR ''t'' then lex_lit ''true'' (JBool True) (c # cs)
          else if c = CHR ''f'' then lex_lit ''false'' (JBool False) (c # cs)
          else if c = CHR ''n'' then lex_lit ''null'' JNull (c # cs)
          else map_option (\<lambda>(n, r). (JNum n, r)) (lex_num (c # cs)))"
| "parse_elems d s =
     (case parse_val d s of None \<Rightarrow> None
      | Some (v, r) \<Rightarrow>
          (case skip_ws r of [] \<Rightarrow> None
           | c # r' \<Rightarrow>
               if c = CHR 0x5D then Some ([v], r')
               else if c = CHR 0x2C \<and> length r' < length s
               then map_option (\<lambda>(vs, r''). (v # vs, r'')) (parse_elems d r')
               else None))"
| "parse_members d s =
     (case skip_ws s of [] \<Rightarrow> None
      | q # cs \<Rightarrow>
          if q \<noteq> CHR 0x22 then None
          else (case parse_chars cs of None \<Rightarrow> None
            | Some (k, r) \<Rightarrow>
               (case skip_ws r of [] \<Rightarrow> None
                | c # r1 \<Rightarrow>
                    if c \<noteq> CHR 0x3A \<or> \<not> length r1 < length s then None
                    else (case parse_val d r1 of None \<Rightarrow> None
                      | Some (v, r2) \<Rightarrow>
                          (case skip_ws r2 of [] \<Rightarrow> None
                           | c' # r3 \<Rightarrow>
                               if c' = CHR 0x7D then Some ([(k, v)], r3)
                               else if c' = CHR 0x2C \<and> length r3 < length s
                               then map_option (\<lambda>(ms, r4). ((k, v) # ms, r4)) (parse_members d r3)
                               else None)))))"
  by pat_completeness auto
termination
proof (relation "measure (\<lambda>x. case x of Inl (d, s) \<Rightarrow> 2 * length s
    | Inr y \<Rightarrow> (case y of Inl (d, s) \<Rightarrow> 2 * length s + 1 | Inr (d, s) \<Rightarrow> 2 * length s + 1))",
    goal_cases)
qed (auto dest!: skip_ws_ConsD)

declare parse_val.simps [simp del] parse_elems.simps [simp del] parse_members.simps [simp del]

lemma lex_lit_length: "lex_lit w v s = Some (x, r) \<Longrightarrow> w \<noteq> [] \<Longrightarrow> length r < length s"
  by (auto simp: lex_lit_def prefix_def split: if_splits)

lemma skip_ws_tl: "skip_ws s \<noteq> [] \<Longrightarrow> length (tl (skip_ws s)) < length s"
  using length_skip_ws [of s] by (cases "skip_ws s") auto

lemma parse_length:
  "parse_val d s = Some (v, r) \<Longrightarrow> length r < length s"
  "parse_elems d s = Some (vs, r) \<Longrightarrow> length r < length s"
  "parse_members d s = Some (ms, r) \<Longrightarrow> length r < length s"
proof (induction d s and d s and d s arbitrary: v r and vs r and ms r
    rule: parse_val_parse_elems_parse_members.induct)
  case (1 d s)
  from "1.prems" obtain c cs where cs: "skip_ws s = c # cs"
    by (subst (asm) (1) parse_val.simps) (auto split: list.splits)
  note len = skip_ws_ConsD [OF cs]
  have ns: "length (c # cs) \<le> length s" using len by simp
  note p = "1.prems" [unfolded parse_val.simps [of d s] cs list.case]
  show ?case
  proof (cases "c = CHR 0x7B \<or> c = CHR 0x5B")
    case True
    with p "1.IH" [OF cs] len show ?thesis
      by (fastforce split: if_splits dest: skip_ws_tl)
  next
    case False
    with p len ns show ?thesis
      by (auto split: if_splits dest!: parse_chars_length lex_num_length lex_lit_length)
  qed
next
  case (2 d s)
  from "2.prems" obtain v r1 where v: "parse_val d s = Some (v, r1)"
    by (subst (asm) (1) parse_elems.simps) (auto split: option.splits)
  have l1: "length r1 < length s" by (rule "2.IH"(1) [OF v])
  note p = "2.prems" [unfolded parse_elems.simps [of d s] v option.case prod.case]
  from p obtain c r2 where c: "skip_ws r1 = c # r2" by (auto split: list.splits)
  have l2: "length r2 < length s" using skip_ws_ConsD [OF c] l1 by simp
  show ?case
  proof (cases "c = CHR 0x5D")
    case True
    with p c l2 show ?thesis by simp
  next
    case False
    with p c obtain vs' where e: "c = CHR 0x2C" "parse_elems d r2 = Some (vs', r)"
      by (auto split: if_splits)
    have "length r < length r2"
      by (rule "2.IH"(2) [OF v refl c False _ e(2)]) (simp add: e(1) l2)
    with l2 show ?thesis by simp
  qed
next
  case (3 d s)
  from "3.prems" obtain cs where cs: "skip_ws s = CHR 0x22 # cs"
    by (subst (asm) (1) parse_members.simps) (auto split: list.splits if_splits)
  note p = "3.prems" [unfolded parse_members.simps [of d s] cs list.case, simplified]
  from p obtain k r1 where k: "parse_chars cs = Some (k, r1)" by (auto split: option.splits)
  note p = p [unfolded k, simplified]
  from p obtain r2 where r2: "skip_ws r1 = CHR 0x3A # r2" "length r2 < length s"
    by (auto split: list.splits if_splits)
  note p = p [unfolded r2, simplified]
  from p r2 obtain v r3 where v: "parse_val d r2 = Some (v, r3)" by (auto split: option.splits)
  note p = p [unfolded v, simplified]
  have l3: "length r3 < length r2"
    by (rule "3.IH"(1) [OF cs _ k refl r2(1) _ v]) (simp_all add: r2(2))
  from p obtain c r4 where c: "skip_ws r3 = c # r4" using r2(2) by (auto split: list.splits)
  have l4: "length r4 < length s" using skip_ws_ConsD [OF c] l3 r2(2) by simp
  show ?case
  proof (cases "c = CHR 0x7D")
    case True
    with p c l4 show ?thesis using r2(2) by simp
  next
    case False
    with p c r2(2) obtain ms' where e: "c = CHR 0x2C" "parse_members d r4 = Some (ms', r)"
      by (auto split: if_splits)
    have "length r < length r4"
      by (rule "3.IH"(2) [OF cs _ k refl r2(1) _ v refl c False _ e(2)])
         (simp_all add: e(1) l4 r2(2))
    with l4 show ?thesis by simp
  qed
qed

text \<open>The guards are always true: the same equations without them.\<close>

lemma parse_elems_eq:
  "parse_elems d s =
     (case parse_val d s of None \<Rightarrow> None
      | Some (v, r) \<Rightarrow>
          (case skip_ws r of [] \<Rightarrow> None
           | c # r' \<Rightarrow>
               if c = CHR 0x5D then Some ([v], r')
               else if c = CHR 0x2C then map_option (\<lambda>(vs, r''). (v # vs, r'')) (parse_elems d r')
               else None))"
proof (cases "parse_val d s")
  case None
  then show ?thesis by (subst parse_elems.simps) simp
next
  case (Some p)
  obtain v r where p: "p = (v, r)" by fastforce
  have "length r' < length s" if "skip_ws r = c # r'" for c r'
    using skip_ws_ConsD [OF that] parse_length(1) [OF Some [unfolded p]] by simp
  then show ?thesis
    by (subst parse_elems.simps) (auto simp: Some p split: list.splits)
qed

lemma parse_members_eq:
  "parse_members d s =
     (case skip_ws s of [] \<Rightarrow> None
      | q # cs \<Rightarrow>
          if q \<noteq> CHR 0x22 then None
          else (case parse_chars cs of None \<Rightarrow> None
            | Some (k, r) \<Rightarrow>
               (case skip_ws r of [] \<Rightarrow> None
                | c # r1 \<Rightarrow>
                    if c \<noteq> CHR 0x3A then None
                    else (case parse_val d r1 of None \<Rightarrow> None
                      | Some (v, r2) \<Rightarrow>
                          (case skip_ws r2 of [] \<Rightarrow> None
                           | c' # r3 \<Rightarrow>
                               if c' = CHR 0x7D then Some ([(k, v)], r3)
                               else if c' = CHR 0x2C
                               then map_option (\<lambda>(ms, r4). ((k, v) # ms, r4)) (parse_members d r3)
                               else None)))))"
proof -
  have g1: "length r1 < length s"
    if "skip_ws s = q # cs" "parse_chars cs = Some (k, r)" "skip_ws r = c # r1" for q cs k r c r1
    using that(1,3) [THEN skip_ws_ConsD] parse_chars_length [OF that(2)] by simp
  have g2: "length r3 < length s"
    if "skip_ws s = q # cs" "parse_chars cs = Some (k, r)" "skip_ws r = c # r1"
      "parse_val d r1 = Some (v, r2)" "skip_ws r2 = c' # r3" for q cs k r c r1 v r2 c' r3
    using g1 [OF that(1,2,3)] parse_length(1) [OF that(4)] skip_ws_ConsD [OF that(5)] by simp
  show ?thesis
    by (subst parse_members.simps) (auto dest: g1 g2 split: list.splits option.splits)
qed

section \<open>Unmarshal and Decode\<close>

definition max_nesting :: nat where
  "max_nesting = 10000"

definition json_unmarshal :: "string \<Rightarrow> json option" where
  "json_unmarshal s =
     (case parse_val max_nesting s of
        Some (v, r) \<Rightarrow> if skip_ws r = [] then Some v else None
      | None \<Rightarrow> None)"

text \<open>\<open>Decoder.Decode\<close> reads the first value and leaves the rest of the stream; on a stream
  with nothing but white space its error is \<open>io.EOF\<close>.\<close>

datatype decode_error = EOF | Malformed

definition json_decode :: "string \<Rightarrow> decode_error + json" where
  "json_decode s =
     (if skip_ws s = [] then Inl EOF
      else case parse_val max_nesting s of
             Some (v, r) \<Rightarrow> Inr v
           | None \<Rightarrow> Inl Malformed)"

lemma json_unmarshal_decode: "json_unmarshal s = Some v \<Longrightarrow> json_decode s = Inr v"
proof -
  assume u: "json_unmarshal s = Some v"
  then obtain r where "parse_val max_nesting s = Some (v, r)"
    by (auto simp: json_unmarshal_def split: option.splits if_splits)
  moreover from this have "skip_ws s \<noteq> []" by (subst (asm) parse_val.simps) auto
  ultimately show ?thesis by (simp add: json_decode_def)
qed

section \<open>Decoding into Go values\<close>

text \<open>
  A decoder takes the value and what the destination holds already: \<open>null\<close> leaves a string,
  number or bool alone and clears a pointer. Struct fields match a member name exactly or up to
  Unicode case folding, which for the ASCII names of this service adds U+017F (for s) and
  U+212A (for k); the members are taken in the order of the text. A type mismatch anywhere
  makes the whole call fail (\<open>None\<close>).
\<close>

type_synonym 'a decoder = "json \<Rightarrow> 'a \<Rightarrow> 'a option"

definition dec_string :: "string decoder" where
  "dec_string v old = (case v of JNull \<Rightarrow> Some old | JStr s \<Rightarrow> Some s | _ \<Rightarrow> None)"

definition dec_bool :: "bool decoder" where
  "dec_bool v old = (case v of JNull \<Rightarrow> Some old | JBool b \<Rightarrow> Some b | _ \<Rightarrow> None)"

definition dec_float :: "float64 decoder" where
  "dec_float v old =
     (case v of JNull \<Rightarrow> Some old | JNum n \<Rightarrow> round64 (num_value n) | _ \<Rightarrow> None)"

definition dec_int :: "int decoder" where
  "dec_int v old =
     (case v of JNull \<Rightarrow> Some old
      | JNum n \<Rightarrow>
          (let i = (if num_neg n then - 1 else 1) * int (read_nat_from 0 (num_int n)) in
           if num_frac n = [] \<and> num_exp n = None \<and> - (2 ^ 63) \<le> i \<and> i < 2 ^ 63 then Some i
           else None)
      | _ \<Rightarrow> None)"

definition dec_ptr :: "'a \<Rightarrow> 'a decoder \<Rightarrow> 'a option decoder" where
  "dec_ptr zero dec v old =
     (case v of JNull \<Rightarrow> Some None
      | _ \<Rightarrow> map_option Some (dec v (case old of None \<Rightarrow> zero | Some x \<Rightarrow> x)))"

definition dec_raw :: "json option decoder" where
  "dec_raw v old = Some (Some v)"

text \<open>A slice: an array's elements are decoded in place, each over what the slice held at its
  index, or over a zero value; \<open>null\<close> is the nil slice (\<open>None\<close>).\<close>

fun dec_elems :: "'a \<Rightarrow> 'a decoder \<Rightarrow> json list \<Rightarrow> 'a list \<Rightarrow> 'a list option" where
  "dec_elems zero dec [] olds = Some []"
| "dec_elems zero dec (v # vs) olds =
     Option.bind (dec v (case olds of [] \<Rightarrow> zero | old # _ \<Rightarrow> old)) (\<lambda>x.
     map_option ((#) x) (dec_elems zero dec vs (tl olds)))"

definition dec_slice :: "'a \<Rightarrow> 'a decoder \<Rightarrow> 'a list option decoder" where
  "dec_slice zero dec v old =
     (case v of JNull \<Rightarrow> Some None
      | JArr vs \<Rightarrow> map_option Some (dec_elems zero dec vs (case old of None \<Rightarrow> [] | Some xs \<Rightarrow> xs))
      | _ \<Rightarrow> None)"

fun fold_key :: "string \<Rightarrow> string" where
  "fold_key [] = []"
| "fold_key (c # cs) =
     (if prefix [CHR 0xC5, CHR 0xBF] (c # cs) then CHR ''s'' # fold_key (drop 1 cs)
      else if prefix [CHR 0xE2, CHR 0x84, CHR 0xAA] (c # cs) then CHR ''k'' # fold_key (drop 2 cs)
      else ascii_lower c # fold_key cs)"

fun dec_field :: "string \<Rightarrow> 'a decoder \<Rightarrow> (string \<times> json) list \<Rightarrow> 'a \<Rightarrow> 'a option" where
  "dec_field f dec [] old = Some old"
| "dec_field f dec ((k, v) # ms) old =
     (if fold_key k = f then Option.bind (dec v old) (dec_field f dec ms)
      else dec_field f dec ms old)"

definition dec_struct :: "json \<Rightarrow> (string \<times> json) list option" where
  "dec_struct v = (case v of JObj ms \<Rightarrow> Some ms | JNull \<Rightarrow> Some [] | _ \<Rightarrow> None)"

text \<open>A \<open>map[string]json.RawMessage\<close>: exact names, the last member of a name wins, and a nil
  map for \<open>null\<close>.\<close>

definition dec_raw_map :: "json \<Rightarrow> (string \<rightharpoonup> json) option" where
  "dec_raw_map v = map_option (\<lambda>ms. map_of (rev ms)) (dec_struct v)"

lemma dec_field_absent: "(\<forall>(k, v)\<in>set ms. fold_key k \<noteq> f) \<Longrightarrow> dec_field f dec ms old = Some old"
  by (induction ms) auto

lemma dec_field_append:
  "dec_field f dec (xs @ ys) old = Option.bind (dec_field f dec xs old) (dec_field f dec ys)"
proof (induction xs arbitrary: old)
  case (Cons m xs)
  obtain k v where "m = (k, v)" by fastforce
  with Cons show ?case by (cases "dec v old") auto
qed simp

end
