(* ===== verification/Db.thy ===== *)
theory Db
  imports Json
begin

text \<open>
  The database of \<open>api/migrations\<close> and what it means to run a statement against it.

  The tables are lists of rows in heap order. A statement is a function from the session (the
  server clock's \<open>now()\<close>, the value \<open>gen_random_uuid()\<close> draws, the server's text input
  functions) and the database to a result and the new database; an error leaves the database as
  it was. The Go code runs statements through a pool, so between two statements of one
  handler anything may happen: the \<open>world\<close> carries a script with one \<open>slot\<close> per statement
  that says how much time passed, what the other sessions did to the database meanwhile,
  and whether the request or the reply was lost. A theorem that holds for every script holds
  under every interleaving of atomic statements and every loss of messages.
\<close>

section \<open>Rows\<close>

type_synonym time = int \<comment> \<open>microseconds\<close>
type_synonym uuid = string

record user_row =
  u_id :: uuid
  u_email :: string
  u_password_hash :: string
  u_created_at :: time
  u_user_ref :: "string option"

record refresh_row =
  rt_id :: uuid
  rt_user_id :: uuid
  rt_token_hash :: string
  rt_expires_at :: time
  rt_created_at :: time

text \<open>\<open>rules.Rule\<close>: every column of \<open>alert_rules\<close>.\<close>

record rule =
  r_id :: uuid
  r_user_id :: uuid
  r_name :: string
  r_event_type :: string
  r_threshold :: "float64 option"
  r_enabled :: bool
  r_created_at :: time
  r_updated_at :: time

text \<open>The four values \<open>events_status_check\<close> admits.\<close>

datatype status = Pending | Processing | Processed | Failed

fun status_text :: "status \<Rightarrow> string" where
  "status_text Pending = ''pending''"
| "status_text Processing = ''processing''"
| "status_text Processed = ''processed''"
| "status_text Failed = ''failed''"

lemma status_text_inj [simp]: "status_text s = status_text t \<longleftrightarrow> s = t"
  by (cases s; cases t) auto

text \<open>\<open>events.Event\<close> is what the Go code reads of a row; the row has \<open>claimed_at\<close> too.\<close>

record event =
  ev_id :: uuid
  ev_user_id :: uuid
  ev_idempotency_key :: string
  ev_type :: string
  ev_payload :: json
  ev_status :: status
  ev_attempt_count :: int
  ev_last_error :: "string option"
  ev_matched_rule_id :: "uuid option"
  ev_received_at :: time
  ev_processed_at :: "time option"

record event_row = event +
  ev_claimed_at :: "time option"

record summary_row =
  sm_id :: uuid
  sm_user_id :: uuid
  sm_request_hash :: string
  sm_event_ids :: "uuid list"
  sm_response :: json
  sm_created_at :: time

record db =
  users :: "user_row list"
  refresh_tokens :: "refresh_row list"
  alert_rules :: "rule list"
  events :: "event_row list"
  ai_summaries :: "summary_row list"

definition empty_db :: db where
  "empty_db = \<lparr>users = [], refresh_tokens = [], alert_rules = [], events = [], ai_summaries = []\<rparr>"

section \<open>Errors\<close>

text \<open>
  The sentinel errors of the packages, pgx's \<open>ErrNoRows\<close>, a server error with its SQLSTATE,
  a lost connection, a cancelled context, and \<open>fmt.Errorf\<close> without and with \<open>%w\<close>.
\<close>

datatype error =
    ErrNoRows
  | PgError string
  | ConnError
  | CtxCancelled
  | ErrEventNotFound
  | ErrUnknownUserRef
  | ErrRuleNotFound
  | ErrEmailTaken
  | ErrInvalidRefresh
  | ErrUserNotFound
  | Errorf string
  | Wrap string error

fun errors_is :: "error \<Rightarrow> error \<Rightarrow> bool" where
  "errors_is (Wrap m e) t = (Wrap m e = t \<or> errors_is e t)"
| "errors_is e t = (e = t)"

text \<open>\<open>errors.As\<close> with a \<open>*pgconn.PgError\<close>: its \<open>Code\<close>.\<close>

fun pg_code :: "error \<Rightarrow> string option" where
  "pg_code (PgError c) = Some c"
| "pg_code (Wrap m e) = pg_code e"
| "pg_code _ = None"

section \<open>The world\<close>

text \<open>
  What the service relies on of PostgreSQL's input functions: \<open>uuid\<close> input (case and
  punctuation are normalised, anything else is an error), which strings are legal text in
  the server's encoding, \<open>jsonb\<close> input with its normal form, and the message texts of
  server and connection errors.
\<close>

record pg =
  pg_uuid_in :: "string \<Rightarrow> uuid option"
  pg_text_ok :: "string \<Rightarrow> bool"
  pg_jsonb_in :: "json \<Rightarrow> json option"
  pg_error_text :: "error \<Rightarrow> string"

record sess =
  se_now :: time
  se_uuid :: uuid
  se_pg :: pg

type_synonym 'a stmt = "sess \<Rightarrow> db \<Rightarrow> (error + 'a) \<times> db"

text \<open>
  A message can be lost before the server acts (\<open>Lose_request\<close>) or after it has committed
  (\<open>Lose_reply\<close>); a transaction of several statements can also be lost halfway, after its
  reads were answered, and is then rolled back (\<open>Lose_midway\<close>).
\<close>

datatype fault = Deliver | Lose_request | Lose_midway | Lose_reply

record slot =
  sl_elapsed :: int
  sl_uuid :: uuid
  sl_fault :: fault
  sl_env :: "db \<Rightarrow> db"
  sl_cancel :: bool

record world =
  w_db :: db
  w_now :: time
  w_pg :: pg
  w_script :: "nat \<Rightarrow> slot"
  w_pc :: nat

type_synonym 'a io = "world \<Rightarrow> 'a \<times> world"

definition w_slot :: "world \<Rightarrow> slot" where
  "w_slot w = w_script w (w_pc w)"

text \<open>Time passes and the other sessions run.\<close>

definition elapse :: "world \<Rightarrow> world" where
  "elapse w =
     w\<lparr>w_db := sl_env (w_slot w) (w_db w), w_now := w_now w + sl_elapsed (w_slot w),
       w_pc := Suc (w_pc w)\<rparr>"

definition w_sess :: "world \<Rightarrow> sess" where
  "w_sess w =
     \<lparr>se_now = w_now w + sl_elapsed (w_slot w), se_uuid = sl_uuid (w_slot w), se_pg = w_pg w\<rparr>"

text \<open>\<open>lost r\<close> is what the caller makes of the answer \<open>r\<close> of the transaction when the writes
  or the reply to the commit are lost; a single statement just loses its connection.\<close>

definition transaction :: "(error + 'a \<Rightarrow> error + 'a) \<Rightarrow> 'a stmt \<Rightarrow> (error + 'a) io" where
  "transaction lost q w =
     (let w' = elapse w; (r, d) = q (w_sess w) (w_db w')
      in case sl_fault (w_slot w) of
           Deliver \<Rightarrow> (r, w'\<lparr>w_db := d\<rparr>)
         | Lose_request \<Rightarrow> (Inl ConnError, w')
         | Lose_midway \<Rightarrow> (lost r, w')
         | Lose_reply \<Rightarrow> (lost r, w'\<lparr>w_db := d\<rparr>))"

definition stmt :: "'a stmt \<Rightarrow> (error + 'a) io" where
  "stmt q = transaction (\<lambda>_. Inl ConnError) q"

definition returnW :: "'a \<Rightarrow> 'a io" where
  "returnW x w = (x, w)"

definition bindW :: "'a io \<Rightarrow> ('a \<Rightarrow> 'b io) \<Rightarrow> 'b io" where
  "bindW m f w = (case m w of (x, w') \<Rightarrow> f x w')"

text \<open>Read Go's clock.\<close>

definition nowW :: "time io" where
  "nowW w = (w_now w, w)"

lemma returnW_simps [simp]: "returnW x w = (x, w)"
  by (simp add: returnW_def)

lemma bindW_pair: "m w = (x, w') \<Longrightarrow> bindW m f w = f x w'"
  by (simp add: bindW_def)

lemma bindW_returnW [simp]: "bindW (returnW x) f = f x"
  by (rule ext) (simp add: bindW_def)

lemma bindW_nowW [simp]: "bindW nowW f w = f (w_now w) w"
  by (simp add: bindW_def nowW_def)

text \<open>\<open>err.Error()\<close>: the sentinels' texts, the texts of \<open>fmt.Errorf\<close>, and the driver's for
  its own errors.\<close>

fun error_text :: "(error \<Rightarrow> string) \<Rightarrow> error \<Rightarrow> string" where
  "error_text drv (Wrap m e) = m @ '': '' @ error_text drv e"
| "error_text drv (Errorf m) = m"
| "error_text drv CtxCancelled = ''context canceled''"
| "error_text drv ErrEventNotFound = ''event not found''"
| "error_text drv ErrUnknownUserRef = ''unknown user_ref''"
| "error_text drv ErrRuleNotFound = ''alert rule not found''"
| "error_text drv ErrEmailTaken = ''email taken''"
| "error_text drv ErrInvalidRefresh = ''invalid refresh token''"
| "error_text drv ErrUserNotFound = ''user not found''"
| "error_text drv e = drv e"

definition error_textW :: "error \<Rightarrow> string io" where
  "error_textW e w = (error_text (pg_error_text (w_pg w)) e, w)"

section \<open>Statement arguments\<close>

definition uuid_arg :: "sess \<Rightarrow> string \<Rightarrow> error + uuid" where
  "uuid_arg s t = (case pg_uuid_in (se_pg s) t of None \<Rightarrow> Inl (PgError ''22P02'') | Some u \<Rightarrow> Inr u)"

definition text_arg :: "sess \<Rightarrow> string \<Rightarrow> error + string" where
  "text_arg s t = (if pg_text_ok (se_pg s) t then Inr t else Inl (PgError ''22021''))"

text \<open>A nil \<open>RawMessage\<close> is SQL NULL, which \<open>payload jsonb NOT NULL\<close> rejects.\<close>

definition jsonb_arg :: "sess \<Rightarrow> json option \<Rightarrow> error + json" where
  "jsonb_arg s j =
     (case j of None \<Rightarrow> Inl (PgError ''23502'')
      | Some v \<Rightarrow> (case pg_jsonb_in (se_pg s) v of None \<Rightarrow> Inl (PgError ''22P02'') | Some v' \<Rightarrow> Inr v'))"

text \<open>A query: evaluate against the database and leave it alone. \<open>query_row\<close> is
  \<open>QueryRow(...).Scan\<close>, whose error is \<open>ErrNoRows\<close> when nothing comes back.\<close>

definition query :: "(sess \<Rightarrow> db \<Rightarrow> error + 'a) \<Rightarrow> 'a stmt" where
  "query f s d = (f s d, d)"

definition one_row :: "'a option \<Rightarrow> error + 'a" where
  "one_row r = (case r of None \<Rightarrow> Inl ErrNoRows | Some x \<Rightarrow> Inr x)"

text \<open>An update: arguments that do not convert, and constraint violations, leave the database
  as it was.\<close>

definition update :: "(sess \<Rightarrow> db \<Rightarrow> error + ('a \<times> db)) \<Rightarrow> 'a stmt" where
  "update f s d = (case f s d of Inl e \<Rightarrow> (Inl e, d) | Inr (x, d') \<Rightarrow> (Inr x, d'))"

text \<open>The error handling every store method repeats after \<open>Scan\<close>: \<open>ErrNoRows\<close> becomes the
  package's sentinel, any other error is wrapped.\<close>

definition scan_err :: "error \<Rightarrow> string \<Rightarrow> error + 'a \<Rightarrow> error + 'a" where
  "scan_err nf msg r =
     (case r of Inl e \<Rightarrow> Inl (if errors_is e ErrNoRows then nf else Wrap msg e) | Inr x \<Rightarrow> Inr x)"

definition wrap_err :: "string \<Rightarrow> error + 'a \<Rightarrow> error + 'a" where
  "wrap_err msg r = (case r of Inl e \<Rightarrow> Inl (Wrap msg e) | Inr x \<Rightarrow> Inr x)"

lemma scan_err_simps [simp]:
  "scan_err nf msg (Inr x) = Inr x"
  "scan_err nf msg (Inl ErrNoRows) = Inl nf"
  "scan_err nf msg (Inl (PgError c)) = Inl (Wrap msg (PgError c))"
  "scan_err nf msg (Inl ConnError) = Inl (Wrap msg ConnError)"
  by (simp_all add: scan_err_def)

lemma wrap_err_simps [simp]:
  "wrap_err msg (Inr x) = Inr x" "wrap_err msg (Inl e) = Inl (Wrap msg e)"
  by (simp_all add: wrap_err_def)

lemma scan_err_Inr_iff [simp]: "scan_err nf msg r = Inr x \<longleftrightarrow> r = Inr x"
  by (auto simp: scan_err_def split: sum.splits)

lemma wrap_err_Inr_iff [simp]: "wrap_err msg r = Inr x \<longleftrightarrow> r = Inr x"
  by (auto simp: wrap_err_def split: sum.splits)

lemma query_simps [simp]: "snd (query f s d) = d" "fst (query f s d) = f s d"
  by (simp_all add: query_def)

lemma one_row_Inr_iff [simp]: "one_row r = Inr x \<longleftrightarrow> r = Some x"
  by (auto simp: one_row_def split: option.splits)

lemma update_snd: "snd (update f s d) = (case f s d of Inl e \<Rightarrow> d | Inr (x, d') \<Rightarrow> d')"
  by (simp add: update_def split: sum.splits prod.splits)

lemma update_Inr_iff: "update f s d = (Inr x, d') \<longleftrightarrow> f s d = Inr (x, d')"
  by (auto simp: update_def split: sum.splits prod.splits)

section \<open>Quiet worlds\<close>

text \<open>A world in which every message arrives, nobody else writes and nothing is cancelled.\<close>

definition quiet :: "world \<Rightarrow> bool" where
  "quiet w \<longleftrightarrow>
     (\<forall>k. sl_fault (w_script w k) = Deliver \<and> sl_env (w_script w k) = id
        \<and> \<not> sl_cancel (w_script w k))"

lemma elapse_simps [simp]:
  "w_db (elapse w) = sl_env (w_slot w) (w_db w)"
  "w_now (elapse w) = w_now w + sl_elapsed (w_slot w)"
  "w_pg (elapse w) = w_pg w"
  "w_script (elapse w) = w_script w"
  "w_pc (elapse w) = Suc (w_pc w)"
  by (simp_all add: elapse_def)

lemma w_sess_simps [simp]:
  "se_now (w_sess w) = w_now w + sl_elapsed (w_slot w)"
  "se_uuid (w_sess w) = sl_uuid (w_slot w)"
  "se_pg (w_sess w) = w_pg w"
  by (simp_all add: w_sess_def)

lemma quiet_slot:
  "quiet w \<Longrightarrow> sl_fault (w_slot w) = Deliver"
  "quiet w \<Longrightarrow> sl_env (w_slot w) = id"
  "quiet w \<Longrightarrow> \<not> sl_cancel (w_slot w)"
  by (simp_all add: quiet_def w_slot_def)

lemma quiet_elapse [simp]: "quiet (elapse w) = quiet w"
  by (simp add: quiet_def)

lemma quiet_db [simp]: "quiet (w\<lparr>w_db := d\<rparr>) = quiet w"
  by (simp add: quiet_def)

lemma quiet_elapse_db: "quiet w \<Longrightarrow> w_db (elapse w) = w_db w"
  by (simp add: quiet_slot)

lemma transaction_quiet:
  "quiet w \<Longrightarrow> transaction l q w =
     (fst (q (w_sess w) (w_db w)), (elapse w)\<lparr>w_db := snd (q (w_sess w) (w_db w))\<rparr>)"
  by (simp add: transaction_def quiet_slot split: prod.splits)

lemma stmt_quiet:
  "quiet w \<Longrightarrow> stmt q w = (fst (q (w_sess w) (w_db w)), (elapse w)\<lparr>w_db := snd (q (w_sess w) (w_db w))\<rparr>)"
  by (simp add: stmt_def transaction_quiet)

lemma stmt_query_quiet:
  "quiet w \<Longrightarrow> stmt (query f) w = (f (w_sess w) (w_db w), elapse w)"
  by (simp add: stmt_quiet) (simp add: elapse_def quiet_slot)

text \<open>Whatever the script does, a statement leaves the database where the other sessions put it
  or where its own effect leads from there, and it answers with that effect's result or
  with a lost connection.\<close>

lemma transaction_db_cases:
  "w_db (snd (transaction l q w)) = sl_env (w_slot w) (w_db w) \<or>
   w_db (snd (transaction l q w)) = snd (q (w_sess w) (sl_env (w_slot w) (w_db w)))"
  by (simp add: transaction_def Let_def split: prod.splits fault.splits)

lemma stmt_InrD:
  assumes "stmt q w = (Inr x, w')"
  shows "q (w_sess w) (sl_env (w_slot w) (w_db w)) = (Inr x, w_db w')"
  using assms by (auto simp: stmt_def transaction_def Let_def split: prod.splits fault.splits)

lemma transaction_frame:
  "w_script (snd (transaction l q w)) = w_script w" "w_pg (snd (transaction l q w)) = w_pg w"
  "w_now (snd (transaction l q w)) = w_now w + sl_elapsed (w_slot w)"
  "w_pc (snd (transaction l q w)) = Suc (w_pc w)"
  by (simp_all add: transaction_def Let_def split: prod.splits fault.splits)

lemmas stmt_frame = transaction_frame [of "\<lambda>_. Inl ConnError", folded stmt_def]

section \<open>Relations every operation keeps\<close>

text \<open>
  \<open>keeps G m\<close>: if every step of the other sessions is a \<open>G\<close>-step, then so is the whole
  change of the database from the start of \<open>m\<close> to its end. The locale holds the rules with
  which the components prove this for their operations, for any preorder \<open>G\<close>.
\<close>

definition env_ok :: "(db \<Rightarrow> db \<Rightarrow> bool) \<Rightarrow> world \<Rightarrow> bool" where
  "env_ok G w \<longleftrightarrow> (\<forall>k d. G d (sl_env (w_script w k) d))"

definition keeps :: "(db \<Rightarrow> db \<Rightarrow> bool) \<Rightarrow> 'a io \<Rightarrow> bool" where
  "keeps G m \<longleftrightarrow>
     (\<forall>w. env_ok G w \<longrightarrow>
        G (w_db w) (w_db (snd (m w))) \<and> w_script (snd (m w)) = w_script w)"

lemma keepsD:
  "keeps G m \<Longrightarrow> env_ok G w \<Longrightarrow> G (w_db w) (w_db (snd (m w)))"
  "keeps G m \<Longrightarrow> env_ok G w \<Longrightarrow> env_ok G (snd (m w))"
  by (auto simp: keeps_def env_ok_def)

lemma keeps_if: "(b \<Longrightarrow> keeps G m) \<Longrightarrow> (\<not> b \<Longrightarrow> keeps G n) \<Longrightarrow> keeps G (if b then m else n)"
  by simp

lemma keeps_sum:
  "(\<And>e. r = Inl e \<Longrightarrow> keeps G (f e)) \<Longrightarrow> (\<And>x. r = Inr x \<Longrightarrow> keeps G (g x)) \<Longrightarrow> keeps G (case_sum f g r)"
  by (cases r) auto

lemma keeps_option:
  "(r = None \<Longrightarrow> keeps G f) \<Longrightarrow> (\<And>x. r = Some x \<Longrightarrow> keeps G (g x)) \<Longrightarrow> keeps G (case_option f g r)"
  by (cases r) auto

lemma keeps_prod: "(\<And>x y. p = (x, y) \<Longrightarrow> keeps G (f x y)) \<Longrightarrow> keeps G (case_prod f p)"
  by (cases p) auto

lemma keeps_Let: "(\<And>x. keeps G (f x)) \<Longrightarrow> keeps G (Let y f)"
  by simp

locale db_relation =
  fixes G :: "db \<Rightarrow> db \<Rightarrow> bool"
  assumes G_refl: "G d d"
    and G_trans: "G d d' \<Longrightarrow> G d' d'' \<Longrightarrow> G d d''"
begin

lemma keeps_return: "keeps G (returnW x)"
  by (simp add: keeps_def G_refl)

lemma keeps_now: "keeps G nowW"
  by (simp add: keeps_def nowW_def G_refl)

lemma keeps_error_text: "keeps G (error_textW e)"
  by (simp add: keeps_def error_textW_def G_refl)

lemma keeps_bind:
  assumes "keeps G m" "\<And>x. keeps G (f x)"
  shows "keeps G (bindW m f)"
  unfolding keeps_def
proof (intro allI impI)
  fix w assume w: "env_ok G w"
  obtain x w' where m: "m w = (x, w')" by fastforce
  have 1: "G (w_db w) (w_db w')" "env_ok G w'" "w_script w' = w_script w"
    using assms(1) w m by (auto simp: keeps_def env_ok_def dest!: spec [of _ w])
  have 2: "G (w_db w') (w_db (snd (f x w')))" "w_script (snd (f x w')) = w_script w'"
    using assms(2) [of x] 1(2) by (auto simp: keeps_def)
  show "G (w_db w) (w_db (snd (bindW m f w))) \<and> w_script (snd (bindW m f w)) = w_script w"
    using G_trans [OF 1(1) 2(1)] 1 2 by (simp add: bindW_def m)
qed

lemma keeps_transaction:
  assumes "\<And>s d. G d (snd (q s d))"
  shows "keeps G (transaction l q)"
  unfolding keeps_def
proof (intro allI impI)
  fix w assume "env_ok G w"
  then have e: "G (w_db w) (sl_env (w_slot w) (w_db w))"
    by (simp add: env_ok_def w_slot_def)
  then have "G (w_db w) (w_db (snd (transaction l q w)))"
    using transaction_db_cases [of l q w] assms G_trans by metis
  then show "G (w_db w) (w_db (snd (transaction l q w))) \<and> w_script (snd (transaction l q w)) = w_script w"
    by (simp add: transaction_frame)
qed

lemma keeps_stmt: "(\<And>s d. G d (snd (q s d))) \<Longrightarrow> keeps G (stmt q)"
  unfolding stmt_def by (rule keeps_transaction)

lemma keeps_query: "keeps G (stmt (query f))"
  by (rule keeps_stmt) (simp add: G_refl)

lemmas keeps_rules = keeps_return keeps_now keeps_error_text keeps_bind keeps_query keeps_if keeps_sum
  keeps_option keeps_prod

end

end
