(* ===== verification/Events_Store.thy ===== *)
theory Events_Store
  imports Db "HOL-Library.AList"
begin

text \<open>
  \<open>api/internal/events/store.go\<close>: the SQL statements on \<open>events\<close> (and \<open>users.user_ref\<close>)
  and the store methods around them.
\<close>

section \<open>Statements\<close>

definition user_exists :: "db \<Rightarrow> uuid \<Rightarrow> bool" where
  "user_exists d u \<longleftrightarrow> (\<exists>x\<in>set (users d). u_id x = u)"

definition rule_exists :: "db \<Rightarrow> uuid \<Rightarrow> bool" where
  "rule_exists d i \<longleftrightarrow> (\<exists>x\<in>set (alert_rules d). r_id x = i)"

definition scan_event :: "event_row \<Rightarrow> event" where
  "scan_event r = event.truncate r"

definition sql_user_by_ref :: "string \<Rightarrow> uuid stmt" where
  "sql_user_by_ref ref = query (\<lambda>s d.
     bindE (text_arg s ref) (\<lambda>t.
       one_row (map_option u_id (List.find (\<lambda>u. u_user_ref u = Some t) (users d)))))"

text \<open>\<open>users.user_ref\<close> is UNIQUE; the update reports how many rows it changed.\<close>

definition sql_set_user_ref :: "string \<Rightarrow> string \<Rightarrow> nat stmt" where
  "sql_set_user_ref uid ref = update (\<lambda>s d.
     bindE (uuid_arg s uid) (\<lambda>i. bindE (text_arg s ref) (\<lambda>t.
       if (\<exists>u\<in>set (users d). u_id u = i)
          \<and> (\<exists>u\<in>set (users d). u_id u \<noteq> i \<and> u_user_ref u = Some t)
       then Inl (PgError ''23505'')
       else Inr (count_where (\<lambda>u. u_id u = i) (users d),
                 d\<lparr>users := update_where (\<lambda>u. u_id u = i) (\<lambda>u. u\<lparr>u_user_ref := Some t\<rparr>) (users d)\<rparr>))))"

definition new_event :: "sess \<Rightarrow> uuid \<Rightarrow> string \<Rightarrow> string \<Rightarrow> json \<Rightarrow> event_row" where
  "new_event s u k t p =
     \<lparr>ev_id = se_uuid s, ev_user_id = u, ev_idempotency_key = k, ev_type = t, ev_payload = p,
      ev_status = Pending, ev_attempt_count = 0, ev_last_error = None, ev_matched_rule_id = None,
      ev_received_at = se_now s, ev_processed_at = None, ev_claimed_at = None\<rparr>"

definition same_key :: "uuid \<Rightarrow> string \<Rightarrow> event_row \<Rightarrow> bool" where
  "same_key u k r \<longleftrightarrow> ev_user_id r = u \<and> ev_idempotency_key r = k"

definition sql_insert_event :: "string \<Rightarrow> string \<Rightarrow> string \<Rightarrow> json option \<Rightarrow> event stmt" where
  "sql_insert_event uid key typ payload = update (\<lambda>s d.
     bindE (uuid_arg s uid) (\<lambda>u. bindE (text_arg s key) (\<lambda>k.
     bindE (text_arg s typ) (\<lambda>t. bindE (jsonb_arg s payload) (\<lambda>p.
       if \<exists>r\<in>set (events d). same_key u k r then Inl ErrNoRows
       else if \<exists>r\<in>set (events d). ev_id r = se_uuid s then Inl (PgError ''23505'')
       else if \<not> user_exists d u then Inl (PgError ''23503'')
       else Inr (scan_event (new_event s u k t p),
                 d\<lparr>events := events d @ [new_event s u k t p]\<rparr>))))))"

definition sql_event_by_key :: "string \<Rightarrow> string \<Rightarrow> event stmt" where
  "sql_event_by_key uid key = query (\<lambda>s d.
     bindE (uuid_arg s uid) (\<lambda>u. bindE (text_arg s key) (\<lambda>k.
       one_row (map_option scan_event (List.find (same_key u k) (events d))))))"

definition sql_list_events :: "string \<Rightarrow> string option \<Rightarrow> event list stmt" where
  "sql_list_events uid status = query (\<lambda>s d.
     bindE (uuid_arg s uid) (\<lambda>u.
     bindE (case status of None \<Rightarrow> Inr None | Some t \<Rightarrow> bindE (text_arg s t) (\<lambda>t. Inr (Some t))) (\<lambda>st.
       Inr (map scan_event (take 100 (order_desc ev_received_at
         (filter (\<lambda>r. ev_user_id r = u \<and> (\<forall>t\<in>set_option st. status_text (ev_status r) = t))
            (events d))))))))"

fun uuid_args :: "sess \<Rightarrow> string list \<Rightarrow> error + uuid list" where
  "uuid_args s [] = Inr []"
| "uuid_args s (t # ts) = bindE (uuid_arg s t) (\<lambda>u. bindE (uuid_args s ts) (\<lambda>us. Inr (u # us)))"

definition sql_events_by_ids :: "string \<Rightarrow> string list \<Rightarrow> event list stmt" where
  "sql_events_by_ids uid ids = query (\<lambda>s d.
     bindE (uuid_arg s uid) (\<lambda>u. bindE (uuid_args s ids) (\<lambda>is.
       Inr (map scan_event (filter (\<lambda>r. ev_user_id r = u \<and> ev_id r \<in> set is) (events d))))))"

definition sql_event_for_user :: "string \<Rightarrow> string \<Rightarrow> event stmt" where
  "sql_event_for_user i uid = query (\<lambda>s d.
     bindE (uuid_arg s i) (\<lambda>i. bindE (uuid_arg s uid) (\<lambda>u.
       one_row (map_option scan_event (List.find (\<lambda>r. ev_id r = i \<and> ev_user_id r = u) (events d))))))"

definition sql_event_by_id :: "string \<Rightarrow> event stmt" where
  "sql_event_by_id i = query (\<lambda>s d.
     bindE (uuid_arg s i) (\<lambda>i.
       one_row (map_option scan_event (List.find (\<lambda>r. ev_id r = i) (events d)))))"

subsection \<open>Claiming\<close>

definition secs :: "int \<Rightarrow> time" where
  "secs n = n * 1000000"

definition backoff_secs :: "int \<Rightarrow> int" where
  "backoff_secs attempts = min 60 (max 2 (attempts * 2))"

definition claimable :: "int \<Rightarrow> int \<Rightarrow> time \<Rightarrow> event_row \<Rightarrow> bool" where
  "claimable max_attempts lease_secs now r \<longleftrightarrow>
     ev_status r = Pending
   \<or> (ev_status r = Failed
       \<and> ev_attempt_count r < max_attempts
       \<and> (case ev_processed_at r of Some t \<Rightarrow> t | None \<Rightarrow> ev_received_at r)
           \<le> now - secs (backoff_secs (ev_attempt_count r)))
   \<or> (ev_status r = Processing
       \<and> (case ev_claimed_at r of None \<Rightarrow> False | Some t \<Rightarrow> t \<le> now - secs lease_secs))"

definition claim_row :: "time \<Rightarrow> event_row \<Rightarrow> event_row" where
  "claim_row now r = r\<lparr>ev_status := Processing, ev_claimed_at := Some now\<rparr>"

definition claim_queue :: "int \<Rightarrow> int \<Rightarrow> time \<Rightarrow> event_row list \<Rightarrow> event_row list" where
  "claim_queue max_attempts lease_secs now rows =
     order_asc ev_received_at (filter (claimable max_attempts lease_secs now) rows)"

definition sql_claim_next :: "int \<Rightarrow> int \<Rightarrow> event stmt" where
  "sql_claim_next max_attempts lease_secs = update (\<lambda>s d.
     case claim_queue max_attempts lease_secs (se_now s) (events d) of
       [] \<Rightarrow> Inl ErrNoRows
     | r # _ \<Rightarrow>
         Inr (scan_event (claim_row (se_now s) r),
              d\<lparr>events := update_where (\<lambda>e. ev_id e = ev_id r) (claim_row (se_now s)) (events d)\<rparr>))"

definition sql_claim_by_id :: "string \<Rightarrow> event stmt" where
  "sql_claim_by_id i = update (\<lambda>s d.
     bindE (uuid_arg s i) (\<lambda>i.
       let p = (\<lambda>r. ev_id r = i \<and> (ev_status r = Pending \<or> ev_status r = Failed)) in
       case List.find p (events d) of
         None \<Rightarrow> Inl ErrNoRows
       | Some r \<Rightarrow>
           Inr (scan_event (claim_row (se_now s) r),
                d\<lparr>events := update_where p (claim_row (se_now s)) (events d)\<rparr>)))"

subsection \<open>Finishing\<close>

definition being_processed :: "uuid \<Rightarrow> event_row \<Rightarrow> bool" where
  "being_processed i r \<longleftrightarrow> ev_id r = i \<and> ev_status r = Processing"

definition processed_row :: "time \<Rightarrow> uuid option \<Rightarrow> event_row \<Rightarrow> event_row" where
  "processed_row now m r =
     r\<lparr>ev_status := Processed, ev_matched_rule_id := m, ev_processed_at := Some now,
       ev_last_error := None, ev_claimed_at := None\<rparr>"

definition failed_row :: "time \<Rightarrow> string \<Rightarrow> event_row \<Rightarrow> event_row" where
  "failed_row now msg r =
     r\<lparr>ev_attempt_count := ev_attempt_count r + 1, ev_last_error := Some msg, ev_status := Failed,
       ev_processed_at := Some now, ev_claimed_at := None\<rparr>"

definition uuid_opt_arg :: "sess \<Rightarrow> string option \<Rightarrow> error + uuid option" where
  "uuid_opt_arg s t =
     (case t of None \<Rightarrow> Inr None | Some t \<Rightarrow> bindE (uuid_arg s t) (\<lambda>u. Inr (Some u)))"

text \<open>\<open>matched_rule_id\<close> references \<open>alert_rules\<close>: a rule that is gone by now is a foreign
  key violation.\<close>

definition sql_mark_processed :: "string \<Rightarrow> string option \<Rightarrow> nat stmt" where
  "sql_mark_processed i matched = update (\<lambda>s d.
     bindE (uuid_arg s i) (\<lambda>i. bindE (uuid_opt_arg s matched) (\<lambda>m.
       if (\<exists>r\<in>set (events d). being_processed i r) \<and> (\<exists>x\<in>set_option m. \<not> rule_exists d x)
       then Inl (PgError ''23503'')
       else Inr (count_where (being_processed i) (events d),
                 d\<lparr>events := update_where (being_processed i) (processed_row (se_now s) m) (events d)\<rparr>))))"

text \<open>\<open>attempt_count\<close> is a 32-bit \<open>integer\<close>: one more than its maximum is an error.\<close>

definition sql_mark_failed :: "string \<Rightarrow> string \<Rightarrow> event stmt" where
  "sql_mark_failed i msg = update (\<lambda>s d.
     bindE (uuid_arg s i) (\<lambda>i. bindE (text_arg s msg) (\<lambda>t.
       case List.find (being_processed i) (events d) of
         None \<Rightarrow> Inl ErrNoRows
       | Some r \<Rightarrow>
           if ev_attempt_count r + 1 \<ge> 2 ^ 31 then Inl (PgError ''22003'')
           else Inr (scan_event (failed_row (se_now s) t r),
                     d\<lparr>events := update_where (being_processed i) (failed_row (se_now s) t) (events d)\<rparr>))))"

subsection \<open>Queue statistics\<close>

definition sql_status_counts :: "(status \<times> int) list stmt" where
  "sql_status_counts = query (\<lambda>s d.
     Inr (filter (\<lambda>(st, n). n \<noteq> 0)
            (map (\<lambda>st. (st, int (count_where (\<lambda>r. ev_status r = st) (events d))))
               [Pending, Processing, Processed, Failed])))"

definition sql_oldest_pending :: "float64 stmt" where
  "sql_oldest_pending = query (\<lambda>s d.
     case order_asc ev_received_at (filter (\<lambda>r. ev_status r = Pending) (events d)) of
       [] \<Rightarrow> Inl ErrNoRows
     | r # _ \<Rightarrow>
         (case round64 (of_int (se_now s - ev_received_at r) / 1000000) of
            None \<Rightarrow> Inl (PgError ''22003'')
          | Some age \<Rightarrow> Inr age))"

section \<open>Store methods\<close>

definition user_id_by_ref :: "string \<Rightarrow> (error + uuid) io" where
  "user_id_by_ref ref =
     bindW (stmt (sql_user_by_ref ref)) (\<lambda>r. returnW (scan_err ErrUnknownUserRef ''user by ref'' r))"

definition set_user_ref :: "string \<Rightarrow> string \<Rightarrow> (error + unit) io" where
  "set_user_ref uid ref =
     bindW (stmt (sql_set_user_ref uid ref)) (\<lambda>r. returnW
       (case r of
          Inl e \<Rightarrow> if pg_code e = Some ''23505'' then Inl (Errorf ''user_ref taken'')
                   else Inl (Wrap ''set user_ref'' e)
        | Inr n \<Rightarrow> if n = 0 then Inl ErrEventNotFound else Inr ()))"

definition get_by_idempotency :: "string \<Rightarrow> string \<Rightarrow> (error + event) io" where
  "get_by_idempotency uid key =
     bindW (stmt (sql_event_by_key uid key))
       (\<lambda>r. returnW (scan_err ErrEventNotFound ''get by idempotency'' r))"

record create_input =
  ci_user_id :: string
  ci_idempotency_key :: string
  ci_type :: string
  ci_payload :: "json option"

definition create_pending :: "create_input \<Rightarrow> (error + event \<times> bool) io" where
  "create_pending inp =
     bindW (stmt (sql_insert_event (ci_user_id inp) (ci_idempotency_key inp) (ci_type inp)
              (ci_payload inp))) (\<lambda>r.
       case r of
         Inl e \<Rightarrow>
           if errors_is e ErrNoRows
           then bindW (get_by_idempotency (ci_user_id inp) (ci_idempotency_key inp)) (\<lambda>r'. returnW
                  (case r' of Inl e' \<Rightarrow> Inl e' | Inr ev \<Rightarrow> Inr (ev, False)))
           else returnW (Inl (Wrap ''create event'' e))
       | Inr ev \<Rightarrow> returnW (Inr (ev, True)))"

definition list_for_user :: "string \<Rightarrow> string \<Rightarrow> (error + event list) io" where
  "list_for_user uid status =
     bindW (stmt (sql_list_events uid (if status = [] then None else Some status)))
       (\<lambda>r. returnW (wrap_err ''list events'' r))"

text \<open>The Go map from id to event, filled row by row.\<close>

definition get_for_user_ids :: "string \<Rightarrow> string list \<Rightarrow> (error + (uuid \<times> event) list) io" where
  "get_for_user_ids uid ids =
     (if ids = [] then returnW (Inr [])
      else bindW (stmt (sql_events_by_ids uid ids)) (\<lambda>r. returnW
        (case r of Inl e \<Rightarrow> Inl (Wrap ''get events by ids'' e)
         | Inr evs \<Rightarrow> Inr (fold (\<lambda>e m. AList.update (ev_id e) e m) evs []))))"

definition get_for_user :: "string \<Rightarrow> string \<Rightarrow> (error + event) io" where
  "get_for_user uid i =
     bindW (stmt (sql_event_for_user i uid))
       (\<lambda>r. returnW (scan_err ErrEventNotFound ''get event'' r))"

definition get_by_id :: "string \<Rightarrow> (error + event) io" where
  "get_by_id i =
     bindW (stmt (sql_event_by_id i)) (\<lambda>r. returnW (scan_err ErrEventNotFound ''get event by id'' r))"

text \<open>\<open>time.Duration\<close> counts nanoseconds; \<open>int(d.Seconds())\<close> for a positive one.\<close>

definition claim_lease :: int where
  "claim_lease = 45 * 10 ^ 9"

definition duration_secs :: "int \<Rightarrow> int" where
  "duration_secs d =
     (case round64 (of_int (d mod 10 ^ 9) / 10 ^ 9) of None \<Rightarrow> 0
      | Some f \<Rightarrow> (case round64 (of_int (d div 10 ^ 9) + f) of None \<Rightarrow> 0 | Some x \<Rightarrow> \<lfloor>x\<rfloor>))"

definition claim_next_with_lease :: "int \<Rightarrow> int \<Rightarrow> (error + event) io" where
  "claim_next_with_lease max_attempts lease =
     (let lease' = (if lease \<le> 0 then claim_lease else lease) in
      bindW (stmt (sql_claim_next max_attempts (duration_secs lease')))
        (\<lambda>r. returnW (scan_err ErrEventNotFound ''claim event'' r)))"

definition claim_next :: "int \<Rightarrow> (error + event) io" where
  "claim_next max_attempts = claim_next_with_lease max_attempts claim_lease"

definition claim_by_id :: "string \<Rightarrow> (error + event) io" where
  "claim_by_id i =
     bindW (stmt (sql_claim_by_id i))
       (\<lambda>r. returnW (scan_err ErrEventNotFound ''claim event by id'' r))"

definition mark_processed :: "string \<Rightarrow> string option \<Rightarrow> (error + unit) io" where
  "mark_processed i matched =
     bindW (stmt (sql_mark_processed i matched)) (\<lambda>r. returnW
       (case r of Inl e \<Rightarrow> Inl (Wrap ''mark processed'' e)
        | Inr n \<Rightarrow> if n = 0 then Inl ErrEventNotFound else Inr ()))"

definition mark_attempt_failed :: "string \<Rightarrow> string \<Rightarrow> (error + event) io" where
  "mark_attempt_failed i msg =
     bindW (stmt (sql_mark_failed i msg))
       (\<lambda>r. returnW (scan_err ErrEventNotFound ''mark attempt failed'' r))"

record queue_stats =
  qs_by_status :: "(status \<times> int) list"
  qs_oldest_pending_s :: "float64 option"

definition get_queue_stats :: "(error + queue_stats) io" where
  "get_queue_stats =
     bindW (stmt sql_status_counts) (\<lambda>r.
       case r of
         Inl e \<Rightarrow> returnW (Inl (Wrap ''queue counts'' e))
       | Inr counts \<Rightarrow>
           bindW (stmt sql_oldest_pending) (\<lambda>r'. returnW
             (case r' of
                Inl e \<Rightarrow>
                  if errors_is e ErrNoRows
                  then Inr \<lparr>qs_by_status = counts, qs_oldest_pending_s = None\<rparr>
                  else Inl (Wrap ''oldest pending'' e)
              | Inr age \<Rightarrow> Inr \<lparr>qs_by_status = counts, qs_oldest_pending_s = Some age\<rparr>)))"

lemmas events_store_defs = user_id_by_ref_def set_user_ref_def get_by_idempotency_def
  create_pending_def list_for_user_def get_for_user_ids_def get_for_user_def get_by_id_def
  claim_next_with_lease_def claim_next_def claim_by_id_def mark_processed_def
  mark_attempt_failed_def get_queue_stats_def

section \<open>Basic facts\<close>

lemma duration_secs_whole:
  assumes "\<bar>n\<bar> < 2 ^ 53" shows "duration_secs (n * 10 ^ 9) = n"
  using round64_int [OF assms] by (simp add: duration_secs_def)

lemma duration_secs_claim_lease [simp]: "duration_secs claim_lease = 45"
  using duration_secs_whole [of 45] by (simp add: claim_lease_def)

lemma claim_next_eq:
  "claim_next n = bindW (stmt (sql_claim_next n 45))
     (\<lambda>r. returnW (scan_err ErrEventNotFound ''claim event'' r))"
proof -
  have "\<not> claim_lease \<le> 0" by (simp add: claim_lease_def)
  then show ?thesis by (simp add: claim_next_def claim_next_with_lease_def)
qed

lemma scan_event_simps [simp]:
  "ev_id (scan_event r) = ev_id r"
  "ev_user_id (scan_event r) = ev_user_id r"
  "ev_idempotency_key (scan_event r) = ev_idempotency_key r"
  "ev_type (scan_event r) = ev_type r"
  "ev_payload (scan_event r) = ev_payload r"
  "ev_status (scan_event r) = ev_status r"
  "ev_attempt_count (scan_event r) = ev_attempt_count r"
  "ev_last_error (scan_event r) = ev_last_error r"
  "ev_matched_rule_id (scan_event r) = ev_matched_rule_id r"
  "ev_received_at (scan_event r) = ev_received_at r"
  "ev_processed_at (scan_event r) = ev_processed_at r"
  by (simp_all add: scan_event_def event.truncate_def)

text \<open>The columns a claim or a completion does not write.\<close>

lemma claim_row_simps [simp]:
  "ev_id (claim_row t r) = ev_id r"
  "ev_user_id (claim_row t r) = ev_user_id r"
  "ev_idempotency_key (claim_row t r) = ev_idempotency_key r"
  "ev_type (claim_row t r) = ev_type r"
  "ev_payload (claim_row t r) = ev_payload r"
  "ev_status (claim_row t r) = Processing"
  "ev_attempt_count (claim_row t r) = ev_attempt_count r"
  "ev_last_error (claim_row t r) = ev_last_error r"
  "ev_matched_rule_id (claim_row t r) = ev_matched_rule_id r"
  "ev_received_at (claim_row t r) = ev_received_at r"
  "ev_processed_at (claim_row t r) = ev_processed_at r"
  "ev_claimed_at (claim_row t r) = Some t"
  by (simp_all add: claim_row_def)

lemma processed_row_simps [simp]:
  "ev_id (processed_row t m r) = ev_id r"
  "ev_user_id (processed_row t m r) = ev_user_id r"
  "ev_idempotency_key (processed_row t m r) = ev_idempotency_key r"
  "ev_type (processed_row t m r) = ev_type r"
  "ev_payload (processed_row t m r) = ev_payload r"
  "ev_status (processed_row t m r) = Processed"
  "ev_attempt_count (processed_row t m r) = ev_attempt_count r"
  "ev_last_error (processed_row t m r) = None"
  "ev_matched_rule_id (processed_row t m r) = m"
  "ev_received_at (processed_row t m r) = ev_received_at r"
  "ev_processed_at (processed_row t m r) = Some t"
  "ev_claimed_at (processed_row t m r) = None"
  by (simp_all add: processed_row_def)

lemma failed_row_simps [simp]:
  "ev_id (failed_row t m r) = ev_id r"
  "ev_user_id (failed_row t m r) = ev_user_id r"
  "ev_idempotency_key (failed_row t m r) = ev_idempotency_key r"
  "ev_type (failed_row t m r) = ev_type r"
  "ev_payload (failed_row t m r) = ev_payload r"
  "ev_status (failed_row t m r) = Failed"
  "ev_attempt_count (failed_row t m r) = ev_attempt_count r + 1"
  "ev_last_error (failed_row t m r) = Some m"
  "ev_matched_rule_id (failed_row t m r) = ev_matched_rule_id r"
  "ev_received_at (failed_row t m r) = ev_received_at r"
  "ev_processed_at (failed_row t m r) = Some t"
  "ev_claimed_at (failed_row t m r) = None"
  by (simp_all add: failed_row_def)

lemma new_event_simps [simp]:
  "ev_id (new_event s u k t p) = se_uuid s"
  "ev_user_id (new_event s u k t p) = u"
  "ev_idempotency_key (new_event s u k t p) = k"
  "ev_type (new_event s u k t p) = t"
  "ev_payload (new_event s u k t p) = p"
  "ev_status (new_event s u k t p) = Pending"
  "ev_attempt_count (new_event s u k t p) = 0"
  "ev_last_error (new_event s u k t p) = None"
  "ev_matched_rule_id (new_event s u k t p) = None"
  "ev_received_at (new_event s u k t p) = se_now s"
  "ev_processed_at (new_event s u k t p) = None"
  "ev_claimed_at (new_event s u k t p) = None"
  by (simp_all add: new_event_def)

end
