(* ===== verification/Rules_Store.thy ===== *)
theory Rules_Store
  imports Events_Store
begin

text \<open>
  \<open>api/internal/rules/store.go\<close>: the SQL statements on \<open>alert_rules\<close> and the store methods.
  Deleting a rule clears \<open>events.matched_rule_id\<close> (\<open>ON DELETE SET NULL\<close>).
\<close>

section \<open>Statements\<close>

text \<open>\<open>char_length\<close> counts code points: the bytes that do not continue a UTF-8 sequence.\<close>

definition char_length :: "string \<Rightarrow> nat" where
  "char_length s = length (filter (\<lambda>c. \<not> (128 \<le> byte_of c \<and> byte_of c < 192)) s)"

definition name_check :: "string \<Rightarrow> bool" where
  "name_check s \<longleftrightarrow> char_length s \<le> 80"

definition new_rule :: "sess \<Rightarrow> uuid \<Rightarrow> string \<Rightarrow> string \<Rightarrow> float64 option \<Rightarrow> bool \<Rightarrow> rule" where
  "new_rule s u n t thr en =
     \<lparr>r_id = se_uuid s, r_user_id = u, r_name = n, r_event_type = t, r_threshold = thr,
      r_enabled = en, r_created_at = se_now s, r_updated_at = se_now s\<rparr>"

definition sql_insert_rule ::
  "string \<Rightarrow> string \<Rightarrow> string \<Rightarrow> float64 option \<Rightarrow> bool \<Rightarrow> rule stmt" where
  "sql_insert_rule uid name typ thr enabled = update (\<lambda>s d.
     bindE (uuid_arg s uid) (\<lambda>u. bindE (text_arg s name) (\<lambda>n. bindE (text_arg s typ) (\<lambda>t.
       if \<not> name_check n then Inl (PgError ''23514'')
       else if rule_exists d (se_uuid s) then Inl (PgError ''23505'')
       else if \<not> user_exists d u then Inl (PgError ''23503'')
       else Inr (new_rule s u n t thr enabled,
                 d\<lparr>alert_rules := alert_rules d @ [new_rule s u n t thr enabled]\<rparr>)))))"

definition sql_rule_names :: "string list \<Rightarrow> (uuid \<times> string) list stmt" where
  "sql_rule_names ids = query (\<lambda>s d.
     bindE (uuid_args s ids) (\<lambda>is.
       Inr (map (\<lambda>r. (r_id r, r_name r)) (filter (\<lambda>r. r_id r \<in> set is) (alert_rules d)))))"

definition sql_enabled_rules :: "string \<Rightarrow> string \<Rightarrow> rule list stmt" where
  "sql_enabled_rules uid typ = query (\<lambda>s d.
     bindE (uuid_arg s uid) (\<lambda>u. bindE (text_arg s typ) (\<lambda>t.
       Inr (order_asc r_created_at
              (filter (\<lambda>r. r_user_id r = u \<and> r_event_type r = t \<and> r_enabled r) (alert_rules d))))))"

definition sql_list_rules :: "string \<Rightarrow> rule list stmt" where
  "sql_list_rules uid = query (\<lambda>s d.
     bindE (uuid_arg s uid) (\<lambda>u.
       Inr (order_desc r_created_at (filter (\<lambda>r. r_user_id r = u) (alert_rules d)))))"

definition owned_rule :: "uuid \<Rightarrow> uuid \<Rightarrow> rule \<Rightarrow> bool" where
  "owned_rule i u r \<longleftrightarrow> r_id r = i \<and> r_user_id r = u"

definition sql_rule_for_user :: "string \<Rightarrow> string \<Rightarrow> rule stmt" where
  "sql_rule_for_user i uid = query (\<lambda>s d.
     bindE (uuid_arg s i) (\<lambda>i. bindE (uuid_arg s uid) (\<lambda>u.
       one_row (List.find (owned_rule i u) (alert_rules d)))))"

definition updated_rule ::
  "time \<Rightarrow> string \<Rightarrow> string \<Rightarrow> float64 option \<Rightarrow> bool \<Rightarrow> rule \<Rightarrow> rule" where
  "updated_rule now n t thr en r =
     r\<lparr>r_name := n, r_event_type := t, r_threshold := thr, r_enabled := en, r_updated_at := now\<rparr>"

definition sql_update_rule ::
  "string \<Rightarrow> string \<Rightarrow> string \<Rightarrow> string \<Rightarrow> float64 option \<Rightarrow> bool \<Rightarrow> rule stmt" where
  "sql_update_rule i uid name typ thr enabled = update (\<lambda>s d.
     bindE (uuid_arg s i) (\<lambda>i. bindE (uuid_arg s uid) (\<lambda>u.
     bindE (text_arg s name) (\<lambda>n. bindE (text_arg s typ) (\<lambda>t.
       case List.find (owned_rule i u) (alert_rules d) of
         None \<Rightarrow> Inl ErrNoRows
       | Some r \<Rightarrow>
           if \<not> name_check n then Inl (PgError ''23514'')
           else Inr (updated_rule (se_now s) n t thr enabled r,
                     d\<lparr>alert_rules := update_where (owned_rule i u)
                         (updated_rule (se_now s) n t thr enabled) (alert_rules d)\<rparr>))))))"

definition unmatch_row :: "event_row \<Rightarrow> event_row" where
  "unmatch_row r = r\<lparr>ev_matched_rule_id := None\<rparr>"

definition remove_rules :: "(rule \<Rightarrow> bool) \<Rightarrow> db \<Rightarrow> db" where
  "remove_rules p d =
     (let gone = map r_id (filter p (alert_rules d)) in
      d\<lparr>alert_rules := delete_where p (alert_rules d),
        events := update_where (\<lambda>e. case ev_matched_rule_id e of None \<Rightarrow> False | Some m \<Rightarrow> m \<in> set gone)
          unmatch_row (events d)\<rparr>)"

lemma remove_no_rules: "\<forall>r\<in>set (alert_rules d). \<not> p r \<Longrightarrow> remove_rules p d = d"
proof -
  assume none: "\<forall>r\<in>set (alert_rules d). \<not> p r"
  then have "filter p (alert_rules d) = []" "delete_where p (alert_rules d) = alert_rules d"
    by (auto simp: filter_empty_conv delete_where_def intro: filter_True)
  then show ?thesis by (simp add: remove_rules_def Let_def update_where_none split: option.split)
qed

definition sql_delete_rule :: "string \<Rightarrow> string \<Rightarrow> nat stmt" where
  "sql_delete_rule i uid = update (\<lambda>s d.
     bindE (uuid_arg s i) (\<lambda>i. bindE (uuid_arg s uid) (\<lambda>u.
       Inr (count_where (owned_rule i u) (alert_rules d), remove_rules (owned_rule i u) d))))"

section \<open>Store methods\<close>

definition names_by_ids :: "string list \<Rightarrow> (error + (uuid \<times> string) list) io" where
  "names_by_ids ids =
     (if ids = [] then returnW (Inr [])
      else bindW (stmt (sql_rule_names ids)) (\<lambda>r. returnW
        (case r of Inl e \<Rightarrow> Inl (Wrap ''rule names'' e)
         | Inr rows \<Rightarrow> Inr (fold (\<lambda>(i, n) m. AList.update i n m) rows []))))"

definition enabled_by_user_and_type :: "string \<Rightarrow> string \<Rightarrow> (error + rule list) io" where
  "enabled_by_user_and_type uid typ =
     bindW (stmt (sql_enabled_rules uid typ)) (\<lambda>r. returnW (wrap_err ''list matching rules'' r))"

record rule_input =
  ri_name :: string
  ri_event_type :: string
  ri_threshold :: "float64 option"
  ri_enabled :: bool

definition create_rule :: "string \<Rightarrow> rule_input \<Rightarrow> (error + rule) io" where
  "create_rule uid inp =
     bindW (stmt (sql_insert_rule uid (ri_name inp) (ri_event_type inp) (ri_threshold inp)
              (ri_enabled inp)))
       (\<lambda>r. returnW (wrap_err ''create rule'' r))"

definition list_rules_by_user :: "string \<Rightarrow> (error + rule list) io" where
  "list_rules_by_user uid =
     bindW (stmt (sql_list_rules uid)) (\<lambda>r. returnW (wrap_err ''list rules'' r))"

definition get_rule_for_user :: "string \<Rightarrow> string \<Rightarrow> (error + rule) io" where
  "get_rule_for_user uid i =
     bindW (stmt (sql_rule_for_user i uid)) (\<lambda>r. returnW (scan_err ErrRuleNotFound ''get rule'' r))"

text \<open>\<open>rules.UpdateInput\<close>: a nil field is left alone; \<open>Threshold\<close> is a pointer to a pointer,
  so \<open>Some None\<close> clears the threshold.\<close>

record rule_update =
  ru_name :: "string option"
  ru_event_type :: "string option"
  ru_threshold :: "float64 option option"
  ru_enabled :: "bool option"

definition or_else :: "'a option \<Rightarrow> 'a \<Rightarrow> 'a" where
  "or_else p x = (case p of None \<Rightarrow> x | Some y \<Rightarrow> y)"

definition update_rule_for_user :: "string \<Rightarrow> string \<Rightarrow> rule_update \<Rightarrow> (error + rule) io" where
  "update_rule_for_user uid i inp =
     bindW (get_rule_for_user uid i) (\<lambda>r.
       case r of
         Inl e \<Rightarrow> returnW (Inl e)
       | Inr current \<Rightarrow>
           bindW (stmt (sql_update_rule i uid
                    (or_else (ru_name inp) (r_name current))
                    (or_else (ru_event_type inp) (r_event_type current))
                    (or_else (ru_threshold inp) (r_threshold current))
                    (or_else (ru_enabled inp) (r_enabled current))))
             (\<lambda>r'. returnW (scan_err ErrRuleNotFound ''update rule'' r')))"

definition delete_rule_for_user :: "string \<Rightarrow> string \<Rightarrow> (error + unit) io" where
  "delete_rule_for_user uid i =
     bindW (stmt (sql_delete_rule i uid)) (\<lambda>r. returnW
       (case r of Inl e \<Rightarrow> Inl (Wrap ''delete rule'' e)
        | Inr n \<Rightarrow> if n = 0 then Inl ErrRuleNotFound else Inr ()))"

lemmas rules_store_defs = names_by_ids_def enabled_by_user_and_type_def create_rule_def
  list_rules_by_user_def get_rule_for_user_def update_rule_for_user_def delete_rule_for_user_def

section \<open>Basic facts\<close>

lemma char_length_le: "char_length s \<le> length s"
  by (simp add: char_length_def)

lemma or_else_simps [simp]: "or_else None x = x" "or_else (Some y) x = y"
  by (simp_all add: or_else_def)

lemma unmatch_row_simps [simp]:
  "ev_id (unmatch_row r) = ev_id r"
  "ev_user_id (unmatch_row r) = ev_user_id r"
  "ev_idempotency_key (unmatch_row r) = ev_idempotency_key r"
  "ev_type (unmatch_row r) = ev_type r"
  "ev_payload (unmatch_row r) = ev_payload r"
  "ev_status (unmatch_row r) = ev_status r"
  "ev_attempt_count (unmatch_row r) = ev_attempt_count r"
  "ev_last_error (unmatch_row r) = ev_last_error r"
  "ev_matched_rule_id (unmatch_row r) = None"
  "ev_received_at (unmatch_row r) = ev_received_at r"
  "ev_processed_at (unmatch_row r) = ev_processed_at r"
  "ev_claimed_at (unmatch_row r) = ev_claimed_at r"
  by (simp_all add: unmatch_row_def)

lemma updated_rule_simps [simp]:
  "r_id (updated_rule now n t thr en r) = r_id r"
  "r_user_id (updated_rule now n t thr en r) = r_user_id r"
  "r_name (updated_rule now n t thr en r) = n"
  "r_event_type (updated_rule now n t thr en r) = t"
  "r_threshold (updated_rule now n t thr en r) = thr"
  "r_enabled (updated_rule now n t thr en r) = en"
  "r_created_at (updated_rule now n t thr en r) = r_created_at r"
  "r_updated_at (updated_rule now n t thr en r) = now"
  by (simp_all add: updated_rule_def)

lemma new_rule_simps [simp]:
  "r_id (new_rule s u n t thr en) = se_uuid s"
  "r_user_id (new_rule s u n t thr en) = u"
  "r_name (new_rule s u n t thr en) = n"
  "r_event_type (new_rule s u n t thr en) = t"
  "r_threshold (new_rule s u n t thr en) = thr"
  "r_enabled (new_rule s u n t thr en) = en"
  by (simp_all add: new_rule_def)

lemma remove_rules_simps [simp]:
  "users (remove_rules p d) = users d"
  "refresh_tokens (remove_rules p d) = refresh_tokens d"
  "ai_summaries (remove_rules p d) = ai_summaries d"
  "alert_rules (remove_rules p d) = delete_where p (alert_rules d)"
  by (simp_all add: remove_rules_def)

end
