(* ===== verification/Ai_Store.thy ===== *)
theory Ai_Store
  imports Rules_Store
begin

text \<open>
  \<open>api/internal/ai/store.go\<close> and the \<open>Summary\<close> struct of \<open>schema.go\<close>: the audit row of a
  summary. \<open>FollowUps\<close> keeps the difference between a nil and an empty slice, which the
  validation looks at.
\<close>

record summary =
  s_title :: string
  s_summary_bullets :: "string list"
  s_risk_level :: string
  s_follow_ups :: "string list option"
  s_event_ids :: "string list"

text \<open>\<open>json.Marshal\<close> of the struct, as the value it writes.\<close>

definition strings_json :: "string list \<Rightarrow> json" where
  "strings_json ss = JArr (map JStr ss)"

definition summary_json :: "summary \<Rightarrow> json" where
  "summary_json s =
     JObj [(''title'', JStr (s_title s)),
           (''summary_bullets'', strings_json (s_summary_bullets s)),
           (''risk_level'', JStr (s_risk_level s)),
           (''follow_ups'', case s_follow_ups s of None \<Rightarrow> JNull | Some f \<Rightarrow> strings_json f),
           (''event_ids'', strings_json (s_event_ids s))]"

definition sql_insert_summary :: "string \<Rightarrow> string \<Rightarrow> string list \<Rightarrow> json \<Rightarrow> unit stmt" where
  "sql_insert_summary uid hash ids resp = update (\<lambda>s d.
     bindE (uuid_arg s uid) (\<lambda>u. bindE (text_arg s hash) (\<lambda>h. bindE (uuid_args s ids) (\<lambda>is.
     bindE (jsonb_arg s (Some resp)) (\<lambda>r.
       if \<exists>x\<in>set (ai_summaries d). sm_id x = se_uuid s then Inl (PgError ''23505'')
       else if \<not> user_exists d u then Inl (PgError ''23503'')
       else Inr ((), d\<lparr>ai_summaries := ai_summaries d @
              [\<lparr>sm_id = se_uuid s, sm_user_id = u, sm_request_hash = h, sm_event_ids = is,
                sm_response = r, sm_created_at = se_now s\<rparr>]\<rparr>))))))"

definition save_summary :: "string \<Rightarrow> string \<Rightarrow> string list \<Rightarrow> summary \<Rightarrow> (error + unit) io" where
  "save_summary uid hash ids s =
     bindW (stmt (sql_insert_summary uid hash ids (summary_json s)))
       (\<lambda>r. returnW (wrap_err ''save ai summary'' r))"

end
