(* ===== verification/Auth_Store.thy ===== *)
theory Auth_Store
  imports Events_Store
begin

text \<open>
  \<open>api/internal/auth/store.go\<close>: users and refresh tokens. \<open>ConsumeRefreshToken\<close> is one
  transaction: the row lock of its \<open>SELECT ... FOR UPDATE\<close> is held to the commit, so the
  transaction is one atomic step on the row; it can still be lost halfway, or the reply to its
  commit be lost.
\<close>

section \<open>Statements\<close>

definition new_user :: "sess \<Rightarrow> string \<Rightarrow> string \<Rightarrow> user_row" where
  "new_user s e h =
     \<lparr>u_id = se_uuid s, u_email = e, u_password_hash = h, u_created_at = se_now s, u_user_ref = None\<rparr>"

definition sql_insert_user :: "string \<Rightarrow> string \<Rightarrow> user_row stmt" where
  "sql_insert_user email hash = update (\<lambda>s d.
     bindE (text_arg s email) (\<lambda>e. bindE (text_arg s hash) (\<lambda>h.
       if (\<exists>u\<in>set (users d). u_id u = se_uuid s) \<or> (\<exists>u\<in>set (users d). u_email u = e)
       then Inl (PgError ''23505'')
       else Inr (new_user s e h, d\<lparr>users := users d @ [new_user s e h]\<rparr>))))"

definition sql_user_by_email :: "string \<Rightarrow> user_row stmt" where
  "sql_user_by_email email = query (\<lambda>s d.
     bindE (text_arg s email) (\<lambda>e. one_row (List.find (\<lambda>u. u_email u = e) (users d))))"

definition sql_user_by_id :: "string \<Rightarrow> user_row stmt" where
  "sql_user_by_id i = query (\<lambda>s d.
     bindE (uuid_arg s i) (\<lambda>i. one_row (List.find (\<lambda>u. u_id u = i) (users d))))"

definition new_refresh :: "sess \<Rightarrow> uuid \<Rightarrow> string \<Rightarrow> time \<Rightarrow> refresh_row" where
  "new_refresh s u h t =
     \<lparr>rt_id = se_uuid s, rt_user_id = u, rt_token_hash = h, rt_expires_at = t, rt_created_at = se_now s\<rparr>"

definition sql_insert_refresh :: "string \<Rightarrow> string \<Rightarrow> time \<Rightarrow> unit stmt" where
  "sql_insert_refresh uid hash expires = update (\<lambda>s d.
     bindE (uuid_arg s uid) (\<lambda>u. bindE (text_arg s hash) (\<lambda>h.
       if (\<exists>t\<in>set (refresh_tokens d). rt_id t = se_uuid s)
          \<or> (\<exists>t\<in>set (refresh_tokens d). rt_token_hash t = h)
       then Inl (PgError ''23505'')
       else if \<not> user_exists d u then Inl (PgError ''23503'')
       else Inr ((), d\<lparr>refresh_tokens := refresh_tokens d @ [new_refresh s u h expires]\<rparr>))))"

text \<open>The transaction: an unknown hash is \<open>ErrInvalidRefresh\<close>
  and changes nothing, an expired token is deleted and refused, a live one is deleted and
  its user returned.\<close>

definition tx_consume_refresh :: "string \<Rightarrow> (uuid option) stmt" where
  "tx_consume_refresh hash = update (\<lambda>s d.
     bindE (text_arg s hash) (\<lambda>h.
       case List.find (\<lambda>t. rt_token_hash t = h) (refresh_tokens d) of
         None \<Rightarrow> Inl ErrNoRows
       | Some t \<Rightarrow>
           Inr (if se_now s > rt_expires_at t then None else Some (rt_user_id t),
                d\<lparr>refresh_tokens := delete_where (\<lambda>t. rt_token_hash t = h) (refresh_tokens d)\<rparr>)))"

section \<open>Store methods\<close>

definition create_user :: "string \<Rightarrow> string \<Rightarrow> (error + user_row) io" where
  "create_user email hash =
     bindW (stmt (sql_insert_user email hash)) (\<lambda>r. returnW
       (case r of
          Inl e \<Rightarrow> if pg_code e = Some ''23505'' then Inl ErrEmailTaken else Inl (Wrap ''create user'' e)
        | Inr u \<Rightarrow> Inr u))"

definition user_by_email :: "string \<Rightarrow> (error + user_row) io" where
  "user_by_email email =
     bindW (stmt (sql_user_by_email email))
       (\<lambda>r. returnW (scan_err ErrUserNotFound ''user by email'' r))"

definition user_by_id :: "string \<Rightarrow> (error + user_row) io" where
  "user_by_id i =
     bindW (stmt (sql_user_by_id i)) (\<lambda>r. returnW (scan_err ErrUserNotFound ''user by id'' r))"

definition save_refresh_token :: "string \<Rightarrow> string \<Rightarrow> time \<Rightarrow> (error + unit) io" where
  "save_refresh_token uid hash expires =
     bindW (stmt (sql_insert_refresh uid hash expires))
       (\<lambda>r. returnW (wrap_err ''save refresh token'' r))"

text \<open>When the writes or the commit are lost, a refusal (unknown or expired) stands, since the
  code ignores the result of deleting an expired token; a live token is an error. A lost
  lookup and a lost \<open>Begin\<close> are the same lost connection here.\<close>

definition consume_lost :: "error + uuid option \<Rightarrow> error + uuid option" where
  "consume_lost r =
     (case r of Inl e \<Rightarrow> Inl e | Inr None \<Rightarrow> Inr None
      | Inr (Some u) \<Rightarrow> Inl (Wrap ''commit refresh consume'' ConnError))"

definition consume_error :: "error \<Rightarrow> error" where
  "consume_error e =
     (case e of
        Wrap m e' \<Rightarrow> e
      | ConnError \<Rightarrow> Wrap ''begin refresh consume'' e
      | _ \<Rightarrow> Wrap ''lookup refresh'' e)"

definition consume_refresh_token :: "string \<Rightarrow> (error + uuid) io" where
  "consume_refresh_token hash =
     bindW (transaction consume_lost (tx_consume_refresh hash)) (\<lambda>r. returnW
       (case r of
          Inl e \<Rightarrow> if errors_is e ErrNoRows then Inl ErrInvalidRefresh else Inl (consume_error e)
        | Inr None \<Rightarrow> Inl ErrInvalidRefresh
        | Inr (Some u) \<Rightarrow> Inr u))"

lemmas auth_store_defs = create_user_def user_by_email_def user_by_id_def
  save_refresh_token_def consume_refresh_token_def

lemma new_user_simps [simp]:
  "u_id (new_user s e h) = se_uuid s" "u_email (new_user s e h) = e"
  "u_password_hash (new_user s e h) = h" "u_user_ref (new_user s e h) = None"
  by (simp_all add: new_user_def)

lemma new_refresh_simps [simp]:
  "rt_id (new_refresh s u h t) = se_uuid s" "rt_user_id (new_refresh s u h t) = u"
  "rt_token_hash (new_refresh s u h t) = h" "rt_expires_at (new_refresh s u h t) = t"
  by (simp_all add: new_refresh_def)

end
