(* ===== verification/Contract.thy ===== *)
theory Contract
  imports Ai_Store Auth_Store
begin

text \<open>
  The interface between the store layer and everything above it. The locale \<open>db_contract\<close>
  fixes a preorder \<open>G\<close> on databases and assumes that every write statement the running server
  issues is a \<open>G\<close>-step (its worker claims with 5 attempts and a lease of 45 seconds); inside
  it, every store method the server calls keeps \<open>G\<close>, whatever the other sessions do (as long
  as they keep \<open>G\<close>) and whatever messages are lost. The handlers and the worker extend this in
  their own theories; the system's step relation interprets it. \<open>store_contract\<close> adds the
  store's remaining writes: claims with other limits, claims by id, and \<open>SetUserRef\<close>.
\<close>

locale db_contract = db_relation +
  assumes insert_user: "G d (snd (sql_insert_user e h s d))"
    and insert_refresh: "G d (snd (sql_insert_refresh u h t s d))"
    and consume_refresh: "G d (snd (tx_consume_refresh h s d))"
    and insert_event: "G d (snd (sql_insert_event u k ty p s d))"
    and claim_next_event: "G d (snd (sql_claim_next 5 45 s d))"
    and mark_event_processed: "G d (snd (sql_mark_processed i m s d))"
    and mark_event_failed: "G d (snd (sql_mark_failed i msg s d))"
    and insert_rule: "G d (snd (sql_insert_rule u nm ty thr en s d))"
    and update_rule: "G d (snd (sql_update_rule i u nm ty thr en s d))"
    and delete_rule: "G d (snd (sql_delete_rule i u s d))"
    and insert_summary: "G d (snd (sql_insert_summary u h ids r s d))"
begin

lemma keeps_create_user: "keeps G (create_user e h)"
  unfolding create_user_def by (intro keeps_rules keeps_stmt insert_user)

lemma keeps_save_refresh: "keeps G (save_refresh_token u h t)"
  unfolding save_refresh_token_def by (intro keeps_rules keeps_stmt insert_refresh)

lemma keeps_consume_refresh: "keeps G (consume_refresh_token h)"
  unfolding consume_refresh_token_def by (intro keeps_rules keeps_transaction consume_refresh)

lemma keeps_user_id_by_ref: "keeps G (user_id_by_ref r)"
  unfolding user_id_by_ref_def sql_user_by_ref_def by (intro keeps_rules)

lemma keeps_get_by_idempotency: "keeps G (get_by_idempotency u k)"
  unfolding get_by_idempotency_def sql_event_by_key_def by (intro keeps_rules)

lemma keeps_list_for_user: "keeps G (list_for_user u st)"
  unfolding list_for_user_def sql_list_events_def by (intro keeps_rules)

lemma keeps_get_for_user_ids: "keeps G (get_for_user_ids u ids)"
  unfolding get_for_user_ids_def sql_events_by_ids_def by (intro keeps_rules)

lemma keeps_get_for_user: "keeps G (get_for_user u i)"
  unfolding get_for_user_def sql_event_for_user_def by (intro keeps_rules)

lemma keeps_get_by_id: "keeps G (get_by_id i)"
  unfolding get_by_id_def sql_event_by_id_def by (intro keeps_rules)

lemma keeps_get_queue_stats: "keeps G (get_queue_stats)"
  unfolding get_queue_stats_def sql_status_counts_def sql_oldest_pending_def by (intro keeps_rules)

lemma keeps_names_by_ids: "keeps G (names_by_ids ids)"
  unfolding names_by_ids_def sql_rule_names_def by (intro keeps_rules)

lemma keeps_enabled_by_user_and_type: "keeps G (enabled_by_user_and_type u ty)"
  unfolding enabled_by_user_and_type_def sql_enabled_rules_def by (intro keeps_rules)

lemma keeps_list_rules_by_user: "keeps G (list_rules_by_user u)"
  unfolding list_rules_by_user_def sql_list_rules_def by (intro keeps_rules)

lemma keeps_get_rule_for_user: "keeps G (get_rule_for_user u i)"
  unfolding get_rule_for_user_def sql_rule_for_user_def by (intro keeps_rules)

lemma keeps_user_by_email: "keeps G (user_by_email e)"
  unfolding user_by_email_def sql_user_by_email_def by (intro keeps_rules)

lemma keeps_user_by_id: "keeps G (user_by_id i)"
  unfolding user_by_id_def sql_user_by_id_def by (intro keeps_rules)

lemma keeps_create_pending: "keeps G (create_pending inp)"
  unfolding create_pending_def by (intro keeps_get_by_idempotency keeps_rules keeps_stmt insert_event keeps_Let)

lemma keeps_mark_processed: "keeps G (mark_processed i m)"
  unfolding mark_processed_def by (intro keeps_rules keeps_stmt mark_event_processed keeps_Let)

lemma keeps_mark_attempt_failed: "keeps G (mark_attempt_failed i m)"
  unfolding mark_attempt_failed_def by (intro keeps_rules keeps_stmt mark_event_failed keeps_Let)

lemma keeps_create_rule: "keeps G (create_rule u inp)"
  unfolding create_rule_def by (intro keeps_rules keeps_stmt insert_rule keeps_Let)

lemma keeps_update_rule_for_user: "keeps G (update_rule_for_user u i inp)"
  unfolding update_rule_for_user_def by (intro keeps_get_rule_for_user keeps_rules keeps_stmt update_rule keeps_Let)

lemma keeps_delete_rule_for_user: "keeps G (delete_rule_for_user u i)"
  unfolding delete_rule_for_user_def by (intro keeps_rules keeps_stmt delete_rule keeps_Let)

lemma keeps_save_summary: "keeps G (save_summary u h ids x)"
  unfolding save_summary_def by (intro keeps_rules keeps_stmt insert_summary keeps_Let)

lemma keeps_claim_next: "keeps G (claim_next 5)"
  unfolding claim_next_eq by (intro keeps_rules keeps_stmt claim_next_event)

lemmas keeps_store = keeps_create_user keeps_save_refresh keeps_consume_refresh
  keeps_user_id_by_ref keeps_get_by_idempotency keeps_list_for_user keeps_get_for_user_ids
  keeps_get_for_user keeps_get_by_id keeps_get_queue_stats keeps_names_by_ids
  keeps_enabled_by_user_and_type keeps_list_rules_by_user keeps_get_rule_for_user
  keeps_user_by_email keeps_user_by_id keeps_create_pending
  keeps_mark_processed keeps_mark_attempt_failed keeps_create_rule
  keeps_update_rule_for_user keeps_delete_rule_for_user keeps_save_summary keeps_claim_next

end

locale store_contract = db_contract +
  assumes set_ref: "G d (snd (sql_set_user_ref u ref s d))"
    and claim_any_event: "G d (snd (sql_claim_next n l s d))"
    and claim_event_by_id: "G d (snd (sql_claim_by_id i s d))"
begin

lemma keeps_set_user_ref: "keeps G (set_user_ref u ref)"
  unfolding set_user_ref_def by (intro keeps_rules keeps_stmt set_ref)

lemma keeps_claim_next_with_lease: "keeps G (claim_next_with_lease n l)"
  unfolding claim_next_with_lease_def by (intro keeps_rules keeps_stmt claim_any_event keeps_Let)

lemma keeps_claim_by_id: "keeps G (claim_by_id i)"
  unfolding claim_by_id_def by (intro keeps_rules keeps_stmt claim_event_by_id)

end

end
