(* ===== verification/Worker_Stats.thy ===== *)
theory Worker_Stats
  imports Db "HOL-Library.Word"
begin

text \<open>
  \<open>api/internal/worker/stats.go\<close>: the worker's counters. Every method holds the mutex from
  its first line to its return, so each is one atomic step on the record. The counters are
  Go \<open>int64\<close>; \<open>None\<close> is the zero \<open>time.Time\<close>.
\<close>

record stats =
  st_last_tick :: "time option"
  st_processed_total :: "64 word"
  st_error_total :: "64 word"

record snapshot =
  sn_last_tick :: "time option"
  sn_processed_total :: "64 word"
  sn_error_total :: "64 word"

definition new_stats :: stats where
  "new_stats = \<lparr>st_last_tick = None, st_processed_total = 0, st_error_total = 0\<rparr>"

definition mark_tick :: "time \<Rightarrow> stats \<Rightarrow> stats" where
  "mark_tick now st = st\<lparr>st_last_tick := Some now\<rparr>"

definition inc_processed :: "stats \<Rightarrow> stats" where
  "inc_processed st = st\<lparr>st_processed_total := st_processed_total st + 1\<rparr>"

definition inc_error :: "stats \<Rightarrow> stats" where
  "inc_error st = st\<lparr>st_error_total := st_error_total st + 1\<rparr>"

definition take_snapshot :: "stats \<Rightarrow> snapshot" where
  "take_snapshot st =
     \<lparr>sn_last_tick = st_last_tick st, sn_processed_total = st_processed_total st,
      sn_error_total = st_error_total st\<rparr>"

text \<open>The counters commute and count: after \<open>n\<close> increments the total is \<open>n\<close> modulo \<open>2 ^ 64\<close>.\<close>

lemma inc_commute: "inc_processed (inc_error st) = inc_error (inc_processed st)"
  by (simp add: inc_processed_def inc_error_def)

lemma inc_processed_iter:
  "st_processed_total ((inc_processed ^^ n) st) = st_processed_total st + of_nat n"
  by (induction n) (simp_all add: inc_processed_def algebra_simps)

end
