(* ===== verification/Http.thy ===== *)
theory Http
  imports Contract Worker_Stats
begin

text \<open>
  \<open>api/internal/httpapi\<close>: responses, the error body, and the health endpoint. A response is a
  status code and the Go value that \<open>WriteJSON\<close> encodes; \<open>Wire\<close> has the bytes it writes. A request carries what the handlers read of it; a missing header or query
  parameter is the empty string, as \<open>Header.Get\<close> and \<open>Query().Get\<close> return it.
\<close>

record request =
  rq_authorization :: string
  rq_signature :: string
  rq_body :: string
  rq_body_fails :: bool
  rq_path_id :: string
  rq_status :: string

text \<open>\<open>auth.UserContext\<close>: what the middleware puts into the request context.\<close>

record user_ctx =
  uc_id :: string
  uc_email :: string

record token_response =
  tr_access_token :: string
  tr_refresh_token :: string
  tr_expires_in :: int

record me_response =
  me_id :: string
  me_email :: string

record simulate_response =
  sr_events :: "event list"
  sr_demo_rule_id :: "string option"
  sr_demo_rule_created :: bool
  sr_hint :: string

datatype body =
    NoBody
  | ErrorBody (eb_code: string) (eb_message: string)
  | EventBody event
  | EventsBody "event list"
  | RuleBody rule
  | RulesBody "rule list"
  | TokensBody token_response
  | MeBody me_response
  | SimulateBody simulate_response
  | SummaryBody summary
  | HealthBody "snapshot option" "queue_stats option"
  | UnavailableBody "string option"
  | TextBody string

record response =
  rs_status :: int
  rs_body :: body

definition write_json :: "int \<Rightarrow> body \<Rightarrow> response" where
  "write_json st b = \<lparr>rs_status = st, rs_body = b\<rparr>"

definition write_error :: "int \<Rightarrow> string \<Rightarrow> string \<Rightarrow> response" where
  "write_error st code msg = write_json st (ErrorBody code msg)"

lemma write_json_simps [simp]:
  "rs_status (write_json st b) = st" "rs_body (write_json st b) = b"
  by (simp_all add: write_json_def)

lemma write_error_simps [simp]:
  "rs_status (write_error st c m) = st" "rs_body (write_error st c m) = ErrorBody c m"
  by (simp_all add: write_error_def)

text \<open>The first value of the body, \<open>json.NewDecoder(r.Body)\<close>. If reading ends with an error instead of the
  end of the body, an object or array that is complete by then is taken all the same; any other value needs
  the next byte to be complete, and without a value the error is the read error (here \<open>Malformed\<close>, which
  stands for every error but \<open>io.EOF\<close>).\<close>

definition ends_itself :: "json \<Rightarrow> bool" where
  "ends_itself v = (case v of JArr _ \<Rightarrow> True | JObj _ \<Rightarrow> True | _ \<Rightarrow> False)"

definition body_value :: "request \<Rightarrow> decode_error + json" where
  "body_value rq =
     (if \<not> rq_body_fails rq then json_decode (rq_body rq)
      else case parse_val max_nesting (rq_body rq) of
             None \<Rightarrow> Inl Malformed
           | Some (v, rest) \<Rightarrow> if ends_itself v \<or> rest \<noteq> [] then Inr v else Inl Malformed)"

text \<open>\<open>Decode(&req)\<close>: \<open>None\<close> is any error.\<close>

definition decode_body :: "(json \<Rightarrow> 'a option) \<Rightarrow> request \<Rightarrow> 'a option" where
  "decode_body dec rq = (case body_value rq of Inl _ \<Rightarrow> None | Inr v \<Rightarrow> dec v)"

lemma body_value_unmarshal:
  "\<not> rq_body_fails rq \<Longrightarrow> json_unmarshal (rq_body rq) = Some v \<Longrightarrow> body_value rq = Inr v"
  by (simp add: body_value_def json_unmarshal_decode)

text \<open>The ping is a statement without effect; the two snapshots are optional callbacks.\<close>

definition sql_ping :: "unit stmt" where
  "sql_ping = query (\<lambda>s d. Inr ())"

definition health :: "snapshot option \<Rightarrow> (error + queue_stats) io option \<Rightarrow> response io" where
  "health worker queue =
     bindW (stmt sql_ping) (\<lambda>r.
       case r of
         Inl e \<Rightarrow> returnW (write_json 503 (UnavailableBody None))
       | Inr _ \<Rightarrow>
           (case queue of
              None \<Rightarrow> returnW (write_json 200 (HealthBody worker None))
            | Some q \<Rightarrow>
                bindW q (\<lambda>r'. returnW
                  (case r' of
                     Inl e \<Rightarrow> write_json 503 (UnavailableBody (Some ''queue_stats_failed''))
                   | Inr qs \<Rightarrow> write_json 200 (HealthBody worker (Some qs))))))"

end
