(* ===== verification/Events_Handler.thy ===== *)
theory Events_Handler
  imports Http
begin

text \<open>\<open>api/internal/events/handler.go\<close>: listing and reading the caller's events.\<close>

definition events_list :: "user_ctx option \<Rightarrow> request \<Rightarrow> response io" where
  "events_list ctx rq =
     (case ctx of
        None \<Rightarrow> returnW (write_error 401 ''unauthorized'' ''missing auth'')
      | Some user \<Rightarrow>
          bindW (list_for_user (uc_id user) (rq_status rq)) (\<lambda>r. returnW
            (case r of
               Inl e \<Rightarrow> write_error 500 ''internal_error'' ''could not list events''
             | Inr items \<Rightarrow> write_json 200 (EventsBody items))))"

definition events_get :: "user_ctx option \<Rightarrow> request \<Rightarrow> response io" where
  "events_get ctx rq =
     (case ctx of
        None \<Rightarrow> returnW (write_error 401 ''unauthorized'' ''missing auth'')
      | Some user \<Rightarrow>
          bindW (get_for_user (uc_id user) (rq_path_id rq)) (\<lambda>r. returnW
            (case r of
               Inl e \<Rightarrow>
                 if errors_is e ErrEventNotFound
                 then write_error 404 ''not_found'' ''event not found''
                 else write_error 500 ''internal_error'' ''could not get event''
             | Inr ev \<Rightarrow> write_json 200 (EventBody ev))))"

text \<open>Whatever interleaves, both handlers show a user only events the database held under
  that user's id when the query ran.\<close>

lemma list_for_user_own:
  assumes "list_for_user uid st w = (Inr evs, w')" "ev \<in> set evs"
  shows "\<exists>u. pg_uuid_in (w_pg w) uid = Some u \<and> ev_user_id ev = u \<and>
    (\<exists>r\<in>set (events (w_db w')). ev = scan_event r) \<and> (st = [] \<or> status_text (ev_status ev) = st)"
proof -
  obtain w1 where "stmt (sql_list_events uid (if st = [] then None else Some st)) w = (Inr evs, w1)"
      "w' = w1"
    using assms(1) by (auto simp: list_for_user_def bindW_def split: prod.splits)
  from stmt_InrD [OF this(1)] this(2) assms(2) show ?thesis
    by (auto simp: sql_list_events_def query_def bindE_Inr_iff uuid_arg_def text_arg_def
        dest!: in_set_takeD split: option.splits if_splits) blast+
qed

lemma get_for_user_own:
  assumes "get_for_user uid i w = (Inr ev, w')"
  shows "\<exists>u j. pg_uuid_in (w_pg w) uid = Some u \<and> pg_uuid_in (w_pg w) i = Some j \<and>
    ev_user_id ev = u \<and> ev_id ev = j \<and> (\<exists>r\<in>set (events (w_db w')). ev = scan_event r)"
proof -
  obtain w1 where "stmt (sql_event_for_user i uid) w = (Inr ev, w1)" "w' = w1"
    using assms by (auto simp: get_for_user_def bindW_def split: prod.splits)
  from stmt_InrD [OF this(1)] this(2) show ?thesis
    by (auto simp: sql_event_for_user_def query_def bindE_Inr_iff uuid_arg_def
        dest!: find_Some_mem split: option.splits)
qed

context db_contract
begin

lemma keeps_events_list: "keeps G (events_list ctx rq)"
  unfolding events_list_def by (intro keeps_rules keeps_store)

lemma keeps_events_get: "keeps G (events_get ctx rq)"
  unfolding events_get_def by (intro keeps_rules keeps_store)

end

end
