(* ===== verification/Rules_Handler.thy ===== *)
theory Rules_Handler
  imports Http
begin

text \<open>
  \<open>api/internal/rules/validate.go\<close> and \<open>handler.go\<close>: validation of rule fields, the request
  bodies with their three-valued threshold, and the five handlers.
\<close>

section \<open>Validation\<close>

definition allowed_event_types :: "string list" where
  "allowed_event_types =
     [''tx_simulated'', ''balance_drop'', ''partner_kyc'', ''swap_quote'', ''custom'']"

definition max_name_len :: nat where
  "max_name_len = 80"

text \<open>\<open>None\<close> is a nil error, \<open>Some\<close> the message.\<close>

definition validate_name :: "string \<Rightarrow> string option" where
  "validate_name name =
     (let name' = trim_space name in
      if name' = [] then Some ''name is required''
      else if length name' > max_name_len
      then Some (''name must be at most '' @ show_nat max_name_len @ '' characters'')
      else None)"

definition validate_event_type :: "string \<Rightarrow> string option" where
  "validate_event_type t =
     (if t \<in> set allowed_event_types then None
      else Some ''event_type must be one of tx_simulated, balance_drop, partner_kyc, swap_quote, custom'')"

section \<open>Request bodies\<close>

record create_request =
  cr_name :: string
  cr_event_type :: string
  cr_threshold :: "float64 option"
  cr_enabled :: "bool option"

definition decode_create_request :: "json \<Rightarrow> create_request option" where
  "decode_create_request v =
     Option.bind (dec_struct v) (\<lambda>ms.
     Option.bind (dec_field ''name'' dec_string ms []) (\<lambda>n.
     Option.bind (dec_field ''event_type'' dec_string ms []) (\<lambda>t.
     Option.bind (dec_field ''threshold'' (dec_ptr 0 dec_float) ms None) (\<lambda>thr.
     Option.bind (dec_field ''enabled'' (dec_ptr False dec_bool) ms None) (\<lambda>en.
       Some \<lparr>cr_name = n, cr_event_type = t, cr_threshold = thr, cr_enabled = en\<rparr>)))))"

text \<open>\<open>optionalFloat64\<close> with its \<open>UnmarshalJSON\<close>: an omitted member leaves \<open>set\<close> false.\<close>

record optional_float =
  of_set :: bool
  of_null :: bool
  of_value :: "float64 option"

definition dec_optional_float :: "optional_float decoder" where
  "dec_optional_float v old =
     (case v of
        JNull \<Rightarrow> Some (old\<lparr>of_set := True, of_null := True, of_value := None\<rparr>)
      | _ \<Rightarrow> map_option (\<lambda>f. old\<lparr>of_set := True, of_value := Some f\<rparr>) (dec_float v 0))"

record patch_request =
  pr_name :: "string option"
  pr_event_type :: "string option"
  pr_threshold :: optional_float
  pr_enabled :: "bool option"

definition decode_patch_request :: "json \<Rightarrow> patch_request option" where
  "decode_patch_request v =
     Option.bind (dec_struct v) (\<lambda>ms.
     Option.bind (dec_field ''name'' (dec_ptr [] dec_string) ms None) (\<lambda>n.
     Option.bind (dec_field ''event_type'' (dec_ptr [] dec_string) ms None) (\<lambda>t.
     Option.bind (dec_field ''threshold'' dec_optional_float ms
        \<lparr>of_set = False, of_null = False, of_value = None\<rparr>) (\<lambda>thr.
     Option.bind (dec_field ''enabled'' (dec_ptr False dec_bool) ms None) (\<lambda>en.
       Some \<lparr>pr_name = n, pr_event_type = t, pr_threshold = thr, pr_enabled = en\<rparr>)))))"

section \<open>Handlers\<close>

definition rules_create :: "user_ctx option \<Rightarrow> request \<Rightarrow> response io" where
  "rules_create ctx rq =
     (case ctx of
        None \<Rightarrow> returnW (write_error 401 ''unauthorized'' ''missing auth'')
      | Some user \<Rightarrow>
          (case decode_body decode_create_request rq of
             None \<Rightarrow> returnW (write_error 400 ''bad_request'' ''invalid json'')
           | Some req \<Rightarrow>
               (let name = trim_space (cr_name req); typ = trim_space (cr_event_type req) in
                case validate_name name of
                  Some msg \<Rightarrow> returnW (write_error 400 ''validation_error'' msg)
                | None \<Rightarrow>
                    (case validate_event_type typ of
                       Some msg \<Rightarrow> returnW (write_error 400 ''validation_error'' msg)
                     | None \<Rightarrow>
                         bindW (create_rule (uc_id user)
                                  \<lparr>ri_name = name, ri_event_type = typ, ri_threshold = cr_threshold req,
                                   ri_enabled = or_else (cr_enabled req) True\<rparr>) (\<lambda>r. returnW
                           (case r of
                              Inl e \<Rightarrow> write_error 500 ''internal_error'' ''could not create rule''
                            | Inr rule \<Rightarrow> write_json 201 (RuleBody rule)))))))"

definition rules_list :: "user_ctx option \<Rightarrow> request \<Rightarrow> response io" where
  "rules_list ctx rq =
     (case ctx of
        None \<Rightarrow> returnW (write_error 401 ''unauthorized'' ''missing auth'')
      | Some user \<Rightarrow>
          bindW (list_rules_by_user (uc_id user)) (\<lambda>r. returnW
            (case r of
               Inl e \<Rightarrow> write_error 500 ''internal_error'' ''could not list rules''
             | Inr items \<Rightarrow> write_json 200 (RulesBody items))))"

definition rules_get :: "user_ctx option \<Rightarrow> request \<Rightarrow> response io" where
  "rules_get ctx rq =
     (case ctx of
        None \<Rightarrow> returnW (write_error 401 ''unauthorized'' ''missing auth'')
      | Some user \<Rightarrow>
          bindW (get_rule_for_user (uc_id user) (rq_path_id rq)) (\<lambda>r. returnW
            (case r of
               Inl e \<Rightarrow>
                 if errors_is e ErrRuleNotFound
                 then write_error 404 ''not_found'' ''alert rule not found''
                 else write_error 500 ''internal_error'' ''could not get rule''
             | Inr rule \<Rightarrow> write_json 200 (RuleBody rule))))"

text \<open>A present field is trimmed and validated; \<open>Inl\<close> is the message of the 400.\<close>

definition patch_field :: "(string \<Rightarrow> string option) \<Rightarrow> string option \<Rightarrow> string + string option" where
  "patch_field validate p =
     (case p of None \<Rightarrow> Inr None
      | Some t \<Rightarrow>
          (case validate (trim_space t) of
             Some msg \<Rightarrow> Inl msg
           | None \<Rightarrow> Inr (Some (trim_space t))))"

definition patch_threshold :: "optional_float \<Rightarrow> float64 option option" where
  "patch_threshold t =
     (if of_set t then Some (if of_null t then None else of_value t) else None)"

definition rules_patch :: "user_ctx option \<Rightarrow> request \<Rightarrow> response io" where
  "rules_patch ctx rq =
     (case ctx of
        None \<Rightarrow> returnW (write_error 401 ''unauthorized'' ''missing auth'')
      | Some user \<Rightarrow>
          (case decode_body decode_patch_request rq of
             None \<Rightarrow> returnW (write_error 400 ''bad_request'' ''invalid json'')
           | Some req \<Rightarrow>
               (case patch_field validate_name (pr_name req) of
                  Inl msg \<Rightarrow> returnW (write_error 400 ''validation_error'' msg)
                | Inr name \<Rightarrow>
                    (case patch_field validate_event_type (pr_event_type req) of
                       Inl msg \<Rightarrow> returnW (write_error 400 ''validation_error'' msg)
                     | Inr typ \<Rightarrow>
                         bindW (update_rule_for_user (uc_id user) (rq_path_id rq)
                                  \<lparr>ru_name = name, ru_event_type = typ,
                                   ru_threshold = patch_threshold (pr_threshold req),
                                   ru_enabled = pr_enabled req\<rparr>) (\<lambda>r. returnW
                           (case r of
                              Inl e \<Rightarrow>
                                if errors_is e ErrRuleNotFound
                                then write_error 404 ''not_found'' ''alert rule not found''
                                else write_error 500 ''internal_error'' ''could not update rule''
                            | Inr rule \<Rightarrow> write_json 200 (RuleBody rule)))))))"

definition rules_delete :: "user_ctx option \<Rightarrow> request \<Rightarrow> response io" where
  "rules_delete ctx rq =
     (case ctx of
        None \<Rightarrow> returnW (write_error 401 ''unauthorized'' ''missing auth'')
      | Some user \<Rightarrow>
          bindW (delete_rule_for_user (uc_id user) (rq_path_id rq)) (\<lambda>r. returnW
            (case r of
               Inl e \<Rightarrow>
                 if errors_is e ErrRuleNotFound
                 then write_error 404 ''not_found'' ''alert rule not found''
                 else write_error 500 ''internal_error'' ''could not delete rule''
             | Inr _ \<Rightarrow> write_json 204 NoBody)))"

context db_contract
begin

lemma keeps_rules_create: "keeps G (rules_create ctx rq)"
  unfolding rules_create_def Let_def by (intro keeps_rules keeps_store)

lemma keeps_rules_list: "keeps G (rules_list ctx rq)"
  unfolding rules_list_def by (intro keeps_rules keeps_store)

lemma keeps_rules_get: "keeps G (rules_get ctx rq)"
  unfolding rules_get_def by (intro keeps_rules keeps_store)

lemma keeps_rules_patch: "keeps G (rules_patch ctx rq)"
  unfolding rules_patch_def by (intro keeps_rules keeps_store)

lemma keeps_rules_delete: "keeps G (rules_delete ctx rq)"
  unfolding rules_delete_def by (intro keeps_rules keeps_store)

end

end
