(* ===== verification/Sha256.thy ===== *)
theory Sha256
  imports GoStrings "HOL-Library.Word"
begin

text \<open>
  Go's \<open>crypto/sha256\<close> and \<open>crypto/hmac\<close> on byte strings, as FIPS 180-4 and RFC 2104
  specify them: the webhook signature, the refresh-token hash and the summary request hash
  are computed with these definitions, on 32-bit words with wrap-around addition.
\<close>

unbundle bit_operations_syntax

type_synonym u32 = "32 word"

section \<open>SHA-256\<close>

text \<open>The round constants, the fractions of the cube roots of the first 64 primes, in decimal.\<close>

definition sha_k :: "u32 list" where
  "sha_k =
   [1116352408, 1899447441, 3049323471, 3921009573, 961987163, 1508970993,
    2453635748, 2870763221, 3624381080, 310598401, 607225278, 1426881987,
    1925078388, 2162078206, 2614888103, 3248222580, 3835390401, 4022224774,
    264347078, 604807628, 770255983, 1249150122, 1555081692, 1996064986,
    2554220882, 2821834349, 2952996808, 3210313671, 3336571891, 3584528711,
    113926993, 338241895, 666307205, 773529912, 1294757372, 1396182291,
    1695183700, 1986661051, 2177026350, 2456956037, 2730485921, 2820302411,
    3259730800, 3345764771, 3516065817, 3600352804, 4094571909, 275423344,
    430227734, 506948616, 659060556, 883997877, 958139571, 1322822218,
    1537002063, 1747873779, 1955562222, 2024104815, 2227730452, 2361852424,
    2428436474, 2756734187, 3204031479, 3329325298]"

datatype sha_state = Sha (sa: u32) (sb: u32) (sc: u32) (sd: u32) (se: u32) (sf: u32) (sg: u32) (sh: u32)

definition sha_init :: sha_state where
  "sha_init = Sha 0x6a09e667 0xbb67ae85 0x3c6ef372 0xa54ff53a 0x510e527f 0x9b05688c 0x1f83d9ab 0x5be0cd19"

definition rotr32 :: "nat \<Rightarrow> u32 \<Rightarrow> u32" where
  "rotr32 n x = drop_bit n x OR push_bit (32 - n) x"

definition sha_round :: "u32 \<times> u32 \<Rightarrow> sha_state \<Rightarrow> sha_state" where
  "sha_round kw st =
     (case st of Sha a b c d e f g h \<Rightarrow>
       (let t1 = h + (rotr32 6 e XOR rotr32 11 e XOR rotr32 25 e)
                   + ((e AND f) XOR (NOT e AND g)) + fst kw + snd kw;
            t2 = (rotr32 2 a XOR rotr32 13 a XOR rotr32 22 a)
                   + ((a AND b) XOR (a AND c) XOR (b AND c))
        in Sha (t1 + t2) a b c (d + t1) e f g))"

text \<open>The message schedule, most recent word first.\<close>

fun sha_expand :: "nat \<Rightarrow> u32 list \<Rightarrow> u32 list" where
  "sha_expand 0 ws = ws"
| "sha_expand (Suc n) ws =
     (let w2 = ws ! 1; w15 = ws ! 14;
          s1 = rotr32 17 w2 XOR rotr32 19 w2 XOR drop_bit 10 w2;
          s0 = rotr32 7 w15 XOR rotr32 18 w15 XOR drop_bit 3 w15
      in sha_expand n ((s1 + ws ! 6 + s0 + ws ! 15) # ws))"

definition sha_block :: "sha_state \<Rightarrow> u32 list \<Rightarrow> sha_state" where
  "sha_block st ws =
     (case (st, fold sha_round (zip sha_k (rev (sha_expand 48 (rev ws)))) st) of
        (Sha a b c d e f g h, Sha a' b' c' d' e' f' g' h') \<Rightarrow>
          Sha (a + a') (b + b') (c + c') (d + d') (e + e') (f + f') (g + g') (h + h'))"

fun words_of :: "string \<Rightarrow> u32 list" where
  "words_of (a # b # c # d # cs) =
     (push_bit 24 (of_char a) OR push_bit 16 (of_char b) OR push_bit 8 (of_char c) OR of_char d)
       # words_of cs"
| "words_of _ = []"

definition be_bytes :: "nat \<Rightarrow> int \<Rightarrow> string" where
  "be_bytes n v = map (\<lambda>i. char_of (v div 256 ^ (n - 1 - i))) [0..<n]"

definition sha_pad :: "string \<Rightarrow> string" where
  "sha_pad s =
     (let n = length s in
      s @ CHR 0x80 # replicate ((119 - n mod 64) mod 64) (CHR 0x00) @ be_bytes 8 (8 * int n))"

function sha_blocks :: "sha_state \<Rightarrow> u32 list \<Rightarrow> sha_state" where
  "sha_blocks st ws =
     (if length ws < 16 then st else sha_blocks (sha_block st (take 16 ws)) (drop 16 ws))"
  by pat_completeness auto
termination by (relation "measure (\<lambda>(st, ws). length ws)") auto

declare sha_blocks.simps [simp del]

definition sha_bytes :: "sha_state \<Rightarrow> string" where
  "sha_bytes st =
     (case st of Sha a b c d e f g h \<Rightarrow>
        concat (map (\<lambda>w. be_bytes 4 (uint w)) [a, b, c, d, e, f, g, h]))"

definition sha256 :: "string \<Rightarrow> string" where
  "sha256 s = sha_bytes (sha_blocks sha_init (words_of (sha_pad s)))"

lemma length_be_bytes [simp]: "length (be_bytes n v) = n"
  by (simp add: be_bytes_def)

lemma length_sha256 [simp]: "length (sha256 s) = 32"
  by (simp add: sha256_def sha_bytes_def split: sha_state.split)

text \<open>The padded message is a whole number of 64-byte blocks, for every length.\<close>

lemma pad_mod: "(n + (1 + ((119 - n mod 64) mod 64 + 8))) mod 64 = (0::nat)"
proof -
  define r where "r = n mod 64"
  define q where "q = n div 64"
  have r: "r < 64" and n: "n = 64 * q + r" by (simp_all add: r_def q_def)
  have "n + (1 + ((119 - r) mod 64 + 8)) = 64 * (if r < 56 then q + 1 else q + 2)"
  proof (cases "r < 56")
    case True
    then have "(119 - r) mod 64 = 55 - r" by (simp add: mod_if)
    with True n show ?thesis by simp
  next
    case False
    with r have "(119 - r) mod 64 = 119 - r" by simp
    with False r n show ?thesis by simp
  qed
  then show ?thesis by (simp add: r_def)
qed

lemma length_sha_pad: "length (sha_pad s) mod 64 = 0"
  using pad_mod [of "length s"] by (simp add: sha_pad_def Let_def)

lemma length_words_of: "length (words_of s) = length s div 4"
  by (induction s rule: words_of.induct) auto

lemma sha_pad_blocks: "16 dvd length (words_of (sha_pad s))"
proof -
  obtain k where "length (sha_pad s) = 64 * k"
    using length_sha_pad [of s] by (meson dvdE mod_eq_0_iff_dvd)
  then show ?thesis by (simp add: length_words_of)
qed

section \<open>HMAC\<close>

definition hmac_key :: "string \<Rightarrow> string" where
  "hmac_key key =
     (let k = (if length key > 64 then sha256 key else key)
      in k @ replicate (64 - length k) (CHR 0x00))"

definition xor_byte :: "nat \<Rightarrow> char \<Rightarrow> char" where
  "xor_byte m c = char_of (byte_of c XOR m)"

definition hmac_sha256 :: "string \<Rightarrow> string \<Rightarrow> string" where
  "hmac_sha256 key msg =
     sha256 (map (xor_byte 0x5c) (hmac_key key)
             @ sha256 (map (xor_byte 0x36) (hmac_key key) @ msg))"

lemma length_hmac_sha256 [simp]: "length (hmac_sha256 key msg) = 32"
  by (simp add: hmac_sha256_def)

lemma length_hmac_key [simp]: "length (hmac_key key) = 64"
  by (simp add: hmac_key_def Let_def)

end
