(* ===== verification/Webhook.thy ===== *)
theory Webhook
  imports Http Sha256
begin

text \<open>
  \<open>api/internal/webhook\<close>: the signature check of \<open>hmac.go\<close> and the ingest endpoint of
  \<open>handler.go\<close>.
\<close>

section \<open>Signatures\<close>

definition sig_prefix :: string where
  "sig_prefix = ''sha256=''"

text \<open>\<open>hmac.Equal\<close> is equality of the byte strings.\<close>

definition valid_signature :: "string \<Rightarrow> string \<Rightarrow> string \<Rightarrow> bool" where
  "valid_signature secret msg header =
     (let header' = trim_space header in
      if \<not> has_prefix header' sig_prefix then False
      else case hex_decode (trim_prefix header' sig_prefix) of
             None \<Rightarrow> False
           | Some got \<Rightarrow>
               if length got \<noteq> 32 then False
               else hmac_sha256 secret msg = got)"

definition sign_body :: "string \<Rightarrow> string \<Rightarrow> string" where
  "sign_body secret msg = sig_prefix @ hex_encode (hmac_sha256 secret msg)"

section \<open>Ingest\<close>

record ingest_request =
  ig_idempotency_key :: string
  ig_type :: string
  ig_user_ref :: string
  ig_payload :: "json option"

text \<open>
  \<open>occurred_at\<close> is decoded into a \<open>*time.Time\<close> and never read: all that matters is whether
  its text is a time Go accepts, which the argument \<open>time_ok\<close> says.
\<close>

definition dec_time :: "(string \<Rightarrow> bool) \<Rightarrow> unit option decoder" where
  "dec_time time_ok v old =
     (case v of JNull \<Rightarrow> Some None
      | JStr t \<Rightarrow> if time_ok t then Some (Some ()) else None
      | _ \<Rightarrow> None)"

definition decode_ingest_request :: "(string \<Rightarrow> bool) \<Rightarrow> json \<Rightarrow> ingest_request option" where
  "decode_ingest_request time_ok v =
     Option.bind (dec_struct v) (\<lambda>ms.
     Option.bind (dec_field ''idempotency_key'' dec_string ms []) (\<lambda>k.
     Option.bind (dec_field ''type'' dec_string ms []) (\<lambda>t.
     Option.bind (dec_field ''user_ref'' dec_string ms []) (\<lambda>u.
     Option.bind (dec_field ''payload'' dec_raw ms None) (\<lambda>p.
     Option.bind (dec_field ''occurred_at'' (dec_time time_ok) ms None) (\<lambda>_.
       Some \<lparr>ig_idempotency_key = k, ig_type = t, ig_user_ref = u, ig_payload = p\<rparr>))))))"

definition max_body :: nat where
  "max_body = 2 ^ 20"

text \<open>\<open>io.ReadAll(io.LimitReader(r.Body, 1<<20))\<close>: a body that fails to read is an error
  unless the limit was reached first.\<close>

definition read_limited :: "request \<Rightarrow> string option" where
  "read_limited rq =
     (if rq_body_fails rq \<and> length (rq_body rq) < max_body then None
      else Some (take max_body (rq_body rq)))"

text \<open>\<open>json.RawMessage("{}")\<close> when the payload is missing.\<close>

definition ingest :: "string \<Rightarrow> (string \<Rightarrow> bool) \<Rightarrow> request \<Rightarrow> response io" where
  "ingest secret time_ok rq =
     (case read_limited rq of
        None \<Rightarrow> returnW (write_error 400 ''bad_request'' ''could not read body'')
      | Some body \<Rightarrow>
          if \<not> valid_signature secret body (rq_signature rq)
          then returnW (write_error 401 ''invalid_signature'' ''webhook signature invalid'')
          else
            (case Option.bind (json_unmarshal body) (decode_ingest_request time_ok) of
               None \<Rightarrow> returnW (write_error 400 ''bad_request'' ''invalid json'')
             | Some req \<Rightarrow>
                 (let key = trim_space (ig_idempotency_key req);
                      typ = trim_space (ig_type req);
                      ref = trim_space (ig_user_ref req)
                  in
                    if key = [] \<or> typ = [] \<or> ref = []
                    then returnW (write_error 400 ''validation_error''
                                   ''idempotency_key, type, and user_ref required'')
                    else
                      bindW (user_id_by_ref ref) (\<lambda>r.
                        case r of
                          Inl e \<Rightarrow> returnW
                            (if errors_is e ErrUnknownUserRef
                             then write_error 404 ''unknown_user_ref'' ''user_ref not mapped''
                             else write_error 500 ''internal_error'' ''lookup failed'')
                        | Inr uid \<Rightarrow>
                            bindW (create_pending
                                     \<lparr>ci_user_id = uid, ci_idempotency_key = key, ci_type = typ,
                                      ci_payload = Some (or_else (ig_payload req) (JObj []))\<rparr>) (\<lambda>r'. returnW
                              (case r' of
                                 Inl e \<Rightarrow> write_error 500 ''internal_error'' ''could not persist event''
                               | Inr (ev, created) \<Rightarrow>
                                   if created then write_json 202 (EventBody ev)
                                   else write_json 200 (EventBody ev)))))))"

context db_contract
begin

lemma keeps_ingest: "keeps G (ingest secret time_ok rq)"
  unfolding ingest_def Let_def by (intro keeps_rules keeps_store)

end

end
