(* ===== verification/Worker.thy ===== *)
theory Worker
  imports Http
begin

text \<open>
  \<open>api/internal/worker/worker.go\<close>: claim an event, match it against the user's rules, and mark
  it processed or failed; a tick takes a batch, \<open>Run\<close> ticks until its context is done.
\<close>

section \<open>Matching\<close>

definition payload_amount :: "json option \<Rightarrow> error + float64 option" where
  "payload_amount raw =
     (case raw of
        None \<Rightarrow> Inl (Errorf ''payload required'')
      | Some v \<Rightarrow>
          (case dec_raw_map v of
             None \<Rightarrow> Inl (Errorf ''payload must be a json object'')
           | Some obj \<Rightarrow>
               (case obj ''amount'' of
                  None \<Rightarrow> Inr None
                | Some raw_amount \<Rightarrow>
                    (case dec_float raw_amount 0 of
                       None \<Rightarrow> Inl (Errorf ''payload.amount must be a number'')
                     | Some amount \<Rightarrow> Inr (Some amount)))))"

definition rule_matches :: "float64 option \<Rightarrow> rule \<Rightarrow> bool" where
  "rule_matches amount r =
     (case r_threshold r of None \<Rightarrow> True
      | Some t \<Rightarrow> (case amount of None \<Rightarrow> False | Some a \<Rightarrow> a \<le> t))"

fun first_match :: "float64 option \<Rightarrow> rule list \<Rightarrow> uuid option" where
  "first_match amount [] = None"
| "first_match amount (r # rs) =
     (if rule_matches amount r then Some (r_id r) else first_match amount rs)"

definition process :: "event \<Rightarrow> (error + uuid option) io" where
  "process ev =
     (case payload_amount (Some (ev_payload ev)) of
        Inl e \<Rightarrow> returnW (Inl e)
      | Inr amount \<Rightarrow>
          bindW (enabled_by_user_and_type (ev_user_id ev) (ev_type ev)) (\<lambda>r. returnW
            (case r of
               Inl e \<Rightarrow> Inl e
             | Inr candidates \<Rightarrow> Inr (first_match amount candidates))))"

section \<open>The worker\<close>

definition max_attempts :: int where "max_attempts = 5"
definition poll_every :: int where "poll_every = 2 * 10 ^ 9"
definition batch_size :: nat where "batch_size = 20"

record worker =
  wk_stats :: stats
  wk_every :: int
  wk_process_delay :: int

definition new_with_delay :: "int \<Rightarrow> worker" where
  "new_with_delay delay =
     \<lparr>wk_stats = new_stats, wk_every = poll_every, wk_process_delay = delay\<rparr>"

definition new_worker :: worker where
  "new_worker = new_with_delay 0"

definition on_stats :: "(stats \<Rightarrow> stats) \<Rightarrow> worker \<Rightarrow> worker" where
  "on_stats f wk = wk\<lparr>wk_stats := f (wk_stats wk)\<rparr>"

definition finish :: "event \<Rightarrow> worker \<Rightarrow> (error option \<times> worker) io" where
  "finish ev wk =
     bindW (process ev) (\<lambda>r.
       case r of
         Inl proc_err \<Rightarrow>
           bindW (error_textW proc_err) (\<lambda>msg.
           bindW (mark_attempt_failed (ev_id ev) msg) (\<lambda>m. returnW
             (case m of
                Inl e \<Rightarrow> (Some (Wrap (''mark failed event_id='' @ ev_id ev) e), wk)
              | Inr _ \<Rightarrow> (None, on_stats inc_error wk))))
       | Inr matched \<Rightarrow>
           bindW (mark_processed (ev_id ev) matched) (\<lambda>m. returnW
             (case m of
                Inl e \<Rightarrow> (Some (Wrap (''mark processed event_id='' @ ev_id ev) e), wk)
              | Inr _ \<Rightarrow> (None, on_stats inc_processed wk))))"

text \<open>The \<open>select\<close> between the delay's timer and the context: one slot of the script, whose
  time is at least the delay if the timer wins. The answer says whether the context did.\<close>

definition await_delay :: "int \<Rightarrow> bool io" where
  "await_delay delay w =
     (let s = w_slot w; w' = elapse w in
      if sl_cancel s then (True, w')
      else (False, w'\<lparr>w_now := w_now w + max (delay div 1000) (sl_elapsed s)\<rparr>))"

definition process_one :: "worker \<Rightarrow> ((bool \<times> error option) \<times> worker) io" where
  "process_one wk =
     bindW (claim_next max_attempts) (\<lambda>r.
       case r of
         Inl e \<Rightarrow> returnW
           (if errors_is e ErrEventNotFound then ((False, None), wk) else ((False, Some e), wk))
       | Inr ev \<Rightarrow>
           bindW (if wk_process_delay wk > 0 then await_delay (wk_process_delay wk) else returnW False)
             (\<lambda>cancelled.
                if cancelled then returnW ((True, Some CtxCancelled), wk)
                else bindW (finish ev wk) (\<lambda>(err, wk'). returnW ((True, err), wk'))))"

fun tick_loop :: "nat \<Rightarrow> worker \<Rightarrow> worker io" where
  "tick_loop 0 wk = returnW wk"
| "tick_loop (Suc n) wk =
     bindW (process_one wk) (\<lambda>((ok, err), wk').
       let wk'' = (if err \<noteq> None then on_stats inc_error wk' else wk') in
       if \<not> ok then returnW wk'' else tick_loop n wk'')"

definition tick :: "worker \<Rightarrow> worker io" where
  "tick wk = bindW nowW (\<lambda>now. tick_loop batch_size (on_stats (mark_tick now) wk))"

text \<open>The ticker of \<open>Run\<close>, \<open>time.NewTicker\<close>: it fires every \<open>period\<close> after its start; the
  channel holds one tick, so a receiver that was busy gets the pending one at once and the others are dropped.
  \<open>fire\<close> is the time of the tick that is received next, times are in microseconds.\<close>

definition next_fire :: "int \<Rightarrow> time \<Rightarrow> time \<Rightarrow> time" where
  "next_fire period fire now = fire + period * ((now - fire) div period + 1)"

definition await_ticker :: "int \<Rightarrow> time \<Rightarrow> time io" where
  "await_ticker period fire w =
     (let now = max (w_now w) fire in (next_fire period fire now, w\<lparr>w_now := now\<rparr>))"

text \<open>What the \<open>select\<close> of \<open>Run\<close> receives, one after the other.\<close>

datatype select = CtxDone | TimerTick

fun run_loop :: "int \<Rightarrow> select list \<Rightarrow> time \<Rightarrow> worker \<Rightarrow> worker io" where
  "run_loop period [] fire wk = returnW wk"
| "run_loop period (CtxDone # es) fire wk = returnW wk"
| "run_loop period (TimerTick # es) fire wk =
     bindW (await_ticker period fire) (\<lambda>fire'. bindW (tick wk) (run_loop period es fire'))"

definition run :: "select list \<Rightarrow> worker \<Rightarrow> worker io" where
  "run es wk = bindW nowW (\<lambda>start. let period = wk_every wk div 1000 in
     bindW (tick wk) (run_loop period es (start + period)))"

context db_contract
begin

lemma keeps_await: "keeps G (await_delay n)"
  by (auto simp: keeps_def await_delay_def Let_def env_ok_def w_slot_def)

lemma keeps_process: "keeps G (process ev)"
  unfolding process_def by (intro keeps_rules keeps_store)

lemma keeps_finish: "keeps G (finish ev wk)"
  unfolding finish_def by (intro keeps_process keeps_rules keeps_store)

lemma keeps_process_one: "keeps G (process_one wk)"
  unfolding process_one_def max_attempts_def
  by (intro keeps_finish keeps_await keeps_rules keeps_store)

lemma keeps_tick_loop: "keeps G (tick_loop n wk)"
proof (induction n arbitrary: wk)
  case (Suc n)
  show ?case
    unfolding tick_loop.simps case_prod_beta Let_def
    by (intro keeps_process_one Suc.IH keeps_rules)
qed (simp add: keeps_return)

lemma keeps_tick: "keeps G (tick wk)"
  unfolding tick_def by (intro keeps_tick_loop keeps_rules)

lemma keeps_await_ticker: "keeps G (await_ticker period fire)"
  using keeps_return [of "()"] by (simp add: keeps_def await_ticker_def Let_def)

lemma keeps_run_loop: "keeps G (run_loop period es fire wk)"
  by (induction period es fire wk rule: run_loop.induct)
     (simp_all only: run_loop.simps keeps_return keeps_bind keeps_tick keeps_await_ticker)

lemma keeps_run: "keeps G (run es wk)"
  unfolding run_def Let_def by (intro keeps_rules keeps_tick keeps_run_loop)

end

section \<open>The match decision\<close>

lemma first_match_find: "first_match a rs = map_option r_id (List.find (rule_matches a) rs)"
  by (induction rs) auto

lemma first_match_None: "first_match a rs = None \<longleftrightarrow> (\<forall>r\<in>set rs. \<not> rule_matches a r)"
  by (simp add: first_match_find find_None_mem)

end
