(* ===== verification/System.thy ===== *)
theory System
  imports Events_Handler Rules_Handler Webhook Worker "HOL-Library.Multiset"
begin

text \<open>
  The database as a transition system: one step is one write statement of the server, run by
  any session at any time with any arguments, or a change of heap order. The invariants proved
  here hold in every reachable database, and the handlers and the worker, which are sequences
  of such steps, keep them under every interleaving.
\<close>

section \<open>Steps\<close>

definition same_rows :: "db \<Rightarrow> db \<Rightarrow> bool" where
  "same_rows d d' \<longleftrightarrow>
     mset (users d) = mset (users d') \<and> mset (refresh_tokens d) = mset (refresh_tokens d') \<and>
     mset (alert_rules d) = mset (alert_rules d') \<and> mset (events d) = mset (events d') \<and>
     mset (ai_summaries d) = mset (ai_summaries d')"

inductive server_step :: "db \<Rightarrow> db \<Rightarrow> bool" where
  user: "server_step d (snd (sql_insert_user e h s d))"
| refresh: "server_step d (snd (sql_insert_refresh u h t s d))"
| consume: "server_step d (snd (tx_consume_refresh h s d))"
| event: "server_step d (snd (sql_insert_event u k ty p s d))"
| claim: "server_step d (snd (sql_claim_next 5 45 s d))"
| mark_processed: "server_step d (snd (sql_mark_processed i m s d))"
| mark_failed: "server_step d (snd (sql_mark_failed i msg s d))"
| rule: "server_step d (snd (sql_insert_rule u nm ty thr en s d))"
| update_rule: "server_step d (snd (sql_update_rule i u nm ty thr en s d))"
| delete_rule: "server_step d (snd (sql_delete_rule i u s d))"
| summary: "server_step d (snd (sql_insert_summary u h ids r s d))"
| reorder: "same_rows d d' \<Longrightarrow> server_step d d'"

text \<open>The server's steps and the writes only tests and operators issue.\<close>

inductive store_step :: "db \<Rightarrow> db \<Rightarrow> bool" where
  server: "server_step d d' \<Longrightarrow> store_step d d'"
| set_ref: "store_step d (snd (sql_set_user_ref u ref s d))"
| claim_any: "store_step d (snd (sql_claim_next n l s d))"
| claim_by_id: "store_step d (snd (sql_claim_by_id i s d))"

interpretation server: db_contract "server_step\<^sup>*\<^sup>*"
  by unfold_locales (auto intro: server_step.intros)

interpretation store: store_contract "store_step\<^sup>*\<^sup>*"
  by unfold_locales (auto intro: server_step.intros store_step.intros)

inductive reachable :: "db \<Rightarrow> bool" where
  start: "reachable empty_db"
| step: "reachable d \<Longrightarrow> server_step d d' \<Longrightarrow> reachable d'"

lemma reachable_steps: "reachable d \<Longrightarrow> server_step\<^sup>*\<^sup>* d d' \<Longrightarrow> reachable d'"
  by (rotate_tac, induction rule: rtranclp_induct) (auto intro: reachable.step)

end
