(* ===== verification/Invariants.thy ===== *)
theory Invariants
  imports System
begin

text \<open>
  The invariants of the database: the keys and references the migrations declare, the
  lifecycle of an event row, and the history relation between an earlier and a later database.
\<close>

section \<open>Effects of the statements\<close>

text \<open>Each write leaves the database alone or does one thing to one table (deleting a rule: to
  two). The invariants are proved over these shapes.\<close>

lemma insert_user_effect:
  "snd (sql_insert_user e h s d) = d \<or>
   (snd (sql_insert_user e h s d) = d\<lparr>users := users d @ [new_user s e h]\<rparr>
    \<and> (\<forall>u\<in>set (users d). u_id u \<noteq> se_uuid s \<and> u_email u \<noteq> e))"
  by (auto simp: sql_insert_user_def update_def bindE_def text_arg_def split: sum.splits if_splits)

lemma insert_refresh_effect:
  "snd (sql_insert_refresh uid h t s d) = d \<or>
   (\<exists>u. snd (sql_insert_refresh uid h t s d)
         = d\<lparr>refresh_tokens := refresh_tokens d @ [new_refresh s u h t]\<rparr>
      \<and> user_exists d u
      \<and> (\<forall>r\<in>set (refresh_tokens d). rt_id r \<noteq> se_uuid s \<and> rt_token_hash r \<noteq> h))"
  by (auto simp: sql_insert_refresh_def update_def bindE_def uuid_arg_def text_arg_def
      split: sum.splits if_splits option.splits)

lemma consume_effect:
  "\<exists>p. snd (tx_consume_refresh h s d) = d\<lparr>refresh_tokens := delete_where p (refresh_tokens d)\<rparr>"
proof -
  have "d = d\<lparr>refresh_tokens := delete_where (\<lambda>_. False) (refresh_tokens d)\<rparr>"
    by (simp add: delete_where_def)
  then show ?thesis
    by (auto simp: tx_consume_refresh_def update_def bindE_def text_arg_def
        split: sum.splits if_splits option.splits)
qed

lemma insert_event_effect:
  "snd (sql_insert_event uid k ty p s d) = d \<or>
   (\<exists>u p'. snd (sql_insert_event uid k ty p s d) = d\<lparr>events := events d @ [new_event s u k ty p']\<rparr>
      \<and> user_exists d u
      \<and> (\<forall>r\<in>set (events d). ev_id r \<noteq> se_uuid s \<and> \<not> same_key u k r))"
  by (auto simp: sql_insert_event_def update_def bindE_def uuid_arg_def text_arg_def jsonb_arg_def
      split: sum.splits if_splits option.splits)

text \<open>A claim rewrites the rows with the id of one claimable row.\<close>

lemma claim_next_effect:
  "snd (sql_claim_next n l s d) = d \<or>
   (\<exists>r\<in>set (events d). claimable n l (se_now s) r \<and>
      snd (sql_claim_next n l s d)
        = d\<lparr>events := update_where (\<lambda>e. ev_id e = ev_id r) (claim_row (se_now s)) (events d)\<rparr>)"
proof (cases "claim_queue n l (se_now s) (events d)")
  case Nil
  then show ?thesis by (simp add: sql_claim_next_def update_def)
next
  case (Cons r rs)
  then have "r \<in> set (filter (claimable n l (se_now s)) (events d))"
    unfolding claim_queue_def by (rule order_asc_hd)
  with Cons show ?thesis by (auto simp: sql_claim_next_def update_def)
qed

lemma claim_by_id_effect:
  "snd (sql_claim_by_id i s d) = d \<or>
   (\<exists>j. snd (sql_claim_by_id i s d)
        = d\<lparr>events := update_where
             (\<lambda>r. ev_id r = j \<and> (ev_status r = Pending \<or> ev_status r = Failed))
             (claim_row (se_now s)) (events d)\<rparr>)"
  by (auto simp: sql_claim_by_id_def update_def bindE_def uuid_arg_def Let_def
      split: sum.splits option.splits)

lemma mark_processed_effect:
  "snd (sql_mark_processed i m s d) = d \<or>
   (\<exists>j m'. snd (sql_mark_processed i m s d)
        = d\<lparr>events := update_where (being_processed j) (processed_row (se_now s) m') (events d)\<rparr>
      \<and> (\<forall>x\<in>set_option m'. rule_exists d x))"
proof -
  have none: "update_where (being_processed j) f (events d) = events d"
    if "\<forall>r\<in>set (events d). \<not> being_processed j r" for j f
    using that by (simp add: update_where_none)
  show ?thesis
    by (auto simp: sql_mark_processed_def update_def bindE_def uuid_arg_def uuid_opt_arg_def none
        split: sum.splits option.splits if_splits)
qed

lemma mark_failed_effect:
  "snd (sql_mark_failed i msg s d) = d \<or>
   (\<exists>j. snd (sql_mark_failed i msg s d)
        = d\<lparr>events := update_where (being_processed j) (failed_row (se_now s) msg) (events d)\<rparr>)"
  by (auto simp: sql_mark_failed_def update_def bindE_def uuid_arg_def text_arg_def
      split: sum.splits option.splits if_splits)

lemma insert_rule_effect:
  "snd (sql_insert_rule uid nm ty thr en s d) = d \<or>
   (\<exists>u. snd (sql_insert_rule uid nm ty thr en s d)
          = d\<lparr>alert_rules := alert_rules d @ [new_rule s u nm ty thr en]\<rparr>
      \<and> user_exists d u \<and> \<not> rule_exists d (se_uuid s) \<and> name_check nm)"
  by (auto simp: sql_insert_rule_def update_def bindE_def uuid_arg_def text_arg_def
      split: sum.splits if_splits option.splits)

lemma update_rule_effect:
  "snd (sql_update_rule i uid nm ty thr en s d) = d \<or>
   (\<exists>j u. snd (sql_update_rule i uid nm ty thr en s d)
          = d\<lparr>alert_rules := update_where (owned_rule j u)
                (updated_rule (se_now s) nm ty thr en) (alert_rules d)\<rparr>
      \<and> name_check nm)"
  by (auto simp: sql_update_rule_def update_def bindE_def uuid_arg_def text_arg_def
      split: sum.splits if_splits option.splits)

lemma delete_rule_effect:
  "snd (sql_delete_rule i uid s d) = d \<or>
   (\<exists>j u. snd (sql_delete_rule i uid s d) = remove_rules (owned_rule j u) d)"
  by (auto simp: sql_delete_rule_def update_def bindE_def uuid_arg_def split: sum.splits option.splits)

lemma insert_summary_effect:
  "snd (sql_insert_summary uid h ids r s d) = d \<or>
   (\<exists>x. snd (sql_insert_summary uid h ids r s d) = d\<lparr>ai_summaries := ai_summaries d @ [x]\<rparr>
      \<and> user_exists d (sm_user_id x) \<and> (\<forall>y\<in>set (ai_summaries d). sm_id y \<noteq> sm_id x))"
  by (auto simp: sql_insert_summary_def update_def bindE_def uuid_arg_def text_arg_def jsonb_arg_def
      split: sum.splits if_splits option.splits)

lemma set_ref_effect:
  "snd (sql_set_user_ref uid ref s d) = d \<or>
   (\<exists>i. snd (sql_set_user_ref uid ref s d)
        = d\<lparr>users := update_where (\<lambda>u. u_id u = i) (\<lambda>u. u\<lparr>u_user_ref := Some ref\<rparr>) (users d)\<rparr>
      \<and> ((\<exists>u\<in>set (users d). u_id u = i)
          \<longrightarrow> (\<forall>u\<in>set (users d). u_id u \<noteq> i \<longrightarrow> u_user_ref u \<noteq> Some ref)))"
  by (auto simp: sql_set_user_ref_def update_def bindE_def uuid_arg_def text_arg_def
      split: sum.splits if_splits option.splits)

lemmas effects = insert_user_effect insert_refresh_effect consume_effect insert_event_effect
  claim_next_effect claim_by_id_effect mark_processed_effect mark_failed_effect
  insert_rule_effect update_rule_effect delete_rule_effect insert_summary_effect set_ref_effect

section \<open>Primary and unique keys\<close>

definition event_key :: "event_row \<Rightarrow> uuid \<times> string" where
  "event_key r = (ev_user_id r, ev_idempotency_key r)"

definition user_refs :: "user_row list \<Rightarrow> string list" where
  "user_refs us = List.map_filter u_user_ref us"

definition keys_ok :: "db \<Rightarrow> bool" where
  "keys_ok d \<longleftrightarrow>
     distinct (map u_id (users d)) \<and> distinct (map u_email (users d)) \<and>
     distinct (user_refs (users d)) \<and>
     distinct (map rt_id (refresh_tokens d)) \<and> distinct (map rt_token_hash (refresh_tokens d)) \<and>
     distinct (map r_id (alert_rules d)) \<and>
     distinct (map ev_id (events d)) \<and> distinct (map event_key (events d)) \<and>
     distinct (map sm_id (ai_summaries d))"

lemma same_key_iff: "same_key u k r \<longleftrightarrow> event_key r = (u, k)"
  by (auto simp: same_key_def event_key_def)

lemma event_key_simps [simp]:
  "event_key (claim_row t r) = event_key r"
  "event_key (processed_row t m r) = event_key r"
  "event_key (failed_row t msg r) = event_key r"
  "event_key (unmatch_row r) = event_key r"
  "event_key (new_event s u k ty p) = (u, k)"
  by (simp_all add: event_key_def)

lemma distinct_map_delete_where: "distinct (map k rows) \<Longrightarrow> distinct (map k (delete_where p rows))"
  by (simp add: delete_where_def distinct_map_filter)

lemma distinct_map_mset: "mset xs = mset ys \<Longrightarrow> distinct (map k xs) \<longleftrightarrow> distinct (map k ys)"
  by (metis mset_eq_imp_distinct_iff mset_map)

lemma set_user_refs: "set (user_refs us) = {t. \<exists>u\<in>set us. u_user_ref u = Some t}"
  by (force simp: user_refs_def List.map_filter_def)

lemma user_refs_Nil [simp]: "user_refs [] = []"
  and user_refs_Cons: "user_refs (u # us) =
    (case u_user_ref u of None \<Rightarrow> user_refs us | Some t \<Rightarrow> t # user_refs us)"
  by (simp_all add: user_refs_def List.map_filter_def split: option.splits)

lemma user_refs_append: "user_refs (xs @ ys) = user_refs xs @ user_refs ys"
  by (simp add: user_refs_def List.map_filter_def)

lemma user_refs_mset:
  assumes "mset xs = mset ys"
  shows "distinct (user_refs xs) \<longleftrightarrow> distinct (user_refs ys)"
proof -
  have "mset (user_refs us) = image_mset (the \<circ> u_user_ref) (filter_mset (\<lambda>u. u_user_ref u \<noteq> None) (mset us))"
    for us
    by (induction us) (auto simp: user_refs_Cons split: option.splits)
  with assms have "mset (user_refs xs) = mset (user_refs ys)" by simp
  then show ?thesis by (rule mset_eq_imp_distinct_iff)
qed

lemma user_refs_update:
  assumes "distinct (user_refs us)" "distinct (map u_id us)"
    and "(\<exists>u\<in>set us. u_id u = i) \<longrightarrow> (\<forall>u\<in>set us. u_id u \<noteq> i \<longrightarrow> u_user_ref u \<noteq> Some t)"
  shows "distinct (user_refs (update_where (\<lambda>u. u_id u = i) (\<lambda>u. u\<lparr>u_user_ref := Some t\<rparr>) us))"
  using assms
proof (induction us)
  case (Cons u us)
  let ?upd = "update_where (\<lambda>u. u_id u = i) (\<lambda>u. u\<lparr>u_user_ref := Some t\<rparr>)"
  show ?case
  proof (cases "u_id u = i")
    case True
    with Cons.prems have no: "\<forall>v\<in>set us. u_id v \<noteq> i" by (auto simp: image_iff)
    then have "?upd us = us" by (simp add: update_where_none)
    with True no Cons.prems show ?thesis
      by (auto simp: row_simps user_refs_Cons set_user_refs split: option.splits)
  next
    case False
    have IH: "distinct (user_refs (?upd us))"
      using Cons by (auto simp: user_refs_Cons split: option.splits)
    have "t' \<notin> set (user_refs (?upd us))" if t': "u_user_ref u = Some t'" for t'
    proof
      assume "t' \<in> set (user_refs (?upd us))"
      then obtain v where "v \<in> set (?upd us)" "u_user_ref v = Some t'" by (auto simp: set_user_refs)
      then consider "v \<in> set us" | "\<exists>v'\<in>set us. u_id v' = i" "t' = t"
        by (elim update_where_memE) auto
      then show False
        using Cons.prems False t' \<open>u_user_ref v = Some t'\<close>
        by cases (auto simp: user_refs_Cons set_user_refs)
    qed
    with False IH show ?thesis by (auto simp: row_simps user_refs_Cons split: option.splits)
  qed
qed (simp add: row_simps)

lemma keys_ok_mset: "same_rows d d' \<Longrightarrow> keys_ok d \<Longrightarrow> keys_ok d'"
  unfolding keys_ok_def same_rows_def
  by (metis distinct_map_mset user_refs_mset)

lemma keys_ok_update_events:
  assumes "keys_ok d" "\<And>r. p r \<Longrightarrow> ev_id (f r) = ev_id r" "\<And>r. p r \<Longrightarrow> event_key (f r) = event_key r"
  shows "keys_ok (d\<lparr>events := update_where p f (events d)\<rparr>)"
  using assms by (simp add: keys_ok_def map_update_where)

lemma keys_ok_claim: "keys_ok d \<Longrightarrow> keys_ok (snd (sql_claim_next n l s d))"
  using claim_next_effect [of n l s d] by (auto intro!: keys_ok_update_events)

lemma keys_ok_server_step: "server_step d d' \<Longrightarrow> keys_ok d \<Longrightarrow> keys_ok d'"
proof (induction rule: server_step.induct)
  case (user d e h s)
  then show ?case using insert_user_effect [of e h s d]
    by (auto simp: keys_ok_def user_refs_append user_refs_Cons) blast
next
  case (refresh d u h t s)
  then show ?case using insert_refresh_effect [of u h t s d]
    by (auto simp: keys_ok_def) blast
next
  case (consume d h s)
  then show ?case using consume_effect [of h s d]
    by (auto simp: keys_ok_def distinct_map_delete_where)
next
  case (event d u k ty p s)
  then show ?case using insert_event_effect [of u k ty p s d]
    by (auto simp: keys_ok_def same_key_iff) blast+
next
  case (claim d s)
  then show ?case by (simp add: keys_ok_claim)
next
  case (mark_processed d i m s)
  then show ?case using mark_processed_effect [of i m s d] by (auto intro!: keys_ok_update_events)
next
  case (mark_failed d i msg s)
  then show ?case using mark_failed_effect [of i msg s d] by (auto intro!: keys_ok_update_events)
next
  case (rule d u nm ty thr en s)
  then show ?case using insert_rule_effect [of u nm ty thr en s d]
    by (auto simp: keys_ok_def rule_exists_def) blast
next
  case (update_rule d i u nm ty thr en s)
  then show ?case using update_rule_effect [of i u nm ty thr en s d]
    by (auto simp: keys_ok_def map_update_where)
next
  case (delete_rule d i u s)
  then show ?case using delete_rule_effect [of i u s d]
    by (auto simp: keys_ok_def remove_rules_def Let_def distinct_map_delete_where map_update_where)
next
  case (summary d u h ids r s)
  then show ?case using insert_summary_effect [of u h ids r s d]
    by (auto simp: keys_ok_def) blast
next
  case (reorder d d')
  then show ?case by (blast intro: keys_ok_mset)
qed

lemma keys_ok_store_step: "store_step d d' \<Longrightarrow> keys_ok d \<Longrightarrow> keys_ok d'"
proof (induction rule: store_step.induct)
  case (set_ref d u ref s)
  then show ?case using set_ref_effect [of u ref s d]
    by (auto simp: keys_ok_def map_update_where intro!: user_refs_update)
next
  case (claim_by_id d i s)
  then show ?case using claim_by_id_effect [of i s d] by (auto intro!: keys_ok_update_events)
qed (auto intro: keys_ok_server_step keys_ok_claim)

section \<open>Foreign keys and checks\<close>

definition refs_ok :: "db \<Rightarrow> bool" where
  "refs_ok d \<longleftrightarrow>
     (\<forall>t\<in>set (refresh_tokens d). user_exists d (rt_user_id t)) \<and>
     (\<forall>r\<in>set (alert_rules d). user_exists d (r_user_id r) \<and> name_check (r_name r)) \<and>
     (\<forall>e\<in>set (events d). user_exists d (ev_user_id e)) \<and>
     (\<forall>e\<in>set (events d). \<forall>m\<in>set_option (ev_matched_rule_id e). rule_exists d m) \<and>
     (\<forall>x\<in>set (ai_summaries d). user_exists d (sm_user_id x))"

lemma user_exists_simps [simp]:
  "user_exists (d\<lparr>events := x\<rparr>) u = user_exists d u"
  "user_exists (d\<lparr>alert_rules := y\<rparr>) u = user_exists d u"
  "user_exists (d\<lparr>refresh_tokens := z\<rparr>) u = user_exists d u"
  "user_exists (d\<lparr>ai_summaries := a\<rparr>) u = user_exists d u"
  "user_exists (remove_rules p d) u = user_exists d u"
  by (simp_all add: user_exists_def)

lemma rule_exists_simps [simp]:
  "rule_exists (d\<lparr>events := x\<rparr>) u = rule_exists d u"
  "rule_exists (d\<lparr>users := y\<rparr>) u = rule_exists d u"
  "rule_exists (d\<lparr>refresh_tokens := z\<rparr>) u = rule_exists d u"
  "rule_exists (d\<lparr>ai_summaries := a\<rparr>) u = rule_exists d u"
  by (simp_all add: rule_exists_def)

lemma user_exists_append: "user_exists d u \<Longrightarrow> user_exists (d\<lparr>users := users d @ us\<rparr>) u"
  by (auto simp: user_exists_def)

lemma rule_exists_append: "rule_exists d u \<Longrightarrow> rule_exists (d\<lparr>alert_rules := alert_rules d @ rs\<rparr>) u"
  by (auto simp: rule_exists_def)

lemma rule_exists_update:
  "(\<And>r. p r \<Longrightarrow> r_id (f r) = r_id r) \<Longrightarrow>
   rule_exists (d\<lparr>alert_rules := update_where p f (alert_rules d)\<rparr>) i = rule_exists d i"
  by (auto simp: rule_exists_def set_update_where)

lemma user_exists_update:
  "(\<And>r. p r \<Longrightarrow> u_id (f r) = u_id r) \<Longrightarrow>
   user_exists (d\<lparr>users := update_where p f (users d)\<rparr>) i = user_exists d i"
  by (auto simp: user_exists_def set_update_where)

lemma refs_ok_update_events:
  assumes "refs_ok d" "\<And>r. p r \<Longrightarrow> ev_user_id (f r) = ev_user_id r"
    and "\<And>r x. p r \<Longrightarrow> r \<in> set (events d) \<Longrightarrow> ev_matched_rule_id (f r) = Some x \<Longrightarrow> rule_exists d x"
  shows "refs_ok (d\<lparr>events := update_where p f (events d)\<rparr>)"
  using assms by (auto simp: refs_ok_def set_update_where)

lemma refs_ok_matched:
  "refs_ok d \<Longrightarrow> r \<in> set (events d) \<Longrightarrow> ev_matched_rule_id r = Some x \<Longrightarrow> rule_exists d x"
  by (auto simp: refs_ok_def)

lemma refs_ok_update_unmatched:
  assumes "refs_ok d" "\<And>r. p r \<Longrightarrow> ev_user_id (f r) = ev_user_id r"
    and "\<And>r. p r \<Longrightarrow> ev_matched_rule_id (f r) = ev_matched_rule_id r"
  shows "refs_ok (d\<lparr>events := update_where p f (events d)\<rparr>)"
  by (rule refs_ok_update_events) (use assms refs_ok_matched in auto)

lemma refs_ok_claim: "refs_ok d \<Longrightarrow> refs_ok (snd (sql_claim_next n l s d))"
  using claim_next_effect [of n l s d] by (auto intro!: refs_ok_update_unmatched)

text \<open>Deleting a rule leaves no event that refers to it.\<close>

lemma remove_rules_eventE:
  assumes "e \<in> set (events (remove_rules p d))"
  obtains r where "r \<in> set (events d)" "ev_user_id e = ev_user_id r"
    "\<And>m. ev_matched_rule_id e = Some m \<Longrightarrow>
       ev_matched_rule_id r = Some m \<and> (\<forall>x\<in>set (alert_rules d). p x \<longrightarrow> r_id x \<noteq> m)"
proof -
  have "\<exists>r\<in>set (events d). e = unmatch_row r \<or>
      e = r \<and> (\<forall>m x. ev_matched_rule_id r = Some m \<and> x \<in> set (alert_rules d) \<and> p x \<longrightarrow> r_id x \<noteq> m)"
    using assms
    by (auto simp: remove_rules_def Let_def set_update_where split: option.splits)
       (rule bexI [of _ e], auto)
  then obtain r where r: "r \<in> set (events d)" and cases: "e = unmatch_row r \<or>
      e = r \<and> (\<forall>m x. ev_matched_rule_id r = Some m \<and> x \<in> set (alert_rules d) \<and> p x \<longrightarrow> r_id x \<noteq> m)"
    by blast
  from cases show thesis by (elim disjE; intro that [OF r]) auto
qed

lemma refs_ok_remove_rules:
  assumes "refs_ok d" shows "refs_ok (remove_rules p d)"
proof -
  have ev: "user_exists d (ev_user_id e) \<and> (\<forall>m\<in>set_option (ev_matched_rule_id e). rule_exists (remove_rules p d) m)"
    if "e \<in> set (events (remove_rules p d))" for e
    using that
  proof (rule remove_rules_eventE)
    fix r assume r: "r \<in> set (events d)" "ev_user_id e = ev_user_id r"
      and m: "\<And>m. ev_matched_rule_id e = Some m \<Longrightarrow>
        ev_matched_rule_id r = Some m \<and> (\<forall>x\<in>set (alert_rules d). p x \<longrightarrow> r_id x \<noteq> m)"
    have "rule_exists (remove_rules p d) m" if "ev_matched_rule_id e = Some m" for m
    proof -
      from m [OF that] have "rule_exists d m" and kept: "\<forall>x\<in>set (alert_rules d). p x \<longrightarrow> r_id x \<noteq> m"
        using assms r(1) by (auto intro: refs_ok_matched)
      then show ?thesis unfolding rule_exists_def remove_rules_simps set_delete_where by blast
    qed
    moreover have "user_exists d (ev_user_id e)" using assms r by (simp add: refs_ok_def)
    ultimately show ?thesis by simp
  qed
  then show ?thesis
    using assms unfolding refs_ok_def by (simp add: set_delete_where)
qed

lemma refs_ok_mset: "same_rows d d' \<Longrightarrow> refs_ok d \<Longrightarrow> refs_ok d'"
proof -
  assume s: "same_rows d d'" and r: "refs_ok d"
  then have "set (users d) = set (users d')" "set (refresh_tokens d) = set (refresh_tokens d')"
    "set (alert_rules d) = set (alert_rules d')" "set (events d) = set (events d')"
    "set (ai_summaries d) = set (ai_summaries d')"
    unfolding same_rows_def by (metis mset_eq_setD)+
  with r show ?thesis by (simp add: refs_ok_def user_exists_def rule_exists_def)
qed

lemma refs_ok_server_step: "server_step d d' \<Longrightarrow> refs_ok d \<Longrightarrow> refs_ok d'"
proof (induction rule: server_step.induct)
  case (user d e h s)
  then show ?case using insert_user_effect [of e h s d]
    by (auto simp: refs_ok_def user_exists_append)
next
  case (refresh d u h t s)
  then show ?case using insert_refresh_effect [of u h t s d] by (auto simp: refs_ok_def)
next
  case (consume d h s)
  then show ?case using consume_effect [of h s d] by (auto simp: refs_ok_def set_delete_where)
next
  case (event d u k ty p s)
  then show ?case using insert_event_effect [of u k ty p s d] by (auto simp: refs_ok_def)
next
  case (claim d s)
  then show ?case by (simp add: refs_ok_claim)
next
  case (mark_processed d i m s)
  then show ?case using mark_processed_effect [of i m s d] by (auto intro!: refs_ok_update_events)
next
  case (mark_failed d i msg s)
  then show ?case using mark_failed_effect [of i msg s d]
    by (auto intro!: refs_ok_update_unmatched)
next
  case (rule d u nm ty thr en s)
  then show ?case using insert_rule_effect [of u nm ty thr en s d]
    by (auto simp: refs_ok_def rule_exists_append)
next
  case (update_rule d i u nm ty thr en s)
  then show ?case using update_rule_effect [of i u nm ty thr en s d]
    by (auto simp: refs_ok_def rule_exists_update set_update_where)
next
  case (delete_rule d i u s)
  then show ?case using delete_rule_effect [of i u s d] by (auto intro: refs_ok_remove_rules)
next
  case (summary d u h ids r s)
  then show ?case using insert_summary_effect [of u h ids r s d] by (auto simp: refs_ok_def)
next
  case (reorder d d')
  then show ?case by (blast intro: refs_ok_mset)
qed

lemma refs_ok_store_step: "store_step d d' \<Longrightarrow> refs_ok d \<Longrightarrow> refs_ok d'"
proof (induction rule: store_step.induct)
  case (set_ref d u ref s)
  then show ?case using set_ref_effect [of u ref s d]
    by (auto simp: refs_ok_def user_exists_update)
next
  case (claim_by_id d i s)
  then show ?case using claim_by_id_effect [of i s d]
    by (auto intro!: refs_ok_update_unmatched)
qed (auto intro: refs_ok_server_step refs_ok_claim)

section \<open>The lifecycle of an event\<close>

text \<open>
  What the columns of a row say about each other: only a claimed row carries a lease, only a
  finished attempt a time and an outcome; and no row is worked on more than five times.
\<close>

definition event_ok :: "event_row \<Rightarrow> bool" where
  "event_ok r \<longleftrightarrow>
     (case ev_status r of
        Pending \<Rightarrow> ev_attempt_count r = 0 \<and> ev_last_error r = None \<and> ev_matched_rule_id r = None
                   \<and> ev_processed_at r = None \<and> ev_claimed_at r = None
      | Processing \<Rightarrow> 0 \<le> ev_attempt_count r \<and> ev_attempt_count r < max_attempts
                   \<and> ev_matched_rule_id r = None \<and> ev_claimed_at r \<noteq> None
                   \<and> (ev_last_error r = None \<longleftrightarrow> ev_attempt_count r = 0)
                   \<and> (ev_processed_at r = None \<longleftrightarrow> ev_attempt_count r = 0)
      | Processed \<Rightarrow> 0 \<le> ev_attempt_count r \<and> ev_attempt_count r < max_attempts
                   \<and> ev_last_error r = None \<and> ev_processed_at r \<noteq> None \<and> ev_claimed_at r = None
      | Failed \<Rightarrow> 1 \<le> ev_attempt_count r \<and> ev_attempt_count r \<le> max_attempts
                   \<and> ev_last_error r \<noteq> None \<and> ev_matched_rule_id r = None
                   \<and> ev_processed_at r \<noteq> None \<and> ev_claimed_at r = None)"

definition lifecycle_ok :: "db \<Rightarrow> bool" where
  "lifecycle_ok d \<longleftrightarrow> (\<forall>r\<in>set (events d). event_ok r)"

lemma event_ok_new: "event_ok (new_event s u k t p)"
  by (simp add: event_ok_def)

lemma event_ok_claim:
  "event_ok r \<Longrightarrow> claimable max_attempts l now r \<Longrightarrow> event_ok (claim_row t r)"
  by (auto simp: event_ok_def claimable_def max_attempts_def split: status.splits)

lemma event_ok_processed: "event_ok r \<Longrightarrow> being_processed i r \<Longrightarrow> event_ok (processed_row t m r)"
  by (auto simp: event_ok_def being_processed_def)

lemma event_ok_failed: "event_ok r \<Longrightarrow> being_processed i r \<Longrightarrow> event_ok (failed_row t m r)"
  by (auto simp: event_ok_def being_processed_def)

lemma event_ok_unmatch: "event_ok r \<Longrightarrow> event_ok (unmatch_row r)"
  by (auto simp: event_ok_def split: status.splits)

lemma lifecycle_ok_update:
  assumes "lifecycle_ok d" "\<And>r. r \<in> set (events d) \<Longrightarrow> event_ok r \<Longrightarrow> p r \<Longrightarrow> event_ok (f r)"
  shows "lifecycle_ok (d\<lparr>events := update_where p f (events d)\<rparr>)"
  using assms by (auto simp: lifecycle_ok_def set_update_where)

lemma lifecycle_ok_server_step:
  "server_step d d' \<Longrightarrow> keys_ok d \<Longrightarrow> lifecycle_ok d \<Longrightarrow> lifecycle_ok d'"
proof (induction rule: server_step.induct)
  case (event d u k ty p s)
  then show ?case using insert_event_effect [of u k ty p s d]
    by (auto simp: lifecycle_ok_def event_ok_new)
next
  case (claim d s)
  show ?case
  proof (cases "snd (sql_claim_next 5 45 s d) = d")
    case False
    then obtain r where r: "r \<in> set (events d)" "claimable max_attempts 45 (se_now s) r"
      "snd (sql_claim_next 5 45 s d)
         = d\<lparr>events := update_where (\<lambda>e. ev_id e = ev_id r) (claim_row (se_now s)) (events d)\<rparr>"
      using claim_next_effect [of 5 45 s d] by (auto simp: max_attempts_def)
    have "e = r" if "e \<in> set (events d)" "ev_id e = ev_id r" for e
      using claim.prems(1) r(1) that by (auto simp: keys_ok_def dest: distinct_map_mem_eq)
    with r claim.prems show ?thesis by (auto intro!: lifecycle_ok_update event_ok_claim)
  qed (use claim in simp)
next
  case (mark_processed d i m s)
  then show ?case using mark_processed_effect [of i m s d]
    by (auto intro!: lifecycle_ok_update event_ok_processed)
next
  case (mark_failed d i msg s)
  then show ?case using mark_failed_effect [of i msg s d]
    by (auto intro!: lifecycle_ok_update event_ok_failed)
next
  case (delete_rule d i u s)
  then show ?case using delete_rule_effect [of i u s d]
    by (auto simp: remove_rules_def Let_def lifecycle_ok_def set_update_where intro!: event_ok_unmatch)
next
  case (reorder d d')
  then show ?case by (auto simp: lifecycle_ok_def same_rows_def dest: mset_eq_setD)
next
  case (user d e h s)
  then show ?case using insert_user_effect [of e h s d] by (auto simp: lifecycle_ok_def)
next
  case (refresh d u h t s)
  then show ?case using insert_refresh_effect [of u h t s d] by (auto simp: lifecycle_ok_def)
next
  case (consume d h s)
  then show ?case using consume_effect [of h s d] by (auto simp: lifecycle_ok_def)
next
  case (rule d u nm ty thr en s)
  then show ?case using insert_rule_effect [of u nm ty thr en s d] by (auto simp: lifecycle_ok_def)
next
  case (update_rule d i u nm ty thr en s)
  then show ?case using update_rule_effect [of i u nm ty thr en s d] by (auto simp: lifecycle_ok_def)
next
  case (summary d u h ids r s)
  then show ?case using insert_summary_effect [of u h ids r s d] by (auto simp: lifecycle_ok_def)
qed

section \<open>Reachable databases\<close>

definition db_ok :: "db \<Rightarrow> bool" where
  "db_ok d \<longleftrightarrow> keys_ok d \<and> refs_ok d \<and> lifecycle_ok d"

lemma db_ok_empty: "db_ok empty_db"
  by (simp add: db_ok_def keys_ok_def refs_ok_def lifecycle_ok_def empty_db_def)

lemma db_ok_step: "server_step d d' \<Longrightarrow> db_ok d \<Longrightarrow> db_ok d'"
  by (auto simp: db_ok_def intro: keys_ok_server_step refs_ok_server_step lifecycle_ok_server_step)

lemma db_ok_steps: "server_step\<^sup>*\<^sup>* d d' \<Longrightarrow> db_ok d \<Longrightarrow> db_ok d'"
  by (induction rule: rtranclp_induct) (auto intro: db_ok_step)

lemma reachable_ok: "reachable d \<Longrightarrow> db_ok d"
  by (induction rule: reachable.induct) (auto intro: db_ok_empty db_ok_step)

end
