(* ===== verification/History.thy ===== *)
theory History
  imports Invariants
begin

text \<open>
  What later databases keep of earlier ones: no user and no event is ever lost, an event's identity never
  changes, its attempts only grow, and \<open>processed\<close> and the last failure are final. The
  relation interprets the store's contract, so every handler and the worker keep it.
\<close>

section \<open>Rows\<close>

definition exhausted :: "event_row \<Rightarrow> bool" where
  "exhausted r \<longleftrightarrow> ev_status r = Failed \<and> max_attempts \<le> ev_attempt_count r"

definition row_final :: "event_row \<Rightarrow> bool" where
  "row_final r \<longleftrightarrow> ev_status r = Processed \<or> exhausted r"

text \<open>\<open>advances r r'\<close>: \<open>r'\<close> may be the row \<open>r\<close> some time later.\<close>

definition advances :: "event_row \<Rightarrow> event_row \<Rightarrow> bool" where
  "advances r r' \<longleftrightarrow>
     ev_id r' = ev_id r \<and> event_key r' = event_key r \<and> ev_type r' = ev_type r
   \<and> ev_payload r' = ev_payload r \<and> ev_received_at r' = ev_received_at r
   \<and> ev_attempt_count r \<le> ev_attempt_count r'
   \<and> (ev_status r \<noteq> Pending \<longrightarrow> ev_status r' \<noteq> Pending)
   \<and> (row_final r \<longrightarrow> r' = r \<or> r' = unmatch_row r)"

lemma advances_refl [simp]: "advances r r"
  by (simp add: advances_def)

lemma row_final_unmatch [simp]: "row_final (unmatch_row r) = row_final r"
  by (simp add: row_final_def exhausted_def)

lemma unmatch_twice [simp]: "unmatch_row (unmatch_row r) = unmatch_row r"
  by (simp add: unmatch_row_def)

lemma advances_final: "advances r r' \<Longrightarrow> row_final r \<Longrightarrow> row_final r'"
  by (auto simp: advances_def)

lemma advances_trans:
  assumes a: "advances r r'" and b: "advances r' r''" shows "advances r r''"
proof -
  have "r'' = r \<or> r'' = unmatch_row r" if "row_final r"
  proof -
    have "r' = r \<or> r' = unmatch_row r" "r'' = r' \<or> r'' = unmatch_row r'"
      using a b advances_final [OF a that] that unfolding advances_def by blast+
    then show ?thesis by auto
  qed
  with a b show ?thesis unfolding advances_def by (simp add: order_trans)
qed

lemma advances_unmatch: "advances r (unmatch_row r)"
  by (simp add: advances_def)

lemma advances_claim: "claimable max_attempts l now r \<Longrightarrow> advances r (claim_row t r)"
  by (auto simp: advances_def claimable_def row_final_def exhausted_def)

lemma advances_processed: "being_processed i r \<Longrightarrow> advances r (processed_row t m r)"
  by (auto simp: advances_def being_processed_def row_final_def exhausted_def)

lemma advances_failed: "being_processed i r \<Longrightarrow> advances r (failed_row t m r)"
  by (auto simp: advances_def being_processed_def row_final_def exhausted_def)

section \<open>Databases\<close>

definition history :: "db \<Rightarrow> db \<Rightarrow> bool" where
  "history d d' \<longleftrightarrow>
     set (users d) \<subseteq> set (users d') \<and> (\<forall>r\<in>set (events d). \<exists>r'\<in>set (events d'). advances r r')"

lemma history_refl: "history d d"
  unfolding history_def by (blast intro: advances_refl)

lemma history_trans: "history d d' \<Longrightarrow> history d' d'' \<Longrightarrow> history d d''"
  unfolding history_def by (meson advances_trans subset_trans)

lemma history_same_events:
  "set (users d) \<subseteq> set (users d') \<Longrightarrow> set (events d') = set (events d) \<Longrightarrow> history d d'"
  unfolding history_def by (auto intro: advances_refl)

lemma history_update:
  assumes "\<And>r. r \<in> set (events d) \<Longrightarrow> p r \<Longrightarrow> advances r (f r)"
  shows "history d (d\<lparr>events := update_where p f (events d)\<rparr>)"
proof -
  have "\<exists>r'\<in>set (events (d\<lparr>events := update_where p f (events d)\<rparr>)). advances r r'"
    if r: "r \<in> set (events d)" for r
  proof (cases "p r")
    case True
    with r have "f r \<in> set (update_where p f (events d))" by (simp add: update_where_memI2)
    with assms [OF r True] show ?thesis by auto
  next
    case False
    with r have "r \<in> set (update_where p f (events d))" by (simp add: update_where_memI1)
    then show ?thesis by (auto intro: advances_refl)
  qed
  then show ?thesis by (simp add: history_def)
qed

lemma history_remove_rules: "history d (remove_rules p d)"
proof -
  let ?q = "\<lambda>e. case ev_matched_rule_id e of None \<Rightarrow> False
                 | Some m \<Rightarrow> m \<in> set (map r_id (filter p (alert_rules d)))"
  have "history d (d\<lparr>events := update_where ?q unmatch_row (events d)\<rparr>)"
    by (rule history_update) (rule advances_unmatch)
  then show ?thesis by (simp add: history_def remove_rules_def Let_def)
qed

lemma claimed_row_unique:
  assumes "keys_ok d" "r \<in> set (events d)" "e \<in> set (events d)" "ev_id e = ev_id r"
  shows "e = r"
  using assms by (auto simp: keys_ok_def dest: distinct_map_mem_eq)

lemma history_claim:
  assumes "keys_ok d" shows "history d (snd (sql_claim_next max_attempts l s d))"
proof (cases "snd (sql_claim_next max_attempts l s d) = d")
  case False
  then obtain r where r: "r \<in> set (events d)" "claimable max_attempts l (se_now s) r"
    "snd (sql_claim_next max_attempts l s d)
       = d\<lparr>events := update_where (\<lambda>e. ev_id e = ev_id r) (claim_row (se_now s)) (events d)\<rparr>"
    using claim_next_effect [of max_attempts l s d] by auto
  have "advances e (claim_row (se_now s) e)" if "e \<in> set (events d)" "ev_id e = ev_id r" for e
    using claimed_row_unique [OF assms r(1) that] r(2) advances_claim by simp
  then show ?thesis unfolding r(3) by (rule history_update)
qed (simp add: history_refl)

lemma history_step:
  assumes "server_step d d'" "keys_ok d" shows "history d d'"
  using assms
proof (cases rule: server_step.cases)
  case (user e h s)
  then show ?thesis using insert_user_effect [of e h s d] by (auto intro: history_same_events)
next
  case (refresh u h t s)
  then show ?thesis using insert_refresh_effect [of u h t s d] by (auto intro: history_same_events)
next
  case (consume h s)
  then show ?thesis using consume_effect [of h s d] by (auto intro: history_same_events)
next
  case (event u k ty p s)
  then show ?thesis using insert_event_effect [of u k ty p s d]
    by (auto simp: history_def intro: advances_refl)
next
  case (claim s)
  then show ?thesis using history_claim [OF assms(2), of 45 s] by (simp add: max_attempts_def)
next
  case (mark_processed i m s)
  then show ?thesis using mark_processed_effect [of i m s d]
    by (auto intro!: history_update advances_processed intro: history_refl)
next
  case (mark_failed i msg s)
  then show ?thesis using mark_failed_effect [of i msg s d]
    by (auto intro!: history_update advances_failed intro: history_refl)
next
  case (rule u nm ty thr en s)
  then show ?thesis using insert_rule_effect [of u nm ty thr en s d] by (auto intro: history_same_events)
next
  case (update_rule i u nm ty thr en s)
  then show ?thesis using update_rule_effect [of i u nm ty thr en s d] by (auto intro: history_same_events)
next
  case (delete_rule i u s)
  then show ?thesis using delete_rule_effect [of i u s d]
    by (auto intro: history_refl history_remove_rules)
next
  case (summary u h ids r s)
  then show ?thesis using insert_summary_effect [of u h ids r s d] by (auto intro: history_same_events)
next
  case reorder
  then have "set (users d') = set (users d)" "set (events d') = set (events d)"
    by (metis same_rows_def mset_eq_setD)+
  then show ?thesis by (simp add: history_same_events)
qed

section \<open>The contract\<close>

text \<open>From a good database only to good databases that keep its history.\<close>

definition safe_change :: "db \<Rightarrow> db \<Rightarrow> bool" where
  "safe_change d d' \<longleftrightarrow> (db_ok d \<longrightarrow> db_ok d' \<and> history d d')"

lemma db_ok_keys: "db_ok d \<Longrightarrow> keys_ok d"
  by (simp add: db_ok_def)

lemma safe_step: "server_step d d' \<Longrightarrow> safe_change d d'"
  unfolding safe_change_def using db_ok_step history_step by (blast dest: db_ok_keys)

lemma safe_refl: "safe_change d d"
  by (simp add: safe_change_def history_refl)

lemma safe_trans: "safe_change d d' \<Longrightarrow> safe_change d' d'' \<Longrightarrow> safe_change d d''"
  unfolding safe_change_def by (blast intro: history_trans)

interpretation safe: db_contract safe_change
  by unfold_locales
     (fact safe_refl, rule safe_trans, assumption+,
      (rule safe_step, rule server_step.intros)+)

lemma safe_steps: "server_step\<^sup>*\<^sup>* d d' \<Longrightarrow> safe_change d d'"
  by (induction rule: rtranclp_induct) (auto intro: safe_refl safe_trans safe_step)

end
