(* ===== verification/Queue.thy ===== *)
theory Queue
  imports History
begin

text \<open>
  The event queue as the worker sees it: what a claim does, the lease it gives, and the amount
  of work the queue can still cause.
\<close>

section \<open>Claims\<close>

text \<open>A claim takes a claimable row that was received first, and rewrites that row only; it
  finds nothing exactly when no row is claimable.\<close>

lemma claim_next_Inr:
  assumes "sql_claim_next n l s d = (Inr e, d')" "keys_ok d"
  obtains r rs where
    "claim_queue n l (se_now s) (events d) = r # rs"
    "r \<in> set (events d)" "claimable n l (se_now s) r"
    "\<forall>r'\<in>set (events d). claimable n l (se_now s) r' \<longrightarrow> ev_received_at r \<le> ev_received_at r'"
    "e = scan_event (claim_row (se_now s) r)"
    "d' = d\<lparr>events := update_where ((=) r) (claim_row (se_now s)) (events d)\<rparr>"
proof (cases "claim_queue n l (se_now s) (events d)")
  case Nil
  with assms show ?thesis by (simp add: sql_claim_next_def update_def)
next
  case (Cons r rs)
  note q = this [unfolded claim_queue_def]
  from order_asc_hd [OF q] have r: "r \<in> set (events d)" "claimable n l (se_now s) r"
    "\<forall>r'\<in>set (events d). claimable n l (se_now s) r' \<longrightarrow> ev_received_at r \<le> ev_received_at r'"
    by auto
  have "update_where (\<lambda>e. ev_id e = ev_id r) (claim_row (se_now s)) (events d)
      = update_where ((=) r) (claim_row (se_now s)) (events d)"
    unfolding update_where_def
    by (rule map_cong [OF refl]) (use claimed_row_unique [OF assms(2) r(1)] in auto)
  with Cons assms(1) r show ?thesis
    by (intro that [of r rs]) (auto simp: sql_claim_next_def update_def)
qed

lemma claim_next_None_iff:
  "fst (sql_claim_next n l s d) = Inl ErrNoRows \<longleftrightarrow>
     (\<forall>r\<in>set (events d). \<not> claimable n l (se_now s) r)"
proof -
  have "claim_queue n l (se_now s) (events d) = [] \<longleftrightarrow>
      (\<forall>r\<in>set (events d). \<not> claimable n l (se_now s) r)"
    by (simp add: claim_queue_def filter_empty_conv)
  then show ?thesis
    by (cases "claim_queue n l (se_now s) (events d)") (auto simp: sql_claim_next_def update_def)
qed

text \<open>The lease: a row that is being processed since \<open>t\<close> is not claimed before it ends.\<close>

definition leased :: "uuid \<Rightarrow> time \<Rightarrow> db \<Rightarrow> bool" where
  "leased i t d \<longleftrightarrow>
     (\<forall>r\<in>set (events d). ev_id r = i \<longrightarrow>
        ev_status r = Processing \<and> (\<exists>c. ev_claimed_at r = Some c \<and> t \<le> c))"

lemma leased_not_claimable:
  "leased i t d \<Longrightarrow> now < t + secs l \<Longrightarrow> r \<in> set (events d) \<Longrightarrow> claimable n l now r \<Longrightarrow> ev_id r \<noteq> i"
  by (auto simp: leased_def claimable_def)

lemma leased_claim:
  assumes "sql_claim_next n l s d = (Inr e, d')" "keys_ok d"
  shows "leased (ev_id e) (se_now s) d'"
  using assms
proof (rule claim_next_Inr)
  fix r assume "r \<in> set (events d)" and e: "e = scan_event (claim_row (se_now s) r)"
    and d': "d' = d\<lparr>events := update_where ((=) r) (claim_row (se_now s)) (events d)\<rparr>"
  then have "x = r" if "x \<in> set (events d)" "ev_id x = ev_id r" for x
    using claimed_row_unique [OF assms(2)] that by blast
  with e show ?thesis by (auto simp: leased_def d' set_update_where)
qed

text \<open>What the other sessions do while one of them holds the lease on \<open>i\<close> from \<open>t\<close>: anything but
  finish \<open>i\<close>, and no claim after the lease has run out.\<close>

inductive other_step :: "uuid \<Rightarrow> time \<Rightarrow> db \<Rightarrow> db \<Rightarrow> bool" for i t where
  user: "other_step i t d (snd (sql_insert_user e h s d))"
| refresh: "other_step i t d (snd (sql_insert_refresh u h x s d))"
| consume: "other_step i t d (snd (tx_consume_refresh h s d))"
| event: "other_step i t d (snd (sql_insert_event u k ty p s d))"
| claim: "se_now s < t + secs 45 \<Longrightarrow> other_step i t d (snd (sql_claim_next 5 45 s d))"
| mark_processed: "pg_uuid_in (se_pg s) j \<noteq> Some i \<Longrightarrow> other_step i t d (snd (sql_mark_processed j m s d))"
| mark_failed: "pg_uuid_in (se_pg s) j \<noteq> Some i \<Longrightarrow> other_step i t d (snd (sql_mark_failed j msg s d))"
| rule: "other_step i t d (snd (sql_insert_rule u nm ty thr en s d))"
| update_rule: "other_step i t d (snd (sql_update_rule j u nm ty thr en s d))"
| delete_rule: "other_step i t d (snd (sql_delete_rule j u s d))"
| summary: "other_step i t d (snd (sql_insert_summary u h ids r s d))"
| reorder: "same_rows d d' \<Longrightarrow> other_step i t d d'"

lemma other_step_server: "other_step i t d d' \<Longrightarrow> server_step d d'"
  by (induction rule: other_step.induct) (auto intro: server_step.intros)

text \<open>Holding a lease presupposes that the row exists, so an insert with its id fails.\<close>

definition has_event :: "uuid \<Rightarrow> db \<Rightarrow> bool" where
  "has_event i d \<longleftrightarrow> (\<exists>r\<in>set (events d). ev_id r = i)"

lemma has_event_history: "history d d' \<Longrightarrow> has_event i d \<Longrightarrow> has_event i d'"
  by (auto simp: history_def has_event_def advances_def)

lemma leased_same: "set (events d') = set (events d) \<Longrightarrow> leased i t d \<Longrightarrow> leased i t d'"
  by (simp add: leased_def)

lemma leased_update_other:
  assumes "leased i t d" "\<And>r. ev_id (f r) = ev_id r" "\<And>r. r \<in> set (events d) \<Longrightarrow> p r \<Longrightarrow> ev_id r \<noteq> i"
  shows "leased i t (d\<lparr>events := update_where p f (events d)\<rparr>)"
  unfolding leased_def
proof (intro ballI impI)
  fix r assume r: "r \<in> set (events (d\<lparr>events := update_where p f (events d)\<rparr>))" "ev_id r = i"
  from r(1) have "r \<in> set (update_where p f (events d))" by simp
  then have "r \<in> set (events d)"
    by (rule update_where_memE) (use assms r(2) in auto)
  with assms(1) r(2) show "ev_status r = Processing \<and> (\<exists>c. ev_claimed_at r = Some c \<and> t \<le> c)"
    by (simp add: leased_def)
qed

lemma mark_processed_other:
  "pg_uuid_in (se_pg s) j \<noteq> Some i \<Longrightarrow>
   snd (sql_mark_processed j m s d) = d \<or>
   (\<exists>p f. snd (sql_mark_processed j m s d) = d\<lparr>events := update_where p f (events d)\<rparr>
      \<and> (\<forall>r. ev_id (f r) = ev_id r) \<and> (\<forall>r. p r \<longrightarrow> ev_id r \<noteq> i))"
  unfolding sql_mark_processed_def update_snd bindE_def uuid_arg_def
  by (auto split: sum.splits option.splits if_splits simp: being_processed_def
      intro!: exI [of _ "being_processed (the (pg_uuid_in (se_pg s) j))"])

lemma mark_failed_other:
  "pg_uuid_in (se_pg s) j \<noteq> Some i \<Longrightarrow>
   snd (sql_mark_failed j msg s d) = d \<or>
   (\<exists>p f. snd (sql_mark_failed j msg s d) = d\<lparr>events := update_where p f (events d)\<rparr>
      \<and> (\<forall>r. ev_id (f r) = ev_id r) \<and> (\<forall>r. p r \<longrightarrow> ev_id r \<noteq> i))"
  unfolding sql_mark_failed_def update_snd bindE_def uuid_arg_def text_arg_def
  by (auto split: sum.splits option.splits if_splits simp: being_processed_def
      intro!: exI [of _ "being_processed (the (pg_uuid_in (se_pg s) j))"])

lemma leased_remove_rules: "leased i t d \<Longrightarrow> leased i t (remove_rules p d)"
  by (auto simp: leased_def remove_rules_def Let_def set_update_where)

lemma leased_step:
  "other_step i t d d' \<Longrightarrow> keys_ok d \<Longrightarrow> has_event i d \<Longrightarrow> leased i t d \<Longrightarrow> leased i t d'"
proof (induction rule: other_step.induct)
  case (event d u k ty p s)
  then show ?case using insert_event_effect [of u k ty p s d]
    by (auto simp: leased_def has_event_def) blast+
next
  case (claim s d)
  show ?case
  proof (cases "fst (sql_claim_next 5 45 s d)")
    case (Inl e)
    then have "snd (sql_claim_next 5 45 s d) = d"
      by (auto simp: sql_claim_next_def update_def split: list.splits)
    with claim show ?thesis by simp
  next
    case (Inr e)
    then have "sql_claim_next 5 45 s d = (Inr e, snd (sql_claim_next 5 45 s d))"
      by (metis prod.collapse)
    then show ?thesis
    proof (rule claim_next_Inr [OF _ claim.prems(1)])
      fix r assume r: "r \<in> set (events d)" "claimable 5 45 (se_now s) r"
        and d': "snd (sql_claim_next 5 45 s d) = d\<lparr>events := update_where ((=) r) (claim_row (se_now s)) (events d)\<rparr>"
      have "ev_id r \<noteq> i"
        using leased_not_claimable [OF claim.prems(3) claim.hyps r] .
      then show ?thesis unfolding d' by (intro leased_update_other claim.prems) auto
    qed
  qed
next
  case (mark_processed s j d m)
  then show ?case using mark_processed_other [of s j i m d] by (auto intro!: leased_update_other)
next
  case (mark_failed s j d msg)
  then show ?case using mark_failed_other [of s j i msg d] by (auto intro!: leased_update_other)
next
  case (delete_rule d j u s)
  then show ?case using delete_rule_effect [of j u s d] by (auto intro: leased_remove_rules)
next
  case (reorder d d')
  then have "set (events d') = set (events d)" by (metis same_rows_def mset_eq_setD)
  with reorder show ?case by (simp add: leased_same)
next
  case (user d e h s)
  then show ?case using insert_user_effect [of e h s d] by (auto intro: leased_same)
next
  case (refresh d u h x s)
  then show ?case using insert_refresh_effect [of u h x s d] by (auto intro: leased_same)
next
  case (consume d h s)
  then show ?case using consume_effect [of h s d] by (auto intro: leased_same)
next
  case (rule d u nm ty thr en s)
  then show ?case using insert_rule_effect [of u nm ty thr en s d] by (auto intro: leased_same)
next
  case (update_rule d j u nm ty thr en s)
  then show ?case using update_rule_effect [of j u nm ty thr en s d] by (auto intro: leased_same)
next
  case (summary d u h ids r s)
  then show ?case using insert_summary_effect [of u h ids r s d] by (auto intro: leased_same)
qed

lemma leased_steps:
  assumes "(other_step i t)\<^sup>*\<^sup>* d d'" "db_ok d" "has_event i d" "leased i t d"
  shows "db_ok d' \<and> has_event i d' \<and> leased i t d'"
  using assms
proof (induction rule: rtranclp_induct)
  case (step y z)
  then have "safe_change y z" by (intro safe_step other_step_server)
  with step show ?case
    by (auto simp: safe_change_def dest: db_ok_keys intro: leased_step has_event_history)
qed simp

section \<open>The work left\<close>

text \<open>How many more attempts a row can take, and a queue.\<close>

definition work :: "event_row \<Rightarrow> nat" where
  "work r = (if row_final r then 0 else nat (max_attempts - ev_attempt_count r))"

definition total_work :: "db \<Rightarrow> nat" where
  "total_work d = sum_list (map work (events d))"

lemma work_0:
  assumes "event_ok r" shows "work r = 0 \<longleftrightarrow> row_final r"
proof (cases "row_final r")
  case False
  with assms have "ev_attempt_count r < max_attempts"
    by (cases "ev_status r") (simp_all add: event_ok_def row_final_def exhausted_def max_attempts_def)
  with False show ?thesis by (simp add: work_def)
qed (simp add: work_def)

lemma total_work_0: "lifecycle_ok d \<Longrightarrow> total_work d = 0 \<longleftrightarrow> (\<forall>r\<in>set (events d). row_final r)"
  by (auto simp: lifecycle_ok_def total_work_def work_0)

lemma sum_list_update_one:
  assumes "distinct xs" "x \<in> set xs" "(g :: 'a \<Rightarrow> nat) (f x) < g x"
  shows "sum_list (map g (update_where ((=) x) f xs)) < sum_list (map g xs)"
  using assms
proof (induction xs)
  case (Cons a xs)
  show ?case
  proof (cases "a = x")
    case True
    with Cons.prems have "update_where ((=) x) f xs = xs" by (intro update_where_none) auto
    with True Cons.prems show ?thesis by (simp add: row_simps)
  qed (use Cons in \<open>auto simp: row_simps\<close>)
qed simp

end
