(* ===== verification/Worker_Spec.thy ===== *)
theory Worker_Spec
  imports Queue
begin

text \<open>
  An abstract specification of the worker, a queue whose oldest claimable row is given its
  verdict in one step, and the refinement: in a world without faults, \<open>processOne\<close> is this step,
  and a run of the worker, which waits for its ticker and for the delays of the queue, drains it.
\<close>

section \<open>The specification\<close>

definition candidates :: "db \<Rightarrow> event_row \<Rightarrow> rule list" where
  "candidates d r =
     order_asc r_created_at
       (filter (\<lambda>x. r_user_id x = ev_user_id r \<and> r_event_type x = ev_type r \<and> r_enabled x) (alert_rules d))"

text \<open>\<open>Inl\<close> why the payload is refused, or \<open>Inr\<close> the rule that matches first, if any.\<close>

definition verdict :: "db \<Rightarrow> event_row \<Rightarrow> string + uuid option" where
  "verdict d r =
     (case payload_amount (Some (ev_payload r)) of
        Inl e \<Rightarrow> Inl (error_text (\<lambda>_. []) e)
      | Inr a \<Rightarrow> Inr (first_match a (candidates d r)))"

fun completed :: "time \<Rightarrow> string + uuid option \<Rightarrow> event_row \<Rightarrow> event_row" where
  "completed t (Inl msg) r = failed_row t msg r"
| "completed t (Inr m) r = processed_row t m r"

text \<open>One step: claim at \<open>t1\<close>, complete at \<open>t2\<close>.\<close>

definition handle_next :: "time \<Rightarrow> time \<Rightarrow> db \<Rightarrow> (event_row \<times> db) option" where
  "handle_next t1 t2 d =
     (case claim_queue max_attempts 45 t1 (events d) of
        [] \<Rightarrow> None
      | r # _ \<Rightarrow>
          Some (r, d\<lparr>events := update_where ((=) r)
                     (\<lambda>x. completed t2 (verdict d r) (claim_row t1 x)) (events d)\<rparr>))"

text \<open>What the database returns of its own values is accepted as an argument: a uuid's output
  is uuid input for the same value, stored text is text, and so are the worker's messages.\<close>

definition refusals :: "string list" where
  "refusals = [''payload required'', ''payload must be a json object'', ''payload.amount must be a number'']"

definition readable :: "pg \<Rightarrow> db \<Rightarrow> bool" where
  "readable p d \<longleftrightarrow>
     (\<forall>e\<in>set (events d). pg_uuid_in p (ev_id e) = Some (ev_id e)
        \<and> pg_uuid_in p (ev_user_id e) = Some (ev_user_id e) \<and> pg_text_ok p (ev_type e))
   \<and> (\<forall>r\<in>set (alert_rules d). pg_uuid_in p (r_id r) = Some (r_id r))
   \<and> list_all (pg_text_ok p) refusals"

lemma payload_amount_error:
  "payload_amount x = Inl e \<Longrightarrow> \<exists>m\<in>set refusals. e = Errorf m"
  by (auto simp: payload_amount_def refusals_def split: option.splits)

lemma first_match_mem: "first_match a rs = Some i \<Longrightarrow> \<exists>r\<in>set rs. r_id r = i \<and> rule_matches a r"
  by (induction rs) (auto split: if_splits)

lemma completed_simps [simp]:
  "ev_id (completed t v r) = ev_id r"
  "event_key (completed t v r) = event_key r"
  "ev_user_id (completed t v r) = ev_user_id r"
  "ev_type (completed t v r) = ev_type r"
  by (cases v; simp)+

lemma completed_eq: "completed t (Inl msg) = failed_row t msg" "completed t (Inr m) = processed_row t m"
  by (simp_all add: fun_eq_iff)

section \<open>Statements of a quiet run\<close>

lemma mark_processed_claimed:
  assumes "keys_ok d" "r \<in> set (events d)" "ev_status r = Processing"
    and "pg_uuid_in (se_pg s) (ev_id r) = Some (ev_id r)"
    and "\<And>x. m = Some x \<Longrightarrow> pg_uuid_in (se_pg s) x = Some x \<and> rule_exists d x"
  shows "\<exists>n. n \<noteq> 0 \<and> sql_mark_processed (ev_id r) m s d =
    (Inr n, d\<lparr>events := update_where ((=) r) (processed_row (se_now s) m) (events d)\<rparr>)"
proof -
  have u: "uuid_opt_arg s m = Inr m"
    using assms(5) by (cases m) (auto simp: uuid_opt_arg_def uuid_arg_def)
  have w: "update_where (being_processed (ev_id r)) f (events d) = update_where ((=) r) f (events d)" for f
    unfolding update_where_def being_processed_def
    by (rule map_cong [OF refl]) (use claimed_row_unique [OF assms(1,2)] assms(3) in auto)
  have n: "count_where (being_processed (ev_id r)) (events d) \<noteq> 0"
    using assms(2,3) by (auto simp: count_where_0_iff being_processed_def)
  have "\<not> (\<exists>x\<in>set_option m. \<not> rule_exists d x)"
    using assms(5) by auto
  with n show ?thesis
    by (simp add: sql_mark_processed_def update_def uuid_arg_def assms(4) u w)
qed

lemma mark_failed_claimed:
  assumes "keys_ok d" "r \<in> set (events d)" "ev_status r = Processing" "ev_attempt_count r < max_attempts"
    and "pg_uuid_in (se_pg s) (ev_id r) = Some (ev_id r)" "pg_text_ok (se_pg s) msg"
  shows "sql_mark_failed (ev_id r) msg s d =
    (Inr (scan_event (failed_row (se_now s) msg r)),
     d\<lparr>events := update_where ((=) r) (failed_row (se_now s) msg) (events d)\<rparr>)"
proof -
  have w: "update_where (being_processed (ev_id r)) f (events d) = update_where ((=) r) f (events d)" for f
    unfolding update_where_def being_processed_def
    by (rule map_cong [OF refl]) (use claimed_row_unique [OF assms(1,2)] assms(3) in auto)
  have "List.find (being_processed (ev_id r)) (events d) = Some r"
  proof (cases "List.find (being_processed (ev_id r)) (events d)")
    case None
    with assms(2,3) show ?thesis by (auto simp: find_None_mem being_processed_def)
  next
    case (Some x)
    then have "x \<in> set (events d)" "ev_id x = ev_id r"
      by (auto dest!: find_Some_mem simp: being_processed_def)
    with Some show ?thesis using claimed_row_unique [OF assms(1,2)] by simp
  qed
  with assms(4-6) show ?thesis
    by (simp add: sql_mark_failed_def update_def uuid_arg_def text_arg_def w max_attempts_def)
qed

lemma enabled_rules_query:
  assumes "pg_uuid_in (se_pg s) (ev_user_id r) = Some (ev_user_id r)" "pg_text_ok (se_pg s) (ev_type r)"
  shows "sql_enabled_rules (ev_user_id r) (ev_type r) s d = (Inr (candidates d r), d)"
  using assms by (simp add: sql_enabled_rules_def query_def uuid_arg_def text_arg_def candidates_def)

text \<open>What is done to the claimed row is done to the row itself.\<close>

lemma update_where_twice:
  assumes "distinct rows" "r \<in> set rows" "f r \<notin> set rows \<or> f r = r"
  shows "update_where ((=) (f r)) g (update_where ((=) r) f rows) = update_where ((=) r) (\<lambda>x. g (f x)) rows"
  using assms unfolding update_where_def by (auto simp: fun_eq_iff)

section \<open>Completing a claimed row\<close>

fun counted :: "string + uuid option \<Rightarrow> stats \<Rightarrow> stats" where
  "counted (Inl msg) = inc_error"
| "counted (Inr m) = inc_processed"

text \<open>The clock does not run backwards.\<close>

definition steady :: "world \<Rightarrow> bool" where
  "steady w \<longleftrightarrow> (\<forall>k. 0 \<le> sl_elapsed (w_script w k))"

lemma steady_slot: "steady w \<Longrightarrow> 0 \<le> sl_elapsed (w_slot w)"
  by (simp add: steady_def w_slot_def)

lemma steady_elapse [simp]: "steady (elapse w) = steady w" "steady (w\<lparr>w_db := d\<rparr>) = steady w"
  by (simp_all add: steady_def)

text \<open>What a quiet operation leaves of the world around the database.\<close>

definition same_setting :: "world \<Rightarrow> world \<Rightarrow> bool" where
  "same_setting w w' \<longleftrightarrow> w_script w' = w_script w \<and> w_pg w' = w_pg w"

lemma same_setting_simps [simp]:
  "same_setting w w" "same_setting w ((elapse w')\<lparr>w_db := d\<rparr>) = same_setting w w'"
  "same_setting w (elapse w') = same_setting w w'"
  by (auto simp: same_setting_def)

lemma same_setting_quiet: "same_setting w w' \<Longrightarrow> quiet w' = quiet w" "same_setting w w' \<Longrightarrow> steady w' = steady w"
  by (simp_all add: same_setting_def quiet_def steady_def)

lemma finish_refused:
  assumes "quiet w" "keys_ok (w_db w)" "r \<in> set (events (w_db w))" "ev_status r = Processing"
    and "ev_attempt_count r < max_attempts" "readable (w_pg w) (w_db w)"
    and v: "verdict (w_db w) r = Inl msg"
  shows "finish (scan_event r) wk w =
    ((None, on_stats inc_error wk),
     (elapse w)\<lparr>w_db := (w_db w)\<lparr>events := update_where ((=) r)
        (failed_row (w_now (elapse w)) msg) (events (w_db w))\<rparr>\<rparr>)"
proof -
  obtain m where m: "payload_amount (Some (ev_payload r)) = Inl (Errorf m)" "m \<in> set refusals" "msg = m"
    using v by (auto simp: verdict_def split: sum.splits dest!: payload_amount_error)
  have "pg_uuid_in (w_pg w) (ev_id r) = Some (ev_id r)" "pg_text_ok (w_pg w) msg"
    using assms(3,6) m(2,3) by (auto simp: readable_def list_all_iff)
  with mark_failed_claimed [OF assms(2-5), of "w_sess w" msg]
  have q: "stmt (sql_mark_failed (ev_id r) msg) w =
      (Inr (scan_event (failed_row (w_now (elapse w)) msg r)),
       (elapse w)\<lparr>w_db := (w_db w)\<lparr>events := update_where ((=) r)
          (failed_row (w_now (elapse w)) msg) (events (w_db w))\<rparr>\<rparr>)"
    by (simp add: stmt_quiet [OF assms(1)])
  show ?thesis
    by (simp add: finish_def process_def m(1) m(3) [symmetric] error_textW_def mark_attempt_failed_def
        bindW_def q)
qed

lemma finish_accepted:
  assumes "quiet w" "keys_ok (w_db w)" "r \<in> set (events (w_db w))" "ev_status r = Processing"
    and "readable (w_pg w) (w_db w)"
    and v: "verdict (w_db w) r = Inr m"
  shows "finish (scan_event r) wk w =
    ((None, on_stats inc_processed wk),
     (elapse (elapse w))\<lparr>w_db := (w_db w)\<lparr>events := update_where ((=) r)
        (processed_row (w_now (elapse (elapse w))) m) (events (w_db w))\<rparr>\<rparr>)"
proof -
  obtain a where a: "payload_amount (Some (ev_payload r)) = Inr a"
    "m = first_match a (candidates (w_db w) r)"
    using v by (auto simp: verdict_def split: sum.splits)
  have r: "pg_uuid_in (w_pg w) (ev_id r) = Some (ev_id r)"
    "pg_uuid_in (w_pg w) (ev_user_id r) = Some (ev_user_id r)" "pg_text_ok (w_pg w) (ev_type r)"
    using assms(3,5) by (auto simp: readable_def)
  have q1: "stmt (sql_enabled_rules (ev_user_id r) (ev_type r)) w
      = (Inr (candidates (w_db w) r), elapse w)"
    using enabled_rules_query [of "w_sess w" r "w_db w"] r
    by (simp add: stmt_quiet [OF assms(1)])
       (simp add: elapse_def quiet_slot [OF assms(1)])
  have "pg_uuid_in (w_pg w) x = Some x \<and> rule_exists (w_db w) x" if "m = Some x" for x
    using first_match_mem [of a "candidates (w_db w) r" x] that a(2) assms(5)
    by (auto simp: candidates_def readable_def rule_exists_def)
  with mark_processed_claimed [OF assms(2-4), of "w_sess (elapse w)" m] r(1)
  obtain n where n: "n \<noteq> 0" "sql_mark_processed (ev_id r) m (w_sess (elapse w)) (w_db w) =
     (Inr n, (w_db w)\<lparr>events := update_where ((=) r) (processed_row (w_now (elapse (elapse w))) m)
        (events (w_db w))\<rparr>)"
    by auto
  then have q2: "stmt (sql_mark_processed (ev_id r) m) (elapse w) =
     (Inr n, (elapse (elapse w))\<lparr>w_db := (w_db w)\<lparr>events := update_where ((=) r)
        (processed_row (w_now (elapse (elapse w))) m) (events (w_db w))\<rparr>\<rparr>)"
    using assms(1) by (simp add: stmt_quiet quiet_slot)
  show ?thesis
    using n(1)
    by (simp add: finish_def process_def a(1) a(2) [symmetric] enabled_by_user_and_type_def
        mark_processed_def bindW_def q1 q2 wrap_err_def)
qed

text \<open>Both ways at once.\<close>

lemma finish_quiet:
  assumes "quiet w" "keys_ok (w_db w)" "r \<in> set (events (w_db w))" "ev_status r = Processing"
    and "ev_attempt_count r < max_attempts" "readable (w_pg w) (w_db w)"
  obtains w' where
    "finish (scan_event r) wk w = ((None, on_stats (counted (verdict (w_db w) r)) wk), w')"
    "w_db w' = (w_db w)\<lparr>events := update_where ((=) r)
        (completed (w_now w') (verdict (w_db w) r)) (events (w_db w))\<rparr>"
    "same_setting w w'" "steady w \<Longrightarrow> w_now w \<le> w_now w'"
proof (cases "verdict (w_db w) r")
  case (Inl msg)
  from finish_refused [OF assms this] show ?thesis
    by (intro that) (auto simp: Inl completed_eq steady_slot)
next
  case (Inr m)
  from finish_accepted [OF assms(1-4,6) this] show ?thesis
    by (intro that) (auto simp: Inr completed_eq steady_slot)
qed

section \<open>One step of the worker\<close>

definition claim_time :: "world \<Rightarrow> time" where
  "claim_time w = w_now w + sl_elapsed (w_slot w)"

lemma readable_claim:
  "readable p d \<Longrightarrow> readable p (d\<lparr>events := update_where q (claim_row t) (events d)\<rparr>)"
  by (auto simp: readable_def set_update_where)

lemma verdict_claim: "verdict (d\<lparr>events := x\<rparr>) (claim_row t r) = verdict d r"
  by (simp add: verdict_def candidates_def split: sum.split)

lemma claim_quiet:
  assumes "quiet w" "keys_ok (w_db w)"
    and "claim_queue max_attempts 45 (claim_time w) (events (w_db w)) = r # rs"
  shows "stmt (sql_claim_next max_attempts 45) w =
    (Inr (scan_event (claim_row (claim_time w) r)),
     (elapse w)\<lparr>w_db := (w_db w)\<lparr>events :=
        update_where ((=) r) (claim_row (claim_time w)) (events (w_db w))\<rparr>\<rparr>)"
proof -
  have q: "sql_claim_next max_attempts 45 (w_sess w) (w_db w) =
      (Inr (scan_event (claim_row (claim_time w) r)), snd (sql_claim_next max_attempts 45 (w_sess w) (w_db w)))"
    using assms(3) by (simp add: sql_claim_next_def update_def claim_time_def)
  from claim_next_Inr [OF q assms(2)]
  have "snd (sql_claim_next max_attempts 45 (w_sess w) (w_db w)) =
      (w_db w)\<lparr>events := update_where ((=) r) (claim_row (claim_time w)) (events (w_db w))\<rparr>"
    using assms(3) by (auto simp: claim_time_def)
  with q show ?thesis by (simp add: stmt_quiet [OF assms(1)])
qed

lemma claim_queue_hd:
  assumes "claim_queue n l now rows = r # rs"
  shows "r \<in> set rows" "claimable n l now r"
  using order_asc_hd(1) [OF assms [unfolded claim_queue_def]] by auto

text \<open>The process delay only lets time pass.\<close>

lemma await_quiet:
  assumes "quiet w"
  obtains w' where "(if delay > 0 then await_delay delay else returnW False) w = (False, w')"
    "w_db w' = w_db w" "same_setting w w'" "steady w \<Longrightarrow> w_now w \<le> w_now w'"
proof (cases "delay > 0")
  case True
  let ?w = "(elapse w)\<lparr>w_now := w_now w + max (delay div 1000) (sl_elapsed (w_slot w))\<rparr>"
  from True have "0 \<le> delay div 1000" by (simp add: pos_imp_zdiv_nonneg_iff)
  then show ?thesis
    using True assms by (intro that [of ?w]) (simp_all add: await_delay_def quiet_slot same_setting_def Let_def)
qed (use that [of w] in simp)

lemma process_one_handles:
  assumes "quiet w" "db_ok (w_db w)" "readable (w_pg w) (w_db w)"
    and q: "claim_queue max_attempts 45 (claim_time w) (events (w_db w)) = r # rs"
  obtains w' where
    "process_one wk w = (((True, None), on_stats (counted (verdict (w_db w) r)) wk), w')"
    "handle_next (claim_time w) (w_now w') (w_db w) = Some (r, w_db w')"
    "same_setting w w'" "steady w \<Longrightarrow> w_now w \<le> w_now w'"
proof -
  let ?t = "claim_time w" and ?d = "w_db w"
  let ?d1 = "?d\<lparr>events := update_where ((=) r) (claim_row ?t) (events ?d)\<rparr>"
  let ?w1 = "(elapse w)\<lparr>w_db := ?d1\<rparr>" and ?r1 = "claim_row ?t r"
  note keys = db_ok_keys [OF assms(2)] and r = claim_queue_hd [OF q]
  have step: "stmt (sql_claim_next max_attempts 45) w = (Inr (scan_event ?r1), ?w1)"
    using claim_quiet [OF assms(1) keys q] .
  have "quiet ?w1" using assms(1) by simp
  then obtain w2 where w2:
    "(if wk_process_delay wk > 0 then await_delay (wk_process_delay wk) else returnW False) ?w1 = (False, w2)"
    "w_db w2 = ?d1" "same_setting ?w1 w2" "steady w \<Longrightarrow> w_now ?w1 \<le> w_now w2"
    using await_quiet [of ?w1 "wk_process_delay wk"] by simp metis
  have "event_ok r" using assms(2) r(1) by (simp add: db_ok_def lifecycle_ok_def)
  with r(2) have "event_ok ?r1" by (intro event_ok_claim)
  then have att: "ev_attempt_count ?r1 < max_attempts" by (simp add: event_ok_def)
  have "quiet w2" "keys_ok (w_db w2)" "?r1 \<in> set (events (w_db w2))" "readable (w_pg w2) (w_db w2)"
    using assms(1,3) keys r(1) w2(2,3)
    by (simp_all add: keys_ok_update_events update_where_memI2 readable_claim same_setting_def quiet_def)
  from finish_quiet [OF this(1-3) _ att this(4), of wk]
  obtain w' where f: "finish (scan_event ?r1) wk w2 = ((None, on_stats (counted (verdict ?d r)) wk), w')"
      "w_db w' = ?d1\<lparr>events := update_where ((=) ?r1) (completed (w_now w') (verdict ?d r)) (events ?d1)\<rparr>"
      "same_setting w2 w'" "steady w2 \<Longrightarrow> w_now w2 \<le> w_now w'"
    using w2(2) by (auto simp: verdict_claim)
  have "distinct (events ?d)" using keys by (auto simp: keys_ok_def distinct_map)
  moreover have "?r1 \<notin> set (events ?d) \<or> ?r1 = r"
    using claimed_row_unique [OF keys r(1), of ?r1] by auto
  ultimately have db: "w_db w' = ?d\<lparr>events := update_where ((=) r)
      (\<lambda>x. completed (w_now w') (verdict ?d r) (claim_row ?t x)) (events ?d)\<rparr>"
    using r(1) by (simp add: f(2) update_where_twice)
  show ?thesis
  proof (rule that)
    show "process_one wk w = (((True, None), on_stats (counted (verdict ?d r)) wk), w')"
      using w2(1) f(1) by (simp add: process_one_def claim_next_eq bindW_def step)
    show "handle_next ?t (w_now w') ?d = Some (r, w_db w')"
      by (simp add: handle_next_def q db)
    show "same_setting w w'" using f(3) w2(3) by (simp add: same_setting_def)
    show "w_now w \<le> w_now w'" if s: "steady w"
    proof -
      have "steady w2" using s same_setting_quiet(2) [OF w2(3)] by simp
      from f(4) [OF this] w2(4) [OF s] steady_slot [OF s] show ?thesis by simp
    qed
  qed
qed

lemma process_one_idle:
  assumes "quiet w" "claim_queue max_attempts 45 (claim_time w) (events (w_db w)) = []"
  shows "process_one wk w = (((False, None), wk), elapse w)"
  using assms(2)
  by (simp add: process_one_def claim_next_eq bindW_def stmt_quiet [OF assms(1)] sql_claim_next_def
      update_def claim_time_def) (simp add: elapse_def quiet_slot [OF assms(1)])

section \<open>Draining the queue\<close>

text \<open>No column holds a time after \<open>now\<close>.\<close>

definition settled :: "time \<Rightarrow> db \<Rightarrow> bool" where
  "settled now d \<longleftrightarrow>
     (\<forall>r\<in>set (events d). ev_received_at r \<le> now
        \<and> (\<forall>t\<in>set_option (ev_processed_at r). t \<le> now)
        \<and> (\<forall>t\<in>set_option (ev_claimed_at r). t \<le> now))"

lemma backoff_le: "n < max_attempts \<Longrightarrow> backoff_secs n \<le> 8"
  by (simp add: backoff_secs_def max_attempts_def)

lemma unfinished_claimable:
  assumes "event_ok r" "\<not> row_final r" "settled t d" "r \<in> set (events d)" "t + secs 45 \<le> now"
  shows "claimable max_attempts 45 now r"
proof (cases "ev_status r")
  case Failed
  then have a: "ev_attempt_count r < max_attempts"
    using assms(2) by (simp add: row_final_def exhausted_def)
  obtain p where "ev_processed_at r = Some p" "p \<le> t"
    using assms(1,3,4) Failed by (auto simp: event_ok_def settled_def)
  moreover have "t \<le> now - secs (backoff_secs (ev_attempt_count r))"
    using backoff_le [OF a] assms(5) by (simp add: secs_def)
  ultimately show ?thesis using Failed a by (simp add: claimable_def)
qed (use assms in \<open>auto simp: claimable_def event_ok_def settled_def row_final_def\<close>)

lemma claimable_not_final: "claimable max_attempts l now r \<Longrightarrow> \<not> row_final r"
  by (auto simp: claimable_def row_final_def exhausted_def)

lemma work_completed:
  assumes "event_ok r" "claimable max_attempts l now r"
  shows "work (completed t2 v (claim_row t1 r)) < work r"
proof -
  have "\<not> row_final r" using assms(2) by (rule claimable_not_final)
  moreover have "ev_attempt_count r < max_attempts"
    using event_ok_claim [OF assms] by (simp add: event_ok_def)
  ultimately show ?thesis
    by (cases v) (auto simp: work_def row_final_def exhausted_def max_attempts_def)
qed

lemma handle_next_SomeD:
  assumes "handle_next t1 t2 d = Some (r, d')"
  shows "r \<in> set (events d)" "claimable max_attempts 45 t1 r"
    "d' = d\<lparr>events := update_where ((=) r)
       (\<lambda>x. completed t2 (verdict d r) (claim_row t1 x)) (events d)\<rparr>"
  using assms by (auto simp: handle_next_def dest: claim_queue_hd split: list.splits)

lemma handle_next_work:
  assumes "handle_next t1 t2 d = Some (r, d')" "db_ok d"
  shows "total_work d' < total_work d"
proof -
  note h = handle_next_SomeD [OF assms(1)]
  have "distinct (events d)" "event_ok r"
    using assms(2) h(1) by (auto simp: db_ok_def keys_ok_def distinct_map lifecycle_ok_def)
  with sum_list_update_one [OF _ h(1)] work_completed [OF _ h(2)] h(3)
  show ?thesis by (simp add: total_work_def)
qed

lemma handle_next_readable:
  "handle_next t1 t2 d = Some (r, d') \<Longrightarrow> readable p d \<Longrightarrow> readable p d'"
  by (drule handle_next_SomeD(3)) (auto simp: readable_def set_update_where)

lemma settled_later: "settled t d \<Longrightarrow> t \<le> t' \<Longrightarrow> settled t' d"
  by (fastforce simp: settled_def)

lemma completed_times:
  "ev_received_at (completed t v r) = ev_received_at r"
  "ev_processed_at (completed t v r) = Some t" "ev_claimed_at (completed t v r) = None"
  by (cases v; simp)+

lemma handle_next_settled:
  assumes "handle_next t1 t2 d = Some (r, d')" "settled t d" "t \<le> t2"
  shows "settled t2 d'"
  using settled_later [OF assms(2,3)]
  by (auto simp: handle_next_SomeD(3) [OF assms(1)] settled_def set_update_where completed_times)

text \<open>What a loop of the worker keeps.\<close>

definition calm :: "world \<Rightarrow> bool" where
  "calm w \<longleftrightarrow> quiet w \<and> db_ok (w_db w) \<and> readable (w_pg w) (w_db w)"

definition draining :: "world \<Rightarrow> bool" where
  "draining w \<longleftrightarrow> calm w \<and> steady w \<and> settled (w_now w) (w_db w)"

lemma calm_elapse: "calm w \<Longrightarrow> calm (elapse w) \<and> w_db (elapse w) = w_db w"
  by (simp add: calm_def quiet_slot)

lemma draining_later:
  "draining w \<Longrightarrow> w_now w \<le> t \<Longrightarrow> draining (w\<lparr>w_now := t\<rparr>)"
  by (auto simp: draining_def calm_def quiet_def steady_def intro: settled_later)

lemma draining_idle: "draining w \<Longrightarrow> draining (elapse w)"
  using calm_elapse [of w] steady_slot [of w]
  by (auto simp: draining_def intro: settled_later)

lemma quiet_env_ok: "quiet w \<Longrightarrow> (\<And>d. G d d) \<Longrightarrow> env_ok G w"
  by (simp add: quiet_def env_ok_def)

lemma quiet_db_ok:
  "keeps safe_change m \<Longrightarrow> quiet w \<Longrightarrow> db_ok (w_db w) \<Longrightarrow> db_ok (w_db (snd (m w)))"
  using keepsD(1) [of safe_change m w] quiet_env_ok [of w safe_change]
  by (auto simp: safe_refl safe_change_def)

text \<open>An empty queue, a lease after the last change: everything is final.\<close>

lemma all_final_if_idle:
  assumes "db_ok d" "settled t d" "t + secs 45 \<le> now" "claim_queue max_attempts 45 now (events d) = []"
  shows "total_work d = 0"
proof -
  have "row_final r" if r: "r \<in> set (events d)" for r
  proof (rule ccontr)
    assume "\<not> row_final r"
    moreover have "event_ok r" using assms(1) r by (simp add: db_ok_def lifecycle_ok_def)
    ultimately have "claimable max_attempts 45 now r"
      using unfinished_claimable assms(2,3) r by blast
    with assms(4) r show False by (simp add: claim_queue_def filter_empty_conv)
  qed
  then show ?thesis using assms(1) by (simp add: total_work_0 db_ok_def)
qed

lemma calm_step:
  assumes "calm w" "claim_queue max_attempts 45 (claim_time w) (events (w_db w)) = r # rs"
  obtains w' where
    "process_one wk w = (((True, None), on_stats (counted (verdict (w_db w) r)) wk), w')"
    "handle_next (claim_time w) (w_now w') (w_db w) = Some (r, w_db w')" "calm w'" "same_setting w w'"
    "draining w \<Longrightarrow> draining w'"
proof -
  have d: "quiet w" "db_ok (w_db w)" "readable (w_pg w) (w_db w)" using assms(1) by (auto simp: calm_def)
  from process_one_handles [OF d assms(2), of wk] obtain w' where
    w': "process_one wk w = (((True, None), on_stats (counted (verdict (w_db w) r)) wk), w')"
    "handle_next (claim_time w) (w_now w') (w_db w) = Some (r, w_db w')" "same_setting w w'"
    "steady w \<Longrightarrow> w_now w \<le> w_now w'" by blast
  have "db_ok (w_db w')"
    using quiet_db_ok [OF safe.keeps_process_one d(1,2), of wk] by (simp add: w'(1))
  then have "calm w'"
    using d(1,3) w'(2,3) handle_next_readable [OF w'(2)] by (auto simp: calm_def same_setting_def quiet_def)
  moreover have "draining w'" if "draining w"
    using that w'(4) handle_next_settled [OF w'(2), of "w_now w"] same_setting_quiet(2) [OF w'(3)] calculation
    by (auto simp: draining_def)
  ultimately show ?thesis using w'(1-3) by (intro that)
qed

section \<open>The counters\<close>

text \<open>Rows processed and attempts failed, as the database records them.\<close>

definition processed_rows :: "db \<Rightarrow> int" where
  "processed_rows d = sum_list (map (\<lambda>r. if ev_status r = Processed then 1 else 0) (events d))"

definition failures :: "db \<Rightarrow> int" where
  "failures d = sum_list (map ev_attempt_count (events d))"

definition tally :: "stats \<Rightarrow> db \<Rightarrow> 64 word \<times> 64 word" where
  "tally st d = (st_processed_total st - of_int (processed_rows d), st_error_total st - of_int (failures d))"

lemma sum_list_update_eq:
  assumes "distinct xs" "x \<in> set xs"
  shows "sum_list (map g (update_where ((=) x) f xs)) = sum_list (map g xs) - g x + (g (f x) :: int)"
  using assms
proof (induction xs)
  case (Cons a xs)
  show ?case
  proof (cases "a = x")
    case True
    with Cons.prems have "update_where ((=) x) f xs = xs" by (intro update_where_none) auto
    with True show ?thesis by (simp add: row_simps)
  qed (use Cons in \<open>auto simp: row_simps\<close>)
qed simp

lemma processed_rows_count: "processed_rows d = int (count_where (\<lambda>r. ev_status r = Processed) (events d))"
proof -
  have "sum_list (map (\<lambda>r. if ev_status r = Processed then 1 else 0) rs)
      = int (count_where (\<lambda>r. ev_status r = Processed) rs)" for rs :: "event_row list"
    by (induction rs) (simp_all add: count_where_def)
  then show ?thesis by (simp add: processed_rows_def)
qed

lemma handle_next_tally:
  assumes "handle_next t1 t2 d = Some (r, d')" "db_ok d"
  shows "tally (counted (verdict d r) st) d' = tally st d"
proof -
  note h = handle_next_SomeD [OF assms(1)]
  have "distinct (events d)"
    using assms(2) by (auto simp: db_ok_def keys_ok_def distinct_map)
  note sums = sum_list_update_eq [OF this h(1)]
  have "ev_status r \<noteq> Processed" using h(2) by (auto simp: claimable_def)
  then show ?thesis
    by (cases "verdict d r")
      (auto simp: tally_def processed_rows_def failures_def h(3) sums inc_error_def inc_processed_def)
qed

section \<open>Loops\<close>

lemma on_stats_simps [simp]:
  "wk_process_delay (on_stats f wk) = wk_process_delay wk" "wk_every (on_stats f wk) = wk_every wk"
  "wk_stats (on_stats f wk) = f (wk_stats wk)"
  by (simp_all add: on_stats_def)

text \<open>A tick either handles an event or finds the queue empty, and then nothing changes.\<close>

definition progresses :: "world \<Rightarrow> world \<Rightarrow> bool" where
  "progresses w w' \<longleftrightarrow> draining w' \<and> w_now w \<le> w_now w' \<and> total_work (w_db w') \<le> total_work (w_db w)"

lemma progresses_trans: "progresses w w' \<Longrightarrow> progresses w' w'' \<Longrightarrow> progresses w w''"
  by (simp add: progresses_def)

lemma process_one_progresses:
  assumes "draining w" "process_one wk w = (((ok, err), wk'), w')"
  shows "err = None \<and> progresses w w' \<and> (if ok then total_work (w_db w') < total_work (w_db w)
    else w_db w' = w_db w \<and> claim_queue max_attempts 45 (claim_time w) (events (w_db w)) = [])"
proof (cases "claim_queue max_attempts 45 (claim_time w) (events (w_db w))")
  case Nil
  have "quiet w" "steady w" using assms(1) by (simp_all add: draining_def calm_def)
  with process_one_idle [OF this(1) Nil, of wk] assms draining_idle [OF assms(1)] steady_slot [of w] Nil
  show ?thesis by (auto simp: progresses_def quiet_slot)
next
  case (Cons r rs)
  have calm: "calm w" using assms(1) by (simp add: draining_def)
  from process_one_handles [of w r rs wk] calm Cons obtain w1 where
    "process_one wk w = (((True, None), on_stats (counted (verdict (w_db w) r)) wk), w1)"
    "steady w \<Longrightarrow> w_now w \<le> w_now w1" unfolding calm_def by metis
  moreover obtain w2 where
    "process_one wk w = (((True, None), on_stats (counted (verdict (w_db w) r)) wk), w2)"
    "handle_next (claim_time w) (w_now w2) (w_db w) = Some (r, w_db w2)" "draining w2"
    using calm_step [OF calm Cons, of wk] assms(1) by metis
  moreover have "db_ok (w_db w)" "steady w" using assms(1) by (simp_all add: draining_def calm_def)
  ultimately show ?thesis
    using assms(2) handle_next_work [of "claim_time w" "w_now w2" "w_db w" r "w_db w2"]
    by (auto simp: progresses_def)
qed

lemma tick_loop_progresses:
  "draining w \<Longrightarrow> tick_loop n wk w = (wk', w') \<Longrightarrow> progresses w w'"
proof (induction n arbitrary: w wk)
  case (Suc n)
  obtain ok err wk1 w1 where p: "process_one wk w = (((ok, err), wk1), w1)" by (metis surj_pair)
  from process_one_progresses [OF Suc.prems(1) p] have p1: "err = None" "progresses w w1" by auto
  show ?case
  proof (cases ok)
    case True
    then have "tick_loop n wk1 w1 = (wk', w')" using Suc.prems(2) p p1(1) by (simp add: bindW_def)
    from Suc.IH [OF _ this] p1(2) show ?thesis by (auto simp: progresses_def)
  qed (use Suc.prems(2) p p1 in \<open>simp add: bindW_def\<close>)
qed (simp add: progresses_def)

lemma tick_progresses:
  assumes "draining w" "tick wk w = (wk', w')"
  shows "progresses w w' \<and> (total_work (w_db w') < total_work (w_db w) \<or>
    w_db w' = w_db w \<and> claim_queue max_attempts 45 (claim_time w) (events (w_db w)) = [])"
proof -
  let ?wk = "on_stats (mark_tick (w_now w)) wk"
  obtain ok err wk1 w1 where p: "process_one ?wk w = (((ok, err), wk1), w1)" by (metis surj_pair)
  note one = process_one_progresses [OF assms(1) p]
  obtain n where "batch_size = Suc n" by (cases batch_size) (simp_all add: batch_size_def)
  with assms(2) have t: "tick_loop (Suc n) ?wk w = (wk', w')" by (simp add: tick_def)
  show ?thesis
  proof (cases ok)
    case True
    then have "tick_loop n wk1 w1 = (wk', w')" using t p one by (simp add: bindW_def)
    from tick_loop_progresses [OF _ this] one True show ?thesis by (auto simp: progresses_def)
  qed (use t p one in \<open>simp add: bindW_def\<close>)
qed

lemma await_ticker_draining:
  assumes "draining w" "0 < period" "await_ticker period fire w = (fire', w')"
  shows "draining w' \<and> w_db w' = w_db w \<and> w_now w \<le> w_now w' \<and> fire \<le> w_now w' \<and> w_now w' < fire'
    \<and> fire + period \<le> fire'"
proof -
  let ?now = "max (w_now w) fire"
  have "?now - fire < period * ((?now - fire) div period + 1)"
    using assms(2) by (metis add.commute mult_div_mod_eq add_less_cancel_left pos_mod_bound distrib_left mult.right_neutral)
  moreover have "0 \<le> period * ((?now - fire) div period)"
    using assms(2) by (simp add: pos_imp_zdiv_nonneg_iff)
  ultimately show ?thesis
    using assms draining_later [OF assms(1), of ?now]
    by (auto simp: await_ticker_def Let_def next_fire_def distrib_left)
qed

text \<open>After a tick that changed nothing, 24 more intervals of two seconds are longer than a lease and
  than any retry delay; so 25 ticks finish at least one attempt, as long as one is left. \<open>j\<close> counts the
  ticks that are left of such a round.\<close>

lemma run_loop_finishes:
  "draining w \<Longrightarrow> settled t (w_db w) \<Longrightarrow> t \<le> w_now w \<Longrightarrow> 1 \<le> j \<Longrightarrow>
   25 \<le> j \<or> t + secs 45 \<le> fire + (int j - 1) * secs 2 \<Longrightarrow>
   25 * total_work (w_db w) + j \<le> k + 25 \<Longrightarrow>
   run_loop (secs 2) (replicate k TimerTick) fire wk w = (wk', w') \<Longrightarrow>
   draining w' \<and> total_work (w_db w') = 0"
proof (induction k arbitrary: w t j fire wk)
  case 0
  then show ?case by simp
next
  case (Suc k)
  obtain fire1 w1 where a: "await_ticker (secs 2) fire w = (fire1, w1)" by fastforce
  obtain wk2 w2 where b: "tick wk w1 = (wk2, w2)" by fastforce
  have pos: "0 < secs 2" by (simp add: secs_def)
  note w1 = await_ticker_draining [OF Suc.prems(1) pos a]
  with tick_progresses [OF _ b] have w2: "draining w2" "w_now w1 \<le> w_now w2"
    "total_work (w_db w2) \<le> total_work (w_db w)"
    "total_work (w_db w2) < total_work (w_db w) \<or> w_db w2 = w_db w
      \<and> claim_queue max_attempts 45 (claim_time w1) (events (w_db w)) = []"
    by (auto simp: progresses_def)
  have rest: "run_loop (secs 2) (replicate k TimerTick) fire1 wk2 w2 = (wk', w')"
    using Suc.prems(7) a b by (simp add: bindW_def)
  show ?case
  proof (cases "total_work (w_db w2) < total_work (w_db w)")
    case True
    have "settled (w_now w2) (w_db w2)" using w2(1) by (simp add: draining_def)
    with True Suc.prems(4,6) show ?thesis by (intro Suc.IH [OF w2(1) _ _ _ _ _ rest, of "w_now w2" 25]) auto
  next
    case False
    then have same: "w_db w2 = w_db w" "claim_queue max_attempts 45 (claim_time w1) (events (w_db w)) = []"
      using w2(4) by auto
    show ?thesis
    proof (cases "total_work (w_db w) = 0")
      case True
      then show ?thesis
        using same(1) w2 Suc.prems(2,3,6) w1
        by (intro Suc.IH [OF w2(1) _ _ _ _ _ rest, of "w_now w2" 25]) (auto simp: draining_def)
    next
      case more: False
      have "w_now w1 \<le> claim_time w1"
        using w1 steady_slot [of w1] by (simp add: claim_time_def draining_def)
      moreover have "db_ok (w_db w)" using Suc.prems(1) by (simp add: draining_def calm_def)
      ultimately have "\<not> t + secs 45 \<le> w_now w1"
        using all_final_if_idle [OF _ Suc.prems(2) _ same(2)] more by fastforce
      then have j: "2 \<le> j" "24 \<le> j - 1 \<or> t + secs 45 \<le> fire1 + (int (j - 1) - 1) * secs 2"
        using Suc.prems(3,4,5) w1 by (auto simp: secs_def)
      then have "t + secs 45 \<le> fire1 + (int (j - 1) - 1) * secs 2"
        using Suc.prems(3) w1 by (auto simp: secs_def)
      with j(1) Suc.prems(2,3,6) same(1) w1 w2(2) show ?thesis
        by (intro Suc.IH [OF w2(1) _ _ _ _ _ rest, of t "j - 1"]) auto
    qed
  qed
qed

lemma run_finishes:
  assumes "draining w" "wk_every wk = poll_every" "25 * total_work (w_db w) \<le> k"
    and "run (replicate k TimerTick) wk w = (wk', w')"
  shows "draining w' \<and> total_work (w_db w') = 0"
proof -
  obtain wk1 w1 where t: "tick wk w = (wk1, w1)" by fastforce
  from tick_progresses [OF assms(1) t] have w1: "draining w1" "total_work (w_db w1) \<le> total_work (w_db w)"
    by (auto simp: progresses_def)
  have "run_loop (secs 2) (replicate k TimerTick) (w_now w + secs 2) wk1 w1 = (wk', w')"
    using assms(2,4) t by (simp add: run_def bindW_nowW bindW_def [of "tick wk"] Let_def poll_every_def secs_def)
  with w1 assms(3) show ?thesis
    by (intro run_loop_finishes [OF w1(1) _ _ _ _ _ , of "w_now w1" 25]) (auto simp: draining_def)
qed

section \<open>A run of the worker, as steps of the queue\<close>

definition queue_step :: "db \<Rightarrow> db \<Rightarrow> bool" where
  "queue_step d d' \<longleftrightarrow> (\<exists>t1 t2 r. handle_next t1 t2 d = Some (r, d'))"

text \<open>Whatever the clock does: the database takes steps of the queue, and the counters count them.\<close>

definition served :: "worker \<Rightarrow> world \<Rightarrow> worker \<Rightarrow> world \<Rightarrow> bool" where
  "served wk w wk' w' \<longleftrightarrow> calm w' \<and> w_pg w' = w_pg w \<and> queue_step\<^sup>*\<^sup>* (w_db w) (w_db w')
     \<and> tally (wk_stats wk') (w_db w') = tally (wk_stats wk) (w_db w)"

lemma served_trans: "served wk w wk' w' \<Longrightarrow> served wk' w' wk'' w'' \<Longrightarrow> served wk w wk'' w''"
  by (auto simp: served_def)

lemma served_refl: "calm w \<Longrightarrow> served wk w wk w"
  by (simp add: served_def)

lemma process_one_served:
  assumes "calm w" "process_one wk w = (((ok, err), wk'), w')"
  shows "err = None \<and> served wk w wk' w'"
proof (cases "claim_queue max_attempts 45 (claim_time w) (events (w_db w))")
  case Nil
  have "quiet w" using assms(1) by (simp add: calm_def)
  with process_one_idle [OF this Nil, of wk] calm_elapse [OF assms(1)] assms show ?thesis
    by (auto simp: served_def)
next
  case (Cons r rs)
  obtain w1 where w1: "process_one wk w = (((True, None), on_stats (counted (verdict (w_db w) r)) wk), w1)"
    "handle_next (claim_time w) (w_now w1) (w_db w) = Some (r, w_db w1)" "calm w1" "same_setting w w1"
    by (rule calm_step [OF assms(1) Cons])
  have "db_ok (w_db w)" using assms(1) by (simp add: calm_def)
  moreover have "queue_step\<^sup>*\<^sup>* (w_db w) (w_db w1)"
    using w1(2) by (intro r_into_rtranclp) (auto simp: queue_step_def)
  ultimately show ?thesis
    using handle_next_tally [OF w1(2)] w1 assms(2) by (auto simp: served_def same_setting_def)
qed

lemma tick_loop_served:
  "calm w \<Longrightarrow> tick_loop n wk w = (wk', w') \<Longrightarrow> served wk w wk' w'"
proof (induction n arbitrary: w wk)
  case (Suc n)
  obtain ok err wk1 w1 where p: "process_one wk w = (((ok, err), wk1), w1)" by (metis surj_pair)
  from process_one_served [OF Suc.prems(1) p] have p1: "err = None" "served wk w wk1 w1" by auto
  show ?case
  proof (cases ok)
    case True
    then have "tick_loop n wk1 w1 = (wk', w')" using Suc.prems(2) p p1(1) by (simp add: bindW_def)
    from Suc.IH [OF _ this] p1(2) show ?thesis by (auto intro: served_trans simp: served_def)
  qed (use Suc.prems(2) p p1 in \<open>simp add: bindW_def\<close>)
qed (simp add: served_refl)

lemma tick_served:
  assumes "calm w" "tick wk w = (wk', w')" shows "served wk w wk' w'"
proof -
  have "tick_loop batch_size (on_stats (mark_tick (w_now w)) wk) w = (wk', w')"
    using assms(2) by (simp add: tick_def)
  from tick_loop_served [OF assms(1) this] show ?thesis
    by (simp add: served_def tally_def mark_tick_def)
qed

lemma run_loop_served:
  "calm w \<Longrightarrow> run_loop period es fire wk w = (wk', w') \<Longrightarrow> served wk w wk' w'"
proof (induction period es fire wk arbitrary: w rule: run_loop.induct)
  case (3 period es fire wk)
  obtain fire1 w1 where a: "await_ticker period fire w = (fire1, w1)" by fastforce
  obtain wk2 w2 where t: "tick wk w1 = (wk2, w2)" by fastforce
  have "calm w1 \<and> w_db w1 = w_db w \<and> w_pg w1 = w_pg w"
    using a 3(2) by (auto simp: await_ticker_def Let_def calm_def quiet_def)
  with tick_served [OF _ t] have "served wk w wk2 w2" by (auto simp: served_def)
  moreover have "run_loop period es fire1 wk2 w2 = (wk', w')" using 3(3) a t by (simp add: bindW_def)
  ultimately show ?case using 3(1) served_trans unfolding served_def by metis
qed (simp_all add: served_refl)

lemma run_served:
  assumes "calm w" "run es wk w = (wk', w')" shows "served wk w wk' w'"
proof -
  obtain wk1 w1 where t: "tick wk w = (wk1, w1)" by fastforce
  from tick_served [OF assms(1) t] have "served wk w wk1 w1" .
  moreover have "served wk1 w1 wk' w'"
    using calculation assms(2) t unfolding run_def
    by (intro run_loop_served) (auto simp: bindW_nowW bindW_def [of "tick wk"] Let_def served_def)
  ultimately show ?thesis by (rule served_trans)
qed

end
