(* ===== verification/Ingest_Spec.thy ===== *)
theory Ingest_Spec
  imports History
begin

text \<open>
  What \<open>POST /v1/webhooks/events\<close> guarantees: the signature check as a relation between header
  and body, and idempotent persistence under concurrent requests and lost messages.
\<close>

section \<open>Trimming what needs no trimming\<close>

definition plain :: "char \<Rightarrow> bool" where
  "plain c \<longleftrightarrow> 33 \<le> byte_of c \<and> byte_of c < 127"

lemma space_seqs_not_plain:
  "p \<in> set space_seqs \<Longrightarrow> \<not> plain (hd p) \<and> \<not> plain (last p)"
  by (auto simp: space_seqs_def plain_def byte_of_def)

lemma trim_space_plain:
  assumes "plain (hd s)" "plain (last s)" shows "trim_space s = s"
proof -
  have "clean_left space_seqs s"
    unfolding clean_left_def
    by (metis assms(1) hd_append2 prefix_def space_seqs_not_plain)
  moreover have "clean_left (map rev space_seqs) (rev s)"
    unfolding clean_left_def
  proof (intro ballI impI notI)
    fix q assume "q \<in> set (map rev space_seqs)" "q \<noteq> []" "prefix q (rev s)"
    then obtain p where p: "p \<in> set space_seqs" "p \<noteq> []" "suffix p s"
      by (auto simp: suffix_to_prefix)
    then have "last p = last s" by (auto simp: suffix_def)
    with space_seqs_not_plain [OF p(1)] assms(2) show False by simp
  qed
  ultimately show ?thesis by (simp add: trim_space_def strip_right_def strip_left_id)
qed

lemma hex_digit_plain: "c \<in> set ''0123456789abcdef'' \<Longrightarrow> plain c"
  by (auto simp: plain_def byte_of_def)

lemma hex_encode_plain: "c \<in> set (hex_encode s) \<Longrightarrow> plain c"
  using set_hex_encode hex_digit_plain by blast

section \<open>Signatures\<close>

lemma has_prefix_iff: "has_prefix s p \<longleftrightarrow> (\<exists>t. s = p @ t)"
  by (auto simp: has_prefix_def prefix_def)

lemma valid_signature_simp:
  "valid_signature secret msg header \<longleftrightarrow>
     (\<exists>hex. trim_space header = sig_prefix @ hex \<and> hex_decode hex = Some (hmac_sha256 secret msg))"
proof (cases "has_prefix (trim_space header) sig_prefix")
  case True
  then obtain hex where "trim_space header = sig_prefix @ hex" by (auto simp: has_prefix_iff)
  then show ?thesis
    by (auto simp: valid_signature_def Let_def split: option.splits)
qed (auto simp: valid_signature_def Let_def has_prefix_iff)

lemma sign_body_trim: "trim_space (sign_body secret msg) = sign_body secret msg"
proof (rule trim_space_plain)
  have "hex_encode (hmac_sha256 secret msg) \<noteq> []"
    using length_hmac_sha256 [of secret msg] length_hex_encode [of "hmac_sha256 secret msg"]
    by (metis length_0_conv mult_eq_0_iff zero_neq_numeral)
  then have "last (sign_body secret msg) \<in> set (hex_encode (hmac_sha256 secret msg))"
    by (simp add: sign_body_def)
  then show "plain (last (sign_body secret msg))" by (rule hex_encode_plain)
qed (simp add: sign_body_def sig_prefix_def plain_def byte_of_def)

section \<open>Ways through the handler\<close>

text \<open>An answer other than 400 or 401 came from the database, so the signature was valid and
  the body a complete request.\<close>

definition ingest_key :: "ingest_request \<Rightarrow> string" where
  "ingest_key req = trim_space (ig_idempotency_key req)"

definition ingest_input :: "uuid \<Rightarrow> ingest_request \<Rightarrow> create_input" where
  "ingest_input uid req =
     \<lparr>ci_user_id = uid, ci_idempotency_key = ingest_key req, ci_type = trim_space (ig_type req),
      ci_payload = Some (or_else (ig_payload req) (JObj []))\<rparr>"

lemma ingest_input_simps [simp]:
  "ci_user_id (ingest_input uid req) = uid"
  "ci_idempotency_key (ingest_input uid req) = ingest_key req"
  "ci_type (ingest_input uid req) = trim_space (ig_type req)"
  "ci_payload (ingest_input uid req) = Some (or_else (ig_payload req) (JObj []))"
  by (simp_all add: ingest_input_def)

text \<open>The request a body stands for: signed, decoded and complete.\<close>

definition accepted_request ::
  "string \<Rightarrow> (string \<Rightarrow> bool) \<Rightarrow> request \<Rightarrow> ingest_request option" where
  "accepted_request secret time_ok rq =
     Option.bind (read_limited rq) (\<lambda>body.
       if valid_signature secret body (rq_signature rq)
       then Option.bind (Option.bind (json_unmarshal body) (decode_ingest_request time_ok)) (\<lambda>req.
         if ingest_key req = [] \<or> trim_space (ig_type req) = [] \<or> trim_space (ig_user_ref req) = []
         then None else Some req)
       else None)"

text \<open>What the handler does with such a request.\<close>

definition accept_event :: "ingest_request \<Rightarrow> response io" where
  "accept_event req =
     bindW (user_id_by_ref (trim_space (ig_user_ref req))) (\<lambda>r.
       case r of
         Inl e \<Rightarrow> returnW
           (if errors_is e ErrUnknownUserRef
            then write_error 404 ''unknown_user_ref'' ''user_ref not mapped''
            else write_error 500 ''internal_error'' ''lookup failed'')
       | Inr uid \<Rightarrow> bindW (create_pending (ingest_input uid req)) (\<lambda>r'. returnW
           (case r' of
              Inl e \<Rightarrow> write_error 500 ''internal_error'' ''could not persist event''
            | Inr (ev, created) \<Rightarrow>
                if created then write_json 202 (EventBody ev) else write_json 200 (EventBody ev))))"

lemma ingest_cases:
  "(accepted_request secret time_ok rq = None \<and>
      (\<exists>st c m. st \<in> {400, 401} \<and> ingest secret time_ok rq = returnW (write_error st c m)))
   \<or> (\<exists>req. accepted_request secret time_ok rq = Some req \<and>
      ingest secret time_ok rq =
        accept_event req)"
proof (cases "read_limited rq")
  case None
  then show ?thesis by (auto simp: accepted_request_def ingest_def)
next
  case (Some body)
  show ?thesis
  proof (cases "valid_signature secret body (rq_signature rq)")
    case False
    with Some show ?thesis by (auto simp: accepted_request_def ingest_def)
  next
    case valid: True
    show ?thesis
    proof (cases "Option.bind (json_unmarshal body) (decode_ingest_request time_ok)")
      case None
      with Some valid show ?thesis by (auto simp: accepted_request_def ingest_def)
    next
      case (Some req)
      show ?thesis
      proof (cases "ingest_key req = [] \<or> trim_space (ig_type req) = [] \<or> trim_space (ig_user_ref req) = []")
        case True
        with \<open>read_limited rq = Some body\<close> valid Some
        have "ingest secret time_ok rq = returnW (write_error 400 ''validation_error''
             ''idempotency_key, type, and user_ref required'')"
          unfolding ingest_def Let_def ingest_key_def by (simp only: option.case if_True not_True_eq_False if_False)
        with True \<open>read_limited rq = Some body\<close> valid Some show ?thesis
          by (auto simp: accepted_request_def)
      next
        case False
        with \<open>read_limited rq = Some body\<close> valid Some show ?thesis
          unfolding ingest_def Let_def accept_event_def ingest_input_def ingest_key_def accepted_request_def
          by (simp only: option.case Option.bind.bind_lunit if_True not_True_eq_False if_False) simp
      qed
    qed
  qed
qed

section \<open>What the statements saw\<close>

lemma env_ok_slot: "env_ok G w \<Longrightarrow> G d (sl_env (w_slot w) d)"
  by (simp add: env_ok_def w_slot_def)

lemma user_id_by_ref_Inr:
  assumes "user_id_by_ref ref w = (Inr uid, w')"
  shows "\<exists>u\<in>set (users (w_db w')). u_id u = uid \<and> u_user_ref u = Some ref"
proof -
  obtain w1 where s: "stmt (sql_user_by_ref ref) w = (Inr uid, w1)" "w' = w1"
    using assms by (auto simp: user_id_by_ref_def bindW_def split: prod.splits)
  from stmt_InrD [OF s(1)] s(2) show ?thesis
    by (auto simp: sql_user_by_ref_def query_def bindE_Inr_iff text_arg_def
        dest!: find_Some_mem split: if_splits)
qed

lemma insert_event_Inr:
  assumes "sql_insert_event uid k ty p s d = (Inr ev, d')"
  obtains u p' where "pg_uuid_in (se_pg s) uid = Some u" "\<forall>r\<in>set (events d). \<not> same_key u k r"
    "ev = scan_event (new_event s u k ty p')" "d' = d\<lparr>events := events d @ [new_event s u k ty p']\<rparr>"
    "\<forall>v. p = Some v \<longrightarrow> pg_jsonb_in (se_pg s) v = Some p'"
  using assms
  by (auto simp: sql_insert_event_def update_def bindE_def uuid_arg_def text_arg_def jsonb_arg_def
      split: sum.splits if_splits option.splits)

lemma event_by_key_Inr:
  assumes "sql_event_by_key uid k s d = (Inr ev, d')"
  obtains u r where "pg_uuid_in (se_pg s) uid = Some u" "r \<in> set (events d)" "same_key u k r"
    "ev = scan_event r" "d' = d"
proof -
  obtain u where u: "pg_uuid_in (se_pg s) uid = Some u"
    using assms by (cases "pg_uuid_in (se_pg s) uid") (simp_all add: sql_event_by_key_def query_def uuid_arg_def)
  moreover have k: "text_arg s k = Inr k"
    using assms u by (cases "pg_text_ok (se_pg s) k")
      (simp_all add: sql_event_by_key_def query_def uuid_arg_def text_arg_def)
  moreover obtain r where "List.find (same_key u k) (events d) = Some r"
    using assms u k by (cases "List.find (same_key u k) (events d)")
      (simp_all add: sql_event_by_key_def query_def uuid_arg_def one_row_def)
  moreover from calculation have "ev = scan_event r" "d' = d"
    using assms by (simp_all add: sql_event_by_key_def query_def uuid_arg_def one_row_def)
  ultimately have "pg_uuid_in (se_pg s) uid = Some u" "List.find (same_key u k) (events d) = Some r"
    "ev = scan_event r" "d' = d" by blast+
  then show thesis using find_Some_mem [of "same_key u k" "events d" r] by (intro that) auto
qed

lemma create_pending_frame:
  "w_script (snd (create_pending inp w)) = w_script w" "w_pg (snd (create_pending inp w)) = w_pg w"
  by (auto simp: create_pending_def get_by_idempotency_def bindW_def stmt_frame
      split: prod.splits sum.splits dest!: arg_cong [where f = snd])

lemma create_pending_stmt:
  assumes "create_pending inp w = (Inr (ev, True), w')"
  shows "stmt (sql_insert_event (ci_user_id inp) (ci_idempotency_key inp) (ci_type inp) (ci_payload inp)) w = (Inr ev, w')"
proof -
  let ?q = "sql_insert_event (ci_user_id inp) (ci_idempotency_key inp) (ci_type inp) (ci_payload inp)"
  obtain r w1 where w1: "stmt ?q w = (r, w1)" by fastforce
  show ?thesis
  proof (cases r)
    case (Inl e)
    obtain r2 w2 where "get_by_idempotency (ci_user_id inp) (ci_idempotency_key inp) w1 = (r2, w2)"
      by fastforce
    with assms w1 Inl show ?thesis
      by (cases r2) (simp_all add: create_pending_def bindW_def split: if_splits)
  next
    case (Inr x)
    with assms w1 show ?thesis by (simp add: create_pending_def bindW_def)
  qed
qed

text \<open>A created event is new; a replayed one was there. Both are in the database afterwards.\<close>

lemma create_pending_created:
  assumes "create_pending inp w = (Inr (ev, True), w')"
  obtains u r where "pg_uuid_in (w_pg w) (ci_user_id inp) = Some u"
    "\<forall>r\<in>set (events (sl_env (w_slot w) (w_db w))). \<not> same_key u (ci_idempotency_key inp) r"
    "events (w_db w') = events (sl_env (w_slot w) (w_db w)) @ [r]"
    "same_key u (ci_idempotency_key inp) r" "ev = scan_event r" "ev_status r = Pending"
    "ev_type r = ci_type inp" "\<forall>v. ci_payload inp = Some v \<longrightarrow> pg_jsonb_in (w_pg w) v = Some (ev_payload r)"
proof -
  from stmt_InrD [OF create_pending_stmt [OF assms]] show thesis
  proof (rule insert_event_Inr)
    let ?d = "sl_env (w_slot w) (w_db w)"
    fix u p'
    assume u: "pg_uuid_in (se_pg (w_sess w)) (ci_user_id inp) = Some u"
      and no: "\<forall>r\<in>set (events ?d). \<not> same_key u (ci_idempotency_key inp) r"
      and ev: "ev = scan_event (new_event (w_sess w) u (ci_idempotency_key inp) (ci_type inp) p')"
      and d: "w_db w' = ?d\<lparr>events := events ?d @ [new_event (w_sess w) u (ci_idempotency_key inp) (ci_type inp) p']\<rparr>"
      and p: "\<forall>v. ci_payload inp = Some v \<longrightarrow> pg_jsonb_in (se_pg (w_sess w)) v = Some p'"
    let ?r = "new_event (w_sess w) u (ci_idempotency_key inp) (ci_type inp) p'"
    show thesis
    proof (rule that [of u ?r])
      show "pg_uuid_in (w_pg w) (ci_user_id inp) = Some u" using u by simp
      show "\<forall>r\<in>set (events ?d). \<not> same_key u (ci_idempotency_key inp) r" by (fact no)
      show "events (w_db w') = events ?d @ [?r]" by (simp add: d)
      show "same_key u (ci_idempotency_key inp) ?r" by (simp add: same_key_def)
      show "ev = scan_event ?r" by (fact ev)
      show "ev_status ?r = Pending" "ev_type ?r = ci_type inp" by simp_all
      show "\<forall>v. ci_payload inp = Some v \<longrightarrow> pg_jsonb_in (w_pg w) v = Some (ev_payload ?r)"
        using p by simp
    qed
  qed
qed

lemma create_pending_replayed:
  assumes "create_pending inp w = (Inr (ev, False), w')"
  obtains u r where "pg_uuid_in (w_pg w) (ci_user_id inp) = Some u" "r \<in> set (events (w_db w'))"
    "same_key u (ci_idempotency_key inp) r" "ev = scan_event r"
proof -
  let ?q = "sql_insert_event (ci_user_id inp) (ci_idempotency_key inp) (ci_type inp) (ci_payload inp)"
  obtain r w1 where w1: "stmt ?q w = (r, w1)" by fastforce
  then have pg: "w_pg w1 = w_pg w" using stmt_frame(2) [of ?q w] by simp
  have "get_by_idempotency (ci_user_id inp) (ci_idempotency_key inp) w1 = (Inr ev, w')"
    using assms w1
    by (auto simp: create_pending_def bindW_def split: prod.splits sum.splits if_splits)
  then have "stmt (sql_event_by_key (ci_user_id inp) (ci_idempotency_key inp)) w1 = (Inr ev, w')"
    by (auto simp: get_by_idempotency_def bindW_def split: prod.splits)
  from stmt_InrD [OF this] show thesis
    by (rule event_by_key_Inr) (rule that, simp_all add: pg)
qed

section \<open>A successful delivery\<close>

lemma history_key:
  assumes "history d d'" "r \<in> set (events d)" "same_key i k r"
  shows "\<exists>r'\<in>set (events d'). same_key i k r' \<and> advances r r'"
proof -
  from assms(1,2) obtain r' where r': "r' \<in> set (events d')" "advances r r'"
    unfolding history_def by blast
  from r'(2) have "event_key r' = event_key r" by (simp add: advances_def)
  with assms(3) r' show ?thesis by (auto simp: same_key_iff)
qed

lemma same_key_unique:
  "keys_ok d \<Longrightarrow> r \<in> set (events d) \<Longrightarrow> r' \<in> set (events d) \<Longrightarrow> same_key i k r \<Longrightarrow> same_key i k r' \<Longrightarrow> r = r'"
  by (auto simp: keys_ok_def same_key_iff dest: distinct_map_mem_eq)

lemma user_ref_unique:
  assumes "keys_ok d" "u \<in> set (users d)" "u' \<in> set (users d)"
    and "u_user_ref u = Some t" "u_user_ref u' = Some t"
  shows "u = u'"
proof -
  have "u = u'" if "distinct (user_refs us)" "u \<in> set us" "u' \<in> set us" for us
    using that
  proof (induction us)
    case (Cons v us)
    then show ?case
      using assms(4,5) by (auto simp: user_refs_Cons set_user_refs split: option.splits)
  qed simp
  moreover have "distinct (user_refs (users d))" using assms(1) by (simp add: keys_ok_def)
  ultimately show ?thesis using assms(2,3) by blast
qed

text \<open>The two stages of an accepted request, with what other sessions and the network did.\<close>

lemma ingest_stages:
  assumes "ingest secret time_ok rq w = (rs, w')" "rs_status rs \<in> {200, 202}"
  obtains req uid w1 ev where
    "accepted_request secret time_ok rq = Some req"
    "user_id_by_ref (trim_space (ig_user_ref req)) w = (Inr uid, w1)"
    "create_pending (ingest_input uid req) w1 = (Inr (ev, rs_status rs = 202), w')"
    "rs_body rs = EventBody ev"
proof -
  from ingest_cases [of secret time_ok rq] show thesis
  proof (elim disjE conjE exE)
    fix st c m assume "st \<in> {400, 401}" "ingest secret time_ok rq = returnW (write_error st c m)"
    with assms show thesis by auto
  next
    fix req assume req: "accepted_request secret time_ok rq = Some req"
      and i: "ingest secret time_ok rq =
        accept_event req"
    obtain r w1 where w1: "user_id_by_ref (trim_space (ig_user_ref req)) w = (r, w1)" by fastforce
    show thesis
    proof (cases r)
      case (Inl e)
      with assms i w1 show thesis by (auto simp: accept_event_def bindW_def split: if_splits)
    next
      case (Inr uid)
      obtain r' w2 where w2: "create_pending (ingest_input uid req) w1 = (r', w2)" by fastforce
      show thesis
      proof (cases r')
        case (Inl e)
        with assms i w1 Inr w2 show thesis by (auto simp: accept_event_def bindW_def)
      next
        case (Inr ev_created)
        obtain ev c where "ev_created = (ev, c)" by fastforce
        with assms(1) i w1 \<open>r = Inr uid\<close> w2 Inr
        have "w' = w2" "rs = (if c then write_json 202 (EventBody ev) else write_json 200 (EventBody ev))"
          by (auto simp: accept_event_def bindW_def)
        with req w1 w2 Inr \<open>r = Inr uid\<close> \<open>ev_created = (ev, c)\<close> show thesis
          by (intro that [of req uid w1 ev]) auto
      qed
    qed
  qed
qed

lemma ingest_persists:
  assumes "ingest secret time_ok rq w = (rs, w')" "rs_status rs \<in> {200, 202}"
    and "env_ok safe_change w" "db_ok (w_db w)"
  obtains req u i r where
    "accepted_request secret time_ok rq = Some req"
    "u \<in> set (users (w_db w'))" "u_user_ref u = Some (trim_space (ig_user_ref req))"
    "pg_uuid_in (w_pg w) (u_id u) = Some i"
    "r \<in> set (events (w_db w'))" "same_key i (ingest_key req) r"
    "rs_body rs = EventBody (scan_event r)"
    "rs_status rs = 202 \<Longrightarrow> \<forall>r0\<in>set (events (w_db w)). \<not> same_key i (ingest_key req) r0"
proof -
  obtain req uid w1 ev where st: "accepted_request secret time_ok rq = Some req"
    "user_id_by_ref (trim_space (ig_user_ref req)) w = (Inr uid, w1)"
    "create_pending (ingest_input uid req) w1 = (Inr (ev, rs_status rs = 202), w')"
    "rs_body rs = EventBody ev"
    using ingest_stages [OF assms(1,2)] by blast
  obtain u where u: "u \<in> set (users (w_db w1))" "u_id u = uid"
    "u_user_ref u = Some (trim_space (ig_user_ref req))"
    using user_id_by_ref_Inr [OF st(2)] by blast
  have w1: "safe_change (w_db w) (w_db w1)" "env_ok safe_change w1" "w_pg w1 = w_pg w"
    using keepsD [OF safe.keeps_user_id_by_ref assms(3), of "trim_space (ig_user_ref req)"] st(2)
      stmt_frame(2) [of "sql_user_by_ref (trim_space (ig_user_ref req))" w]
    by (auto simp: user_id_by_ref_def bindW_def split: prod.splits)
  have ok1: "db_ok (w_db w1)" and h1: "history (w_db w) (w_db w1)"
    using w1(1) assms(4) by (auto simp: safe_change_def)
  have "safe_change (w_db w1) (w_db w')"
    using keepsD(1) [OF safe.keeps_create_pending w1(2), of "ingest_input uid req"] by (simp add: st(3))
  then have h2: "history (w_db w1) (w_db w')" using ok1 by (simp add: safe_change_def)
  have u': "u \<in> set (users (w_db w'))" using h2 u(1) by (auto simp: history_def)
  show thesis
  proof (cases "rs_status rs = 202")
    case True
    then have "create_pending (ingest_input uid req) w1 = (Inr (ev, True), w')" using st(3) by simp
    then show thesis
    proof (rule create_pending_created)
      fix i r
      assume c: "pg_uuid_in (w_pg w1) (ci_user_id (ingest_input uid req)) = Some i"
        "\<forall>r\<in>set (events (sl_env (w_slot w1) (w_db w1))). \<not> same_key i (ci_idempotency_key (ingest_input uid req)) r"
        "events (w_db w') = events (sl_env (w_slot w1) (w_db w1)) @ [r]"
        "same_key i (ci_idempotency_key (ingest_input uid req)) r" "ev = scan_event r"
      have "history (w_db w) (sl_env (w_slot w1) (w_db w1))"
        using h1 env_ok_slot [OF w1(2), of "w_db w1"] ok1 history_trans by (auto simp: safe_change_def)
      then have "\<forall>r0\<in>set (events (w_db w)). \<not> same_key i (ingest_key req) r0"
        using c(2) history_key by (fastforce simp: ingest_input_def)
      then show thesis
        using st(1,4) u u' c w1(3) by (intro that [of req u i r]) (auto simp: ingest_input_def)
    qed
  next
    case False
    then have "create_pending (ingest_input uid req) w1 = (Inr (ev, False), w')" using st(3) by simp
    then show thesis
    proof (rule create_pending_replayed)
      fix i r
      assume c: "pg_uuid_in (w_pg w1) (ci_user_id (ingest_input uid req)) = Some i"
        "r \<in> set (events (w_db w'))" "same_key i (ci_idempotency_key (ingest_input uid req)) r"
        "ev = scan_event r"
      then show thesis
        using st(1,4) u u' w1(3) False by (intro that [of req u i r]) (auto simp: ingest_input_def)
    qed
  qed
qed

text \<open>The same for a request that is known.\<close>

lemma ingest_persists_known:
  assumes "ingest secret time_ok rq w = (rs, w')" "rs_status rs \<in> {200, 202}"
    and "env_ok safe_change w" "db_ok (w_db w)" "accepted_request secret time_ok rq = Some req"
  obtains u i r where
    "u \<in> set (users (w_db w'))" "u_user_ref u = Some (trim_space (ig_user_ref req))"
    "pg_uuid_in (w_pg w) (u_id u) = Some i"
    "r \<in> set (events (w_db w'))" "same_key i (ingest_key req) r"
    "rs_body rs = EventBody (scan_event r)"
    "rs_status rs = 202 \<longrightarrow> (\<forall>r0\<in>set (events (w_db w)). \<not> same_key i (ingest_key req) r0)"
  using assms(1-4)
proof (rule ingest_persists)
  fix req' u i r
  assume "accepted_request secret time_ok rq = Some req'"
    "u \<in> set (users (w_db w'))" "u_user_ref u = Some (trim_space (ig_user_ref req'))"
    "pg_uuid_in (w_pg w) (u_id u) = Some i" "r \<in> set (events (w_db w'))" "same_key i (ingest_key req') r"
    "rs_body rs = EventBody (scan_event r)"
    "rs_status rs = 202 \<Longrightarrow> \<forall>r0\<in>set (events (w_db w)). \<not> same_key i (ingest_key req') r0"
  with assms(5) show thesis by (intro that [of u i r]) simp_all
qed

end
