(* ===== verification/Samples.thy ===== *)
theory Samples
  imports Worker_Spec Ingest_Spec
begin

text \<open>
  Concrete servers, worlds and databases. The theorems' hypotheses are shown to hold of them.
\<close>

text \<open>A server that reads every string as it is, and its sessions at a given time and uuid.\<close>

definition sample_pg :: pg where
  "sample_pg = \<lparr>pg_uuid_in = Some, pg_text_ok = (\<lambda>_. True), pg_jsonb_in = Some, pg_error_text = (\<lambda>_. ''driver error'')\<rparr>"

definition sample_sess :: "time \<Rightarrow> uuid \<Rightarrow> sess" where
  "sample_sess t u = \<lparr>se_now = t, se_uuid = u, se_pg = sample_pg\<rparr>"

lemma sample_pg_simps [simp]:
  "pg_uuid_in sample_pg = Some" "pg_text_ok sample_pg = (\<lambda>_. True)" "pg_jsonb_in sample_pg = Some"
  by (simp_all add: sample_pg_def)

lemma sample_sess_simps [simp]:
  "se_now (sample_sess t u) = t" "se_uuid (sample_sess t u) = u" "se_pg (sample_sess t u) = sample_pg"
  by (simp_all add: sample_sess_def)

text \<open>A user with a webhook reference, a rule, and events in the states of their lifecycle.\<close>

definition sample_user :: user_row where
  "sample_user = \<lparr>u_id = ''u1'', u_email = ''a@b'', u_password_hash = ''h'', u_created_at = 0, u_user_ref = Some ''ref1''\<rparr>"

definition sample_rule :: rule where
  "sample_rule = \<lparr>r_id = ''r1'', r_user_id = ''u1'', r_name = ''low'', r_event_type = ''custom'',
     r_threshold = Some 10, r_enabled = True, r_created_at = 0, r_updated_at = 0\<rparr>"

definition sample_event :: event_row where
  "sample_event = new_event (sample_sess 0 ''e1'') ''u1'' ''k1'' ''custom''
     (JObj [(''amount'', JNum (Num False ''5'' [] None))])"

definition sample_dead :: event_row where
  "sample_dead = \<lparr>ev_id = ''e2'', ev_user_id = ''u1'', ev_idempotency_key = ''k2'', ev_type = ''custom'',
     ev_payload = JArr [], ev_status = Failed, ev_attempt_count = 5,
     ev_last_error = Some ''payload must be a json object'', ev_matched_rule_id = None,
     ev_received_at = 0, ev_processed_at = Some 0, ev_claimed_at = None\<rparr>"

definition sample_db :: db where
  "sample_db = empty_db\<lparr>users := [sample_user], alert_rules := [sample_rule],
     events := [sample_event, sample_dead]\<rparr>"

definition sample_uuid :: "nat \<Rightarrow> uuid" where
  "sample_uuid k = CHR ''n'' # show_nat k"

definition sample_world :: "int \<Rightarrow> db \<Rightarrow> world" where
  "sample_world dt d =
     \<lparr>w_db = d, w_now = 0, w_pg = sample_pg,
      w_script = (\<lambda>k. \<lparr>sl_elapsed = dt, sl_uuid = sample_uuid k, sl_fault = Deliver, sl_env = id,
        sl_cancel = False\<rparr>),
      w_pc = 0\<rparr>"

lemma sample_uuid_new [simp]:
  "sample_uuid k \<noteq> ''e1''" "sample_uuid k \<noteq> ''e2''" "sample_uuid k \<noteq> ''u1''" "sample_uuid k \<noteq> ''r1''"
  "''e1'' \<noteq> sample_uuid k" "''e2'' \<noteq> sample_uuid k" "''u1'' \<noteq> sample_uuid k" "''r1'' \<noteq> sample_uuid k"
  by (simp_all add: sample_uuid_def)

lemma sample_uuid_inject [simp]: "sample_uuid j = sample_uuid k \<longleftrightarrow> j = k"
  by (auto simp: sample_uuid_def dest: show_nat_inj)

lemmas sample_defs = sample_db_def sample_user_def sample_rule_def sample_event_def sample_dead_def

lemma sample_world_simps [simp]:
  "w_db (sample_world dt d) = d" "w_now (sample_world dt d) = 0" "w_pg (sample_world dt d) = sample_pg"
  "w_pc (sample_world dt d) = 0" "sl_elapsed (w_script (sample_world dt d) k) = dt"
  "sl_fault (w_script (sample_world dt d) k) = Deliver" "sl_env (w_script (sample_world dt d) k) = id"
  "sl_uuid (w_script (sample_world dt d) k) = sample_uuid k"
  by (simp_all add: sample_world_def)

lemma sample_world_quiet [simp]: "quiet (sample_world dt d)"
  by (simp add: quiet_def sample_world_def)

lemma sample_db_ok: "db_ok sample_db"
  by (simp add: db_ok_def keys_ok_def refs_ok_def lifecycle_ok_def event_ok_def sample_defs empty_db_def
      new_event_def event_key_def user_refs_def List.map_filter_def user_exists_def rule_exists_def
      name_check_def char_length_def max_attempts_def)

lemma sample_readable: "readable sample_pg sample_db"
  by (simp add: readable_def list_all_iff)

lemma sample_calm: "calm (sample_world dt sample_db)"
  by (simp add: calm_def sample_db_ok sample_readable)

lemma sample_draining: "0 \<le> dt \<Longrightarrow> draining (sample_world dt sample_db)"
  by (simp add: draining_def sample_calm steady_def settled_def)
     (simp add: sample_defs new_event_def)

end
