(* ===== verification/Worker_Properties.thy ===== *)
theory Worker_Properties
  imports Samples
begin

text \<open>What the worker and its queue guarantee.\<close>

section \<open>Helper facts\<close>

lemma env_safe: "env_ok server_step\<^sup>*\<^sup>* w \<Longrightarrow> env_ok safe_change w"
  by (auto simp: env_ok_def intro: safe_steps)

lemma sample_env_ok: "env_ok server_step\<^sup>*\<^sup>* (sample_world dt d)"
  by (simp add: env_ok_def)

lemma work_le: "event_ok r \<Longrightarrow> work r \<le> 5"
  by (auto simp: work_def event_ok_def max_attempts_def split: status.splits)

lemma total_work_le: "lifecycle_ok d \<Longrightarrow> total_work d \<le> 5 * length (events d)"
proof -
  have "(\<forall>r\<in>set rs. event_ok r) \<Longrightarrow> sum_list (map work rs) \<le> 5 * length rs" for rs
    by (induction rs) (auto dest: work_le)
  then show "lifecycle_ok d \<Longrightarrow> ?thesis" by (simp add: lifecycle_ok_def total_work_def)
qed

lemma process_Inr:
  assumes "process ev w = (Inr m, w')"
  obtains u a where "pg_uuid_in (w_pg w) (ev_user_id ev) = Some u"
    "payload_amount (Some (ev_payload ev)) = Inr a"
    "m = first_match a (order_asc r_created_at (filter (\<lambda>r. r_user_id r = u \<and>
       r_event_type r = ev_type ev \<and> r_enabled r) (alert_rules (w_db w'))))"
proof (cases "payload_amount (Some (ev_payload ev))")
  case (Inl e)
  with assms show thesis by (simp add: process_def)
next
  case (Inr a)
  obtain r w1 where w1: "stmt (sql_enabled_rules (ev_user_id ev) (ev_type ev)) w = (r, w1)" by fastforce
  obtain rs where rs: "r = Inr rs" "m = first_match a rs" "w' = w1"
    using assms Inr w1
    by (cases r) (auto simp: process_def enabled_by_user_and_type_def bindW_def)
  with w1 have "stmt (sql_enabled_rules (ev_user_id ev) (ev_type ev)) w = (Inr rs, w')" by simp
  from stmt_InrD [OF this] have q: "sql_enabled_rules (ev_user_id ev) (ev_type ev) (w_sess w) (sl_env (w_slot w) (w_db w))
      = (Inr rs, w_db w')" .
  then obtain u where "pg_uuid_in (w_pg w) (ev_user_id ev) = Some u"
    by (cases "pg_uuid_in (w_pg w) (ev_user_id ev)")
       (simp_all add: sql_enabled_rules_def query_def uuid_arg_def)
  with q Inr rs(2) show thesis
    by (intro that [of u a])
       (auto simp: sql_enabled_rules_def query_def uuid_arg_def text_arg_def split: if_splits)
qed

lemma first_match_least:
  assumes "first_match a (order_asc k rows) = Some i"
  shows "\<exists>x\<in>set rows. r_id x = i \<and> rule_matches a x \<and>
    (\<forall>y\<in>set rows. k y < k x \<longrightarrow> \<not> rule_matches a y)"
proof -
  have "\<exists>x\<in>set rs. r_id x = i \<and> rule_matches a x \<and> (\<forall>y\<in>set rs. k y < k x \<longrightarrow> \<not> rule_matches a y)"
    if "first_match a rs = Some i" "sorted (map k rs)" for rs
    using that by (induction rs) (auto split: if_splits)
  from this [OF assms sorted_order_asc] show ?thesis by simp
qed

lemma sample_claim_time: "claim_time (sample_world dt d) = dt"
  by (simp add: claim_time_def w_slot_def)

section \<open>Refinement\<close>

text \<open>C1: in a world without faults (no lost message, no cancelled context, nobody else at work), one call of
  \<open>processOne\<close>, with any process delay, is one step of the abstract queue: it claims the oldest claimable
  row and completes that row with its verdict, counting it, or reports that there is nothing to do and changes nothing.\<close>

theorem process_one_refines:
  assumes "quiet w" "db_ok (w_db w)" "readable (w_pg w) (w_db w)"
  shows "case process_one wk w of (res, w') \<Rightarrow>
    (case handle_next (claim_time w) (w_now w') (w_db w) of
       None \<Rightarrow> res = ((False, None), wk) \<and> w_db w' = w_db w
     | Some (r, d') \<Rightarrow>
         res = ((True, None), on_stats (counted (verdict (w_db w) r)) wk) \<and> w_db w' = d')"
proof (cases "claim_queue max_attempts 45 (claim_time w) (events (w_db w))")
  case Nil
  with process_one_idle [OF assms(1) Nil] show ?thesis
    by (simp add: handle_next_def quiet_slot [OF assms(1)])
next
  case (Cons r rs)
  show ?thesis by (rule process_one_handles [OF assms Cons, of wk]) simp
qed

theorem process_one_refines_witness:
  "case process_one (new_with_delay 2500000000) (sample_world (secs 45) sample_db) of (res, w') \<Rightarrow>
    (case handle_next (secs 45) (w_now w') sample_db of
       None \<Rightarrow> res = ((False, None), new_with_delay 2500000000) \<and> w_db w' = sample_db
     | Some (r, d') \<Rightarrow>
         res = ((True, None), on_stats (counted (verdict sample_db r)) (new_with_delay 2500000000)) \<and> w_db w' = d')"
  using process_one_refines [of "sample_world (secs 45) sample_db" "new_with_delay 2500000000"]
  unfolding sample_world_simps sample_claim_time
  by (simp only: sample_world_quiet sample_db_ok sample_readable)

section \<open>Progress\<close>

text \<open>C6: in a world without faults, with statements of any length and any process delay, a worker that
  starts on any good database whose times are not in the future, whatever a crashed worker left in
  \<open>processing\<close>, waits out the leases and the retry delays and brings every event to its end, processed or failed
  five times: 125 ticks of its two-second ticker per event are enough. The clock must not run
  backwards, and PostgreSQL must accept its own values as arguments.\<close>

theorem worker_drains_queue:
  assumes "quiet w" "steady w" "db_ok (w_db w)" "settled (w_now w) (w_db w)" "readable (w_pg w) (w_db w)"
    and "wk = new_with_delay delay" "125 * length (events (w_db w)) \<le> k"
  shows "\<forall>r\<in>set (events (w_db (snd (run (replicate k TimerTick) wk w)))). row_final r"
proof -
  obtain wk' w' where r: "run (replicate k TimerTick) wk w = (wk', w')" by fastforce
  have d: "draining w" using assms(1-5) by (simp add: draining_def calm_def)
  have "25 * total_work (w_db w) \<le> k"
    using total_work_le [of "w_db w"] assms(3,7) by (simp add: db_ok_def)
  from run_finishes [OF d _ this r] assms(6) have "draining w' \<and> total_work (w_db w') = 0"
    by (simp add: new_with_delay_def)
  then have "lifecycle_ok (w_db w')" "total_work (w_db w') = 0" by (simp_all add: draining_def calm_def db_ok_def)
  then show ?thesis by (simp add: r total_work_0)
qed

theorem worker_drains_queue_witness:
  "list_all row_final (events (w_db (snd (run (replicate 250 TimerTick) (new_with_delay 2500000000)
     (sample_world 1 sample_db)))))"
  unfolding list_all_iff
  by (rule worker_drains_queue [OF _ _ _ _ _ refl])
     (use sample_draining [of 1] in \<open>simp_all add: draining_def calm_def sample_db_def\<close>)

text \<open>C35: in a world without faults, the worker's counters and the database agree: \<open>processed_total\<close> moves with
  the number of processed rows and \<open>error_total\<close> with the sum of the attempt counts, modulo
  \<open>2 ^ 64\<close>, over any run, stopped or not, with any process delay and any durations.\<close>

theorem counters_agree:
  assumes "quiet w" "db_ok (w_db w)" "readable (w_pg w) (w_db w)"
  shows "case run es wk w of (wk', w') \<Rightarrow>
    st_processed_total (wk_stats wk') - st_processed_total (wk_stats wk)
      = of_int (processed_rows (w_db w') - processed_rows (w_db w)) \<and>
    st_error_total (wk_stats wk') - st_error_total (wk_stats wk)
      = of_int (failures (w_db w') - failures (w_db w))"
proof -
  obtain wk' w' where r: "run es wk w = (wk', w')" by fastforce
  have "calm w" using assms by (simp add: calm_def)
  from run_served [OF this r] have "tally (wk_stats wk') (w_db w') = tally (wk_stats wk) (w_db w)"
    by (simp add: served_def)
  then show ?thesis by (auto simp: r tally_def algebra_simps)
qed

theorem counters_agree_witness:
  "case run [TimerTick, CtxDone] (new_with_delay 2500000000) (sample_world 1 sample_db) of (wk', w') \<Rightarrow>
    st_processed_total (wk_stats wk') - 0 = of_int (processed_rows (w_db w') - processed_rows sample_db) \<and>
    st_error_total (wk_stats wk') - 0 = of_int (failures (w_db w') - failures sample_db)"
  using counters_agree [of "sample_world 1 sample_db" "new_with_delay 2500000000" "[TimerTick, CtxDone]"]
  by (simp add: new_with_delay_def new_stats_def sample_db_ok sample_readable)

section \<open>No processed event is counted twice\<close>

lemma processed_rows_card:
  "keys_ok d \<Longrightarrow> processed_rows d = int (card (ev_id ` {r \<in> set (events d). ev_status r = Processed}))"
proof -
  assume "keys_ok d"
  then have d: "distinct (map ev_id (events d))" by (simp add: keys_ok_def)
  then have "distinct (filter (\<lambda>r. ev_status r = Processed) (events d))" by (simp add: distinct_map)
  then have "processed_rows d = int (card {r \<in> set (events d). ev_status r = Processed})"
    using distinct_card by (fastforce simp: processed_rows_count count_where_def)
  moreover have "inj_on ev_id {r \<in> set (events d). ev_status r = Processed}"
    using d by (auto simp: distinct_map intro: inj_on_subset)
  ultimately show ?thesis by (simp add: card_image)
qed

lemma processed_rows_grow:
  assumes "safe_change d d'" "db_ok d" shows "db_ok d' \<and> processed_rows d \<le> processed_rows d'"
proof -
  have d': "db_ok d'" "history d d'" using assms by (auto simp: safe_change_def)
  have "ev_id ` {r \<in> set (events d). ev_status r = Processed} \<subseteq> ev_id ` {r \<in> set (events d'). ev_status r = Processed}"
  proof
    fix i assume "i \<in> ev_id ` {r \<in> set (events d). ev_status r = Processed}"
    then obtain r where r: "r \<in> set (events d)" "ev_status r = Processed" "i = ev_id r" by auto
    then obtain r' where "r' \<in> set (events d')" "advances r r'" using d'(2) by (auto simp: history_def)
    moreover from this r(2) have "ev_status r' = Processed" "ev_id r' = ev_id r"
      by (auto simp: advances_def row_final_def unmatch_row_def)
    ultimately show "i \<in> ev_id ` {r \<in> set (events d'). ev_status r = Processed}" using r(3) by (intro image_eqI [of _ _ r']) simp_all
  qed
  then show ?thesis
    using d'(1) assms(2) by (simp add: processed_rows_card db_ok_keys card_mono)
qed

abbreviation good_world :: "world \<Rightarrow> bool" where
  "good_world w \<equiv> db_ok (w_db w) \<and> env_ok safe_change w"

lemma sql_mark_processed_Inr:
  "sql_mark_processed i m s d = (Inr n, d') \<Longrightarrow>
   \<exists>j t x. d' = d\<lparr>events := update_where (being_processed j) (processed_row t x) (events d)\<rparr>
     \<and> n = count_where (being_processed j) (events d)"
  by (cases "uuid_arg s i"; cases "uuid_opt_arg s m")
     (auto simp: sql_mark_processed_def update_def split: if_splits)

lemma mark_processed_credit:
  assumes "good_world w" "mark_processed i m w = (Inr (), w')"
  shows "processed_rows (w_db w) + 1 \<le> processed_rows (w_db w')"
proof -
  obtain n where n: "stmt (sql_mark_processed i m) w = (Inr n, w')" "n \<noteq> 0"
    using assms(2) by (auto simp: mark_processed_def bindW_def split: prod.splits sum.splits if_splits)
  let ?d = "sl_env (w_slot w) (w_db w)"
  have grow: "db_ok ?d" "processed_rows (w_db w) \<le> processed_rows ?d"
    using processed_rows_grow [of "w_db w" ?d] assms(1) by (auto simp: env_ok_def w_slot_def)
  have rows: "sum_list (map (\<lambda>r. if ev_status r = Processed then 1 else 0) (update_where (being_processed j) (processed_row t x) rs))
      = sum_list (map (\<lambda>r. if ev_status r = Processed then 1 else 0) rs) + int (count_where (being_processed j) rs)"
    for j t x and rs :: "event_row list"
    by (induction rs) (auto simp: update_where_def count_where_def being_processed_def)
  from stmt_InrD [OF n(1)] obtain j t x where
    "w_db w' = ?d\<lparr>events := update_where (being_processed j) (processed_row t x) (events ?d)\<rparr>"
    "n = count_where (being_processed j) (events ?d)"
    by (auto dest: sql_mark_processed_Inr)
  then have "processed_rows (w_db w') = processed_rows ?d + int n" by (simp add: processed_rows_def rows)
  with grow n(2) show ?thesis by linarith
qed

text \<open>What the worker counts has happened to as many rows.\<close>

definition credited :: "worker \<Rightarrow> world \<Rightarrow> worker \<Rightarrow> world \<Rightarrow> bool" where
  "credited wk w wk' w' \<longleftrightarrow> good_world w' \<and>
     (\<exists>n. st_processed_total (wk_stats wk') = st_processed_total (wk_stats wk) + of_nat n
        \<and> int n \<le> processed_rows (w_db w') - processed_rows (w_db w))"

lemma credited_trans:
  assumes "credited wk w wk' w'" "credited wk' w' wk'' w''" shows "credited wk w wk'' w''"
proof -
  obtain m n where
    "st_processed_total (wk_stats wk') = st_processed_total (wk_stats wk) + of_nat m"
    "int m \<le> processed_rows (w_db w') - processed_rows (w_db w)"
    "st_processed_total (wk_stats wk'') = st_processed_total (wk_stats wk') + of_nat n"
    "int n \<le> processed_rows (w_db w'') - processed_rows (w_db w')"
    using assms by (auto simp: credited_def)
  then show ?thesis
    using assms(2) unfolding credited_def by (intro conjI exI [of _ "m + n"]) simp_all
qed

lemma credited_good_world: "credited wk w wk' w' \<Longrightarrow> good_world w'"
  by (simp add: credited_def)

lemma credited_stats:
  "st_processed_total (wk_stats wk1) = st_processed_total (wk_stats wk) \<Longrightarrow>
   st_processed_total (wk_stats wk2) = st_processed_total (wk_stats wk') \<Longrightarrow>
   credited wk w wk' w' \<Longrightarrow> credited wk1 w wk2 w'"
  by (simp add: credited_def)

lemma credited_keeps:
  assumes "good_world w" "keeps safe_change m" "m w = (x, w')" shows "credited wk w wk w'"
  using keepsD [OF assms(2), of w] assms(1,3) processed_rows_grow [of "w_db w" "w_db w'"]
  by (auto simp: credited_def intro!: exI [of _ 0])

lemma error_stats [simp]: "st_processed_total (inc_error st) = st_processed_total st"
  "st_processed_total (mark_tick t st) = st_processed_total st"
  by (simp_all add: inc_error_def mark_tick_def)

lemma finish_credited:
  assumes "good_world w" "finish ev wk w = ((err, wk'), w')" shows "credited wk w wk' w'"
proof -
  have keep: "credited wk w wk w'"
    using credited_keeps [OF assms(1) safe.keeps_finish assms(2)] .
  obtain r w1 where p: "process ev w = (r, w1)" by fastforce
  have w1: "credited wk w wk w1" by (rule credited_keeps [OF assms(1) safe.keeps_process p])
  show ?thesis
  proof (cases "\<exists>m. r = Inr m \<and> fst (mark_processed (ev_id ev) m w1) = Inr ()")
    case True
    then obtain m where m: "r = Inr m" "mark_processed (ev_id ev) m w1 = (Inr (), w')" "wk' = on_stats inc_processed wk"
      using assms(2) p by (auto simp: finish_def bindW_def split: prod.splits)
    with mark_processed_credit [OF _ m(2)] w1 keep show ?thesis
      by (auto simp: credited_def inc_processed_def intro!: exI [of _ 1])
  next
    case False
    then have "st_processed_total (wk_stats wk') = st_processed_total (wk_stats wk)"
      using assms(2) p by (auto simp: finish_def bindW_def error_textW_def split: prod.splits sum.splits)
    then show ?thesis using credited_stats [OF refl _ keep] by simp
  qed
qed

lemma process_one_credited:
  assumes "good_world w" "process_one wk w = (((ok, err), wk'), w')" shows "credited wk w wk' w'"
proof (cases "\<exists>ev w2. fst (claim_next max_attempts w) = Inr ev \<and> (if wk_process_delay wk > 0
    then await_delay (wk_process_delay wk) else returnW False) (snd (claim_next max_attempts w)) = (False, w2)")
  case True
  let ?m = "bindW (claim_next max_attempts) (\<lambda>_. if wk_process_delay wk > 0
    then await_delay (wk_process_delay wk) else returnW False)"
  from True obtain ev w2 where w2: "?m w = (False, w2)" "finish ev wk w2 = ((err, wk'), w')"
    using assms(2) by (auto simp: process_one_def bindW_def split: prod.splits)
  have "keeps safe_change ?m" unfolding max_attempts_def
    by (intro safe.keeps_rules safe.keeps_await safe.keeps_store)
  from credited_keeps [OF assms(1) this w2(1)] have "credited wk w wk w2" .
  moreover from this finish_credited [OF _ w2(2)] have "credited wk w2 wk' w'" by (simp add: credited_def)
  ultimately show ?thesis by (rule credited_trans)
next
  case False
  then have "wk' = wk"
    using assms(2) by (auto simp: process_one_def bindW_def split: prod.splits sum.splits if_splits)
  with credited_keeps [OF assms(1) safe.keeps_process_one assms(2)] show ?thesis by simp
qed

lemma tick_loop_credited:
  "good_world w \<Longrightarrow> tick_loop n wk w = (wk', w') \<Longrightarrow> credited wk w wk' w'"
proof (induction n arbitrary: w wk)
  case 0
  then show ?case by (auto simp: credited_def intro!: exI [of _ 0])
next
  case (Suc n)
  obtain ok err wk1 w1 where p: "process_one wk w = (((ok, err), wk1), w1)" by (metis surj_pair)
  let ?wk1 = "if err \<noteq> None then on_stats inc_error wk1 else wk1"
  have w1: "credited wk w ?wk1 w1"
    by (rule credited_stats [OF refl _ process_one_credited [OF Suc.prems(1) p]]) simp
  show ?case
  proof (cases ok)
    case True
    then have "tick_loop n ?wk1 w1 = (wk', w')" using Suc.prems(2) p by (simp add: bindW_def Let_def)
    from credited_trans [OF w1 Suc.IH [OF credited_good_world [OF w1] this]] show ?thesis .
  next
    case False
    then show ?thesis using Suc.prems(2) p w1 by (simp add: bindW_def Let_def)
  qed
qed

lemma tick_credited:
  assumes "good_world w" "tick wk w = (wk', w')" shows "credited wk w wk' w'"
proof -
  have "tick_loop batch_size (on_stats (mark_tick (w_now w)) wk) w = (wk', w')"
    using assms(2) by (simp add: tick_def)
  from credited_stats [OF _ refl tick_loop_credited [OF assms(1) this], of wk] show ?thesis by simp
qed

lemma run_loop_credited:
  "good_world w \<Longrightarrow> run_loop period es fire wk w = (wk', w') \<Longrightarrow> credited wk w wk' w'"
proof (induction period es fire wk arbitrary: w rule: run_loop.induct)
  case (3 period es fire wk)
  obtain fire1 w1 where a: "await_ticker period fire w = (fire1, w1)" by fastforce
  obtain wk2 w2 where t: "tick wk w1 = (wk2, w2)" by fastforce
  have "good_world w1" "w_db w1 = w_db w"
    using a 3(2) by (auto simp: await_ticker_def Let_def env_ok_def)
  with tick_credited [OF _ t] have w2: "credited wk w wk2 w2" by (simp add: credited_def)
  have "run_loop period es fire1 wk2 w2 = (wk', w')" using 3(3) a t by (simp add: bindW_def)
  with 3(1) w2 have "credited wk2 w2 wk' w'" by (auto simp: credited_def)
  with w2 show ?case by (rule credited_trans)
qed (auto simp: credited_def intro!: exI [of _ 0])

text \<open>C40: whatever the other sessions do and whichever messages are lost or contexts cancelled, over any run the
  worker counts no more events as processed than the database gained processed rows. (The counter is modulo \<open>2 ^ 64\<close>; an event whose reply is lost is processed and not counted.)\<close>

theorem processed_never_overcounted:
  assumes "db_ok (w_db w)" "env_ok server_step\<^sup>*\<^sup>* w"
  shows "case run es wk w of (wk', w') \<Rightarrow>
    \<exists>n. st_processed_total (wk_stats wk') = st_processed_total (wk_stats wk) + of_nat n
      \<and> int n \<le> processed_rows (w_db w') - processed_rows (w_db w)"
proof -
  obtain wk' w' where r: "run es wk w = (wk', w')" by fastforce
  obtain wk1 w1 where t: "tick wk w = (wk1, w1)" by fastforce
  have "good_world w" using assms env_safe by simp
  from tick_credited [OF this t] have w1: "credited wk w wk1 w1" .
  have "credited wk1 w1 wk' w'"
    using w1 r t unfolding run_def
    by (intro run_loop_credited) (auto simp: bindW_nowW bindW_def [of "tick wk"] Let_def credited_def)
  from credited_trans [OF w1 this] show ?thesis by (simp add: r credited_def)
qed

theorem processed_never_overcounted_witness:
  "case run [TimerTick] new_worker (sample_world 1 sample_db) of (wk', w') \<Rightarrow>
    \<exists>n. st_processed_total (wk_stats wk') = 0 + of_nat n \<and> int n \<le> processed_rows (w_db w') - processed_rows sample_db"
  using processed_never_overcounted [of "sample_world 1 sample_db" new_worker "[TimerTick]"]
  by (simp add: sample_db_ok sample_env_ok new_worker_def new_with_delay_def new_stats_def)

section \<open>Any schedule\<close>

text \<open>Whatever the other sessions do and whichever messages are lost or contexts cancelled, a
  run of the worker leads from a good database to a good one that keeps its history: no user or event
  disappears, no event changes its identity, type, payload or arrival, attempts only grow, and what
  is processed or has failed five times stays so.\<close>

theorem worker_keeps_history:
  assumes "db_ok (w_db w)" "env_ok server_step\<^sup>*\<^sup>* w"
  shows "db_ok (w_db (snd (run es wk w))) \<and> history (w_db w) (w_db (snd (run es wk w)))"
  using keepsD(1) [OF safe.keeps_run env_safe [OF assms(2)], of es wk] assms(1)
  by (simp add: safe_change_def)

theorem worker_keeps_history_witness:
  "db_ok (w_db (snd (run [TimerTick] new_worker (sample_world 1 sample_db)))) \<and>
   history sample_db (w_db (snd (run [TimerTick] new_worker (sample_world 1 sample_db))))"
  using worker_keeps_history [of "sample_world 1 sample_db" "[TimerTick]" new_worker]
  by (simp add: sample_db_ok sample_env_ok)

section \<open>Claims\<close>

text \<open>C37: a claim takes a row that no claimable row was received before, marks that row as
  being processed from now, answers with it, and touches nothing else.\<close>

theorem claim_takes_oldest:
  assumes "sql_claim_next n l s d = (Inr e, d')" "keys_ok d"
  shows "\<exists>r\<in>set (events d). claimable n l (se_now s) r
    \<and> (\<forall>r'\<in>set (events d). claimable n l (se_now s) r' \<longrightarrow> ev_received_at r \<le> ev_received_at r')
    \<and> e = scan_event (r\<lparr>ev_status := Processing, ev_claimed_at := Some (se_now s)\<rparr>)
    \<and> d' = d\<lparr>events := map (\<lambda>x. if x = r then r\<lparr>ev_status := Processing, ev_claimed_at := Some (se_now s)\<rparr>
                                 else x) (events d)\<rparr>"
  using assms
proof (rule claim_next_Inr)
  fix r assume "r \<in> set (events d)" "claimable n l (se_now s) r"
    "\<forall>r'\<in>set (events d). claimable n l (se_now s) r' \<longrightarrow> ev_received_at r \<le> ev_received_at r'"
    "e = scan_event (claim_row (se_now s) r)"
    "d' = d\<lparr>events := update_where ((=) r) (claim_row (se_now s)) (events d)\<rparr>"
  then show ?thesis
    by (intro bexI [of _ r]) (auto simp: claim_row_def update_where_def intro: map_cong)
qed

theorem claim_takes_oldest_witness:
  "\<exists>r\<in>set (events sample_db). claimable 5 45 0 r
    \<and> scan_event (claim_row 0 sample_event) = scan_event (r\<lparr>ev_status := Processing, ev_claimed_at := Some 0\<rparr>)
    \<and> snd (sql_claim_next 5 45 (sample_sess 0 ''x'') sample_db)
        = sample_db\<lparr>events := map (\<lambda>x. if x = r then r\<lparr>ev_status := Processing, ev_claimed_at := Some 0\<rparr>
                                      else x) (events sample_db)\<rparr>"
proof -
  have "sql_claim_next 5 45 (sample_sess 0 ''x'') sample_db =
      (Inr (scan_event (claim_row 0 sample_event)), snd (sql_claim_next 5 45 (sample_sess 0 ''x'') sample_db))"
    by (simp add: sql_claim_next_def update_def claim_queue_def order_asc_def sample_defs claimable_def
        new_event_def)
  from claim_takes_oldest [OF this db_ok_keys [OF sample_db_ok]] show ?thesis
    unfolding sample_sess_simps by blast
qed

text \<open>A claim finds nothing exactly when no row is claimable.\<close>

theorem claim_finds_all:
  "fst (sql_claim_next n l s d) = Inl ErrNoRows \<longleftrightarrow>
     \<not> (\<exists>r\<in>set (events d). claimable n l (se_now s) r)"
  by (simp add: claim_next_None_iff)

text \<open>C2: while a lease runs nobody else claims the event: if a claim answered \<open>e\<close>, and then other
  sessions did anything but finish \<open>e\<close>, a claim less than 45 seconds later answers another event.\<close>

theorem no_double_claim:
  assumes "db_ok d" "sql_claim_next 5 45 s d = (Inr e, d1)"
    and "(other_step (ev_id e) (se_now s))\<^sup>*\<^sup>* d1 d2"
    and "sql_claim_next 5 45 s' d2 = (Inr e', d3)" "se_now s' < se_now s + secs 45"
  shows "ev_id e' \<noteq> ev_id e"
proof -
  have keys: "keys_ok d" using assms(1) by (rule db_ok_keys)
  have d1: "d1 = snd (sql_claim_next 5 45 s d)" using assms(2) by simp
  have ok: "db_ok d1"
    unfolding d1 by (rule db_ok_step [OF server_step.claim assms(1)])
  have l: "leased (ev_id e) (se_now s) d1" by (rule leased_claim [OF assms(2) keys])
  have "has_event (ev_id e) d1"
    using assms(2) keys
    by (rule claim_next_Inr)
       (auto simp: has_event_def intro!: bexI [of _ "claim_row (se_now s) _"] update_where_memI2)
  from leased_steps [OF assms(3) ok this l]
  have d2: "db_ok d2" "leased (ev_id e) (se_now s) d2" by auto
  from assms(4) db_ok_keys [OF d2(1)] show ?thesis
  proof (rule claim_next_Inr)
    fix r assume "r \<in> set (events d2)" "claimable 5 45 (se_now s') r" "e' = scan_event (claim_row (se_now s') r)"
    then show ?thesis using leased_not_claimable [OF d2(2) assms(5)] by simp
  qed
qed

definition sample_two :: db where
  "sample_two = sample_db\<lparr>events := [sample_event, sample_event\<lparr>ev_id := ''e3'', ev_idempotency_key := ''k3''\<rparr>]\<rparr>"

theorem no_double_claim_witness:
  "\<exists>e e'. fst (sql_claim_next 5 45 (sample_sess 0 ''x'') sample_two) = Inr e
     \<and> fst (sql_claim_next 5 45 (sample_sess 1 ''y'') (snd (sql_claim_next 5 45 (sample_sess 0 ''x'') sample_two)))
        = Inr e' \<and> ev_id e' \<noteq> ev_id e"
proof -
  let ?s = "sample_sess 0 ''x''" and ?s' = "sample_sess 1 ''y''"
  have ok: "db_ok sample_two"
    by (simp add: db_ok_def keys_ok_def refs_ok_def lifecycle_ok_def event_ok_def sample_defs sample_two_def
        empty_db_def new_event_def event_key_def user_refs_def List.map_filter_def user_exists_def
        rule_exists_def name_check_def char_length_def max_attempts_def)
  obtain e d1 where c: "sql_claim_next 5 45 ?s sample_two = (Inr e, d1)"
    by (simp add: sql_claim_next_def update_def claim_queue_def order_asc_def sample_defs sample_two_def
        claimable_def new_event_def)
  then have d1: "d1 = snd (sql_claim_next 5 45 ?s sample_two)" by simp
  obtain e' d2 where c': "sql_claim_next 5 45 ?s' d1 = (Inr e', d2)"
    unfolding d1
    by (simp add: sql_claim_next_def update_def claim_queue_def order_asc_def sample_defs sample_two_def
        claimable_def new_event_def secs_def update_where_def claim_row_def)
  from no_double_claim [OF ok c rtranclp.rtrancl_refl c'] have "ev_id e' \<noteq> ev_id e"
    by (simp add: secs_def)
  moreover have "fst (sql_claim_next 5 45 ?s sample_two) = Inr e" by (simp only: c fst_conv)
  moreover have "fst (sql_claim_next 5 45 ?s' (snd (sql_claim_next 5 45 ?s sample_two))) = Inr e'"
    by (simp only: d1 [symmetric] c' fst_conv)
  ultimately show ?thesis by blast
qed

text \<open>C18: the retry schedule of a reachable database: a failed event is claimed again after 2, 4, 6
  and 8 seconds and never after its fifth failure; the cap of 60 seconds is never reached.\<close>

theorem retry_schedule:
  assumes "reachable d" "r \<in> set (events d)" "ev_status r = Failed"
  shows "claimable max_attempts l now r \<longleftrightarrow>
    ev_attempt_count r \<in> {1, 2, 3, 4}
    \<and> (\<exists>t. ev_processed_at r = Some t \<and> t + secs (2 * ev_attempt_count r) \<le> now)"
proof -
  have ok: "event_ok r" using reachable_ok [OF assms(1)] assms(2) by (simp add: db_ok_def lifecycle_ok_def)
  then obtain t where t: "ev_processed_at r = Some t" using assms(3) by (auto simp: event_ok_def)
  have n: "1 \<le> ev_attempt_count r" "ev_attempt_count r \<le> 5"
    using ok assms(3) by (auto simp: event_ok_def max_attempts_def)
  then have "backoff_secs (ev_attempt_count r) = 2 * ev_attempt_count r"
    by (simp add: backoff_secs_def)
  moreover have "ev_attempt_count r < 5 \<longleftrightarrow> ev_attempt_count r \<in> {1, 2, 3, 4}"
    using n by auto
  ultimately show ?thesis
    using assms(3) t by (auto simp: claimable_def max_attempts_def)
qed

text \<open>Databases reached by creating a user and an event, claiming it, and finishing it one way or
  the other.\<close>

definition sample_row :: event_row where
  "sample_row = new_event (sample_sess 0 ''e1'') ''u1'' ''k1'' ''custom'' (JArr [])"

definition sample_claimed :: db where
  "sample_claimed =
     snd (sql_claim_next 5 45 (sample_sess 1 ''x'')
       (snd (sql_insert_event ''u1'' ''k1'' ''custom'' (Some (JArr [])) (sample_sess 0 ''e1'')
         (snd (sql_insert_user ''a@b'' ''h'' (sample_sess 0 ''u1'') empty_db)))))"

definition sample_failed :: db where
  "sample_failed =
     snd (sql_mark_failed ''e1'' ''payload must be a json object'' (sample_sess 2 ''y'') sample_claimed)"

definition sample_done :: db where
  "sample_done = snd (sql_mark_processed ''e1'' None (sample_sess 2 ''y'') sample_claimed)"

lemma sample_reachable: "reachable sample_failed" "reachable sample_done"
proof -
  have "reachable sample_claimed"
    unfolding sample_claimed_def
    by (intro reachable.start reachable.step [OF _ server_step.claim] reachable.step [OF _ server_step.event]
        reachable.step [OF _ server_step.user])
  then show "reachable sample_failed" "reachable sample_done"
    unfolding sample_failed_def sample_done_def
    by (rule reachable.step [OF _ server_step.mark_failed], rule reachable.step [OF _ server_step.mark_processed])
qed

lemma sample_row_simps [simp]:
  "ev_id sample_row = ''e1''" "ev_status sample_row = Pending" "ev_attempt_count sample_row = 0"
  by (simp_all add: sample_row_def)

lemma sample_claimed_events: "events sample_claimed = [claim_row 1 sample_row]"
proof -
  let ?d1 = "empty_db\<lparr>users := [new_user (sample_sess 0 ''u1'') ''a@b'' ''h'']\<rparr>"
  have 1: "snd (sql_insert_user ''a@b'' ''h'' (sample_sess 0 ''u1'') empty_db) = ?d1"
    by (simp add: sql_insert_user_def update_def text_arg_def empty_db_def)
  have 2: "snd (sql_insert_event ''u1'' ''k1'' ''custom'' (Some (JArr [])) (sample_sess 0 ''e1'') ?d1)
      = ?d1\<lparr>events := [sample_row]\<rparr>"
    by (simp add: sql_insert_event_def update_def uuid_arg_def text_arg_def jsonb_arg_def empty_db_def
        user_exists_def sample_row_def)
  show ?thesis
    unfolding sample_claimed_def 1 2
    by (simp add: sql_claim_next_def update_def claim_queue_def order_asc_def row_simps claimable_def)
qed

definition sample_failed_row :: event_row where
  "sample_failed_row = failed_row 2 ''payload must be a json object'' (claim_row 1 sample_row)"

lemma sample_failed_events: "events sample_failed = [sample_failed_row]"
  by (simp add: sample_failed_def sample_failed_row_def sql_mark_failed_def update_def uuid_arg_def
      text_arg_def sample_claimed_events being_processed_def row_simps)

lemma sample_done_events: "events sample_done = [processed_row 2 None (claim_row 1 sample_row)]"
  by (simp add: sample_done_def sql_mark_processed_def update_def uuid_arg_def uuid_opt_arg_def
      sample_claimed_events being_processed_def row_simps)

theorem retry_schedule_witness:
  "claimable max_attempts 45 (secs 3) sample_failed_row \<longleftrightarrow>
     ev_attempt_count sample_failed_row \<in> {1, 2, 3, 4}
     \<and> (\<exists>t. ev_processed_at sample_failed_row = Some t
          \<and> t + secs (2 * ev_attempt_count sample_failed_row) \<le> secs 3)"
proof (rule retry_schedule [OF sample_reachable(1)])
  show "sample_failed_row \<in> set (events sample_failed)" by (simp add: sample_failed_events)
  show "ev_status sample_failed_row = Failed" by (simp add: sample_failed_row_def)
qed

text \<open>C19: a processed event and an event that failed five times are final: whatever happens, the same
  row is still there, except that a processed row forgets the rule it matched when that rule is
  deleted.\<close>

theorem final_rows_stay:
  assumes "reachable d" "server_step\<^sup>*\<^sup>* d d'" "r \<in> set (events d)"
    and "ev_status r = Processed \<or> ev_status r = Failed \<and> ev_attempt_count r = max_attempts"
  shows "r \<in> set (events d') \<or>
    ev_status r = Processed \<and> r\<lparr>ev_matched_rule_id := None\<rparr> \<in> set (events d')"
proof -
  have ok: "db_ok d" by (rule reachable_ok [OF assms(1)])
  with safe_steps [OF assms(2)] have "history d d'" by (simp add: safe_change_def)
  then obtain r' where r': "r' \<in> set (events d')" "advances r r'"
    using assms(3) by (auto simp: history_def)
  have "row_final r" using assms(4) by (auto simp: row_final_def exhausted_def)
  with r'(2) have "r' = r \<or> r' = unmatch_row r" by (simp add: advances_def)
  moreover have "unmatch_row r = r" if "ev_status r = Failed"
  proof -
    have "event_ok r" using ok assms(3) by (simp add: db_ok_def lifecycle_ok_def)
    with that show ?thesis by (simp add: event_ok_def unmatch_row_def)
  qed
  ultimately show ?thesis using r'(1) assms(4) by (auto simp: unmatch_row_def)
qed

theorem final_rows_stay_witness:
  "let r = processed_row 2 None (claim_row 1 sample_row);
       d = snd (sql_delete_rule ''r1'' ''u1'' (sample_sess 3 ''z'') sample_done) in
   r \<in> set (events d) \<or> ev_status r = Processed \<and> r\<lparr>ev_matched_rule_id := None\<rparr> \<in> set (events d)"
  unfolding Let_def
  by (rule final_rows_stay [OF sample_reachable(2) r_into_rtranclp [where r = server_step, OF server_step.delete_rule]])
     (simp_all add: sample_done_events)

section \<open>Matching\<close>

lemma first_match_oldest:
  "case first_match a (order_asc k rows) of None \<Rightarrow> filter (rule_matches a) rows = []
   | Some i \<Rightarrow> \<exists>x\<in>set (filter (rule_matches a) rows). r_id x = i
       \<and> list_all (\<lambda>y. k x \<le> k y) (filter (rule_matches a) rows)"
proof (cases "first_match a (order_asc k rows)")
  case None
  then have "filter (rule_matches a) rows = []" by (simp add: first_match_None filter_empty_conv)
  with None show ?thesis by simp
next
  case (Some i)
  from first_match_least [OF this] Some show ?thesis by (auto simp: list_all_iff not_less [symmetric])
qed

text \<open>C17: when \<open>process\<close> decides, whatever the other sessions do, it decides by the rules as they are:
  none of the user's enabled rules for the event's type applies, or it names one that does and than
  which no applicable rule is older; a rule applies without a threshold, or when the payload has an
  amount that is at most the threshold.\<close>

theorem oldest_rule_wins:
  assumes "process ev w = (Inr m, w')"
  shows "\<exists>u amount. pg_uuid_in (w_pg w) (ev_user_id ev) = Some u
    \<and> payload_amount (Some (ev_payload ev)) = Inr amount
    \<and> (let applicable = filter (\<lambda>r. r_user_id r = u \<and> r_event_type r = ev_type ev \<and> r_enabled r
              \<and> (r_threshold r = None \<or> (\<exists>a t. amount = Some a \<and> r_threshold r = Some t \<and> a \<le> t)))
            (alert_rules (w_db w'))
       in case m of None \<Rightarrow> applicable = []
          | Some i \<Rightarrow> \<exists>x\<in>set applicable. r_id x = i \<and> list_all (\<lambda>y. r_created_at x \<le> r_created_at y) applicable)"
proof -
  from process_Inr [OF assms] obtain u a where u: "pg_uuid_in (w_pg w) (ev_user_id ev) = Some u"
    "payload_amount (Some (ev_payload ev)) = Inr a"
    and m: "m = first_match a (order_asc r_created_at (filter (\<lambda>r. r_user_id r = u \<and>
       r_event_type r = ev_type ev \<and> r_enabled r) (alert_rules (w_db w'))))" .
  let ?mine = "\<lambda>r. r_user_id r = u \<and> r_event_type r = ev_type ev \<and> r_enabled r"
  let ?applies = "\<lambda>r. r_threshold r = None \<or> (\<exists>b t. a = Some b \<and> r_threshold r = Some t \<and> b \<le> t)"
  have "rule_matches a = ?applies"
    by (auto simp: rule_matches_def fun_eq_iff split: option.splits)
  then have e: "filter (rule_matches a) (filter ?mine rs) = filter (\<lambda>r. r_user_id r = u \<and> r_event_type r = ev_type ev
      \<and> r_enabled r \<and> ?applies r) rs" for rs
    by (simp add: conj_assoc)
  note first_match_oldest [where a = a and k = r_created_at and rows = "filter ?mine (alert_rules (w_db w'))", folded m]
  then show ?thesis
    unfolding Let_def e by (intro exI [of _ u] exI [of _ a] conjI u)
qed

theorem oldest_rule_wins_witness:
  "fst (process (scan_event sample_event) (sample_world 1 sample_db)) = Inr (Some ''r1'')
   \<and> (\<exists>x\<in>set (alert_rules sample_db). r_id x = ''r1'' \<and> r_event_type x = ''custom'' \<and> r_enabled x)"
proof -
  let ?w = "sample_world 1 sample_db"
  have "num_value (Num False ''5'' [] None) = of_int 5" by (simp add: num_value_def byte_of_def)
  then have "round64 (num_value (Num False ''5'' [] None)) = Some (of_int 5)" using round64_int [of 5] by simp
  then have a: "payload_amount (Some (ev_payload (scan_event sample_event))) = Inr (Some 5)"
    by (simp add: payload_amount_def scan_event_def event.defs sample_event_def new_event_def dec_raw_map_def
        dec_struct_def dec_float_def)
  have p: "process (scan_event sample_event) ?w = (Inr (Some ''r1''), elapse ?w)"
    unfolding process_def a
    by (simp add: enabled_by_user_and_type_def bindW_def sql_enabled_rules_def stmt_query_quiet uuid_arg_def
        text_arg_def scan_event_def event.defs sample_db_def sample_event_def new_event_def sample_user_def
        sample_rule_def rule_matches_def order_asc_def)
  have w: "w_db (elapse ?w) = sample_db" by (rule trans [OF quiet_elapse_db]) simp_all
  have "alert_rules sample_db = [sample_rule]" "ev_type (scan_event sample_event) = ''custom''"
    by (simp_all add: sample_db_def sample_event_def new_event_def scan_event_def event.defs)
  moreover obtain x where "x \<in> set (alert_rules (w_db (elapse ?w)))" "r_id x = ''r1''" "r_enabled x"
    "r_event_type x = ev_type (scan_event sample_event)"
    using oldest_rule_wins [OF p] by (auto simp: Let_def simp del: elapse_simps)
  ultimately show ?thesis using p w by auto
qed

end
