(* ===== verification/Ingest_Properties.thy ===== *)
theory Ingest_Properties
  imports Worker_Properties
begin

text \<open>What the webhook endpoint guarantees: only signed requests reach the database, an accepted
  event is stored exactly once, and a repeated delivery answers with the first event.\<close>

section \<open>A signed request\<close>

definition sample_body :: string where
  "sample_body = ''{\"idempotency_key\":\"k9\",\"type\":\"custom\",\"user_ref\":\"ref1\"}''"

definition sample_delivery :: request where
  "sample_delivery =
     \<lparr>rq_authorization = [], rq_signature = sign_body ''whsec'' sample_body, rq_body = sample_body,
      rq_body_fails = False, rq_path_id = [], rq_status = []\<rparr>"

definition sample_request :: ingest_request where
  "sample_request = \<lparr>ig_idempotency_key = ''k9'', ig_type = ''custom'', ig_user_ref = ''ref1'', ig_payload = None\<rparr>"

lemma sample_body_json:
  "json_unmarshal sample_body =
     Some (JObj [(''idempotency_key'', JStr ''k9''), (''type'', JStr ''custom''), (''user_ref'', JStr ''ref1'')])"
  by code_simp

lemma sample_decoded:
  "decode_ingest_request t (JObj [(''idempotency_key'', JStr ''k9''), (''type'', JStr ''custom''),
     (''user_ref'', JStr ''ref1'')]) = Some sample_request"
  by code_simp

lemma valid_signature_sign: "valid_signature secret msg (sign_body secret msg)"
  unfolding valid_signature_simp sign_body_trim by (simp add: sign_body_def)

lemma plain_keys: "trim_space ''k9'' = ''k9''" "trim_space ''custom'' = ''custom''" "trim_space ''ref1'' = ''ref1''"
  by code_simp+

lemma sample_ingest_key: "ingest_key sample_request = ''k9''"
  by (simp add: ingest_key_def sample_request_def plain_keys)

lemma sample_read: "read_limited sample_delivery = Some sample_body"
  by (simp add: read_limited_def sample_delivery_def max_body_def sample_body_def)

lemma sample_accepted: "accepted_request ''whsec'' t sample_delivery = Some sample_request"
  by (simp add: accepted_request_def sample_read sample_body_json sample_decoded sample_ingest_key)
     (simp add: sample_delivery_def valid_signature_sign sample_request_def plain_keys)

section \<open>Undisturbed ingestion\<close>

text \<open>The server reads the arguments of an accepted request: its texts are legal, its payload has
  the normal form \<open>p\<close>, and the ids of users are in normal form.\<close>

definition ingest_readable :: "pg \<Rightarrow> db \<Rightarrow> ingest_request \<Rightarrow> json \<Rightarrow> bool" where
  "ingest_readable pg d req p \<longleftrightarrow>
     pg_text_ok pg (trim_space (ig_user_ref req)) \<and> pg_text_ok pg (ingest_key req)
     \<and> pg_text_ok pg (trim_space (ig_type req))
     \<and> pg_jsonb_in pg (or_else (ig_payload req) (JObj [])) = Some p
     \<and> (\<forall>u\<in>set (users d). pg_uuid_in pg (u_id u) = Some (u_id u))"

lemma user_id_by_ref_quiet:
  assumes "quiet w" "pg_text_ok (w_pg w) ref"
  shows "user_id_by_ref ref w =
    (case List.find (\<lambda>u. u_user_ref u = Some ref) (users (w_db w)) of
       None \<Rightarrow> Inl ErrUnknownUserRef | Some u \<Rightarrow> Inr (u_id u), elapse w)"
  using assms
  by (simp add: user_id_by_ref_def bindW_def sql_user_by_ref_def stmt_query_quiet text_arg_def
      one_row_def split: option.splits)

lemma create_pending_quiet:
  assumes "quiet w" "pg_uuid_in (w_pg w) (ci_user_id inp) = Some i" "user_exists (w_db w) i"
    and "pg_text_ok (w_pg w) (ci_idempotency_key inp)" "pg_text_ok (w_pg w) (ci_type inp)"
    and "ci_payload inp = Some v" "pg_jsonb_in (w_pg w) v = Some p"
    and "\<not> (\<exists>r\<in>set (events (w_db w)). same_key i (ci_idempotency_key inp) r) \<Longrightarrow>
      sl_uuid (w_slot w) \<notin> ev_id ` set (events (w_db w))"
  shows "case create_pending inp w of (res, w') \<Rightarrow>
    (case List.find (same_key i (ci_idempotency_key inp)) (events (w_db w)) of
       Some r \<Rightarrow> res = Inr (scan_event r, False) \<and> w_db w' = w_db w
     | None \<Rightarrow>
         let r = new_event (w_sess w) i (ci_idempotency_key inp) (ci_type inp) p in
         res = Inr (scan_event r, True) \<and> w_db w' = (w_db w)\<lparr>events := events (w_db w) @ [r]\<rparr>)"
proof (cases "List.find (same_key i (ci_idempotency_key inp)) (events (w_db w))")
  case None
  then have "\<not> (\<exists>r\<in>set (events (w_db w)). same_key i (ci_idempotency_key inp) r)"
    by (auto simp: find_None_mem)
  moreover from this have "\<not> (\<exists>r\<in>set (events (w_db w)). ev_id r = sl_uuid (w_slot w))"
    using assms(8) by (auto simp: image_iff)
  ultimately show ?thesis
    using assms None
    by (simp add: create_pending_def bindW_def stmt_quiet sql_insert_event_def update_def uuid_arg_def
        text_arg_def jsonb_arg_def)
next
  case (Some r)
  then have "\<exists>r\<in>set (events (w_db w)). same_key i (ci_idempotency_key inp) r"
    by (auto dest: find_Some_mem)
  then have "sql_insert_event (ci_user_id inp) (ci_idempotency_key inp) (ci_type inp) (ci_payload inp)
      (w_sess w) (w_db w) = (Inl ErrNoRows, w_db w)"
    using assms by (simp add: sql_insert_event_def update_def uuid_arg_def text_arg_def jsonb_arg_def)
  moreover have "sl_env (w_slot w) = id" using assms(1) by (simp add: quiet_slot)
  ultimately have "stmt (sql_insert_event (ci_user_id inp) (ci_idempotency_key inp) (ci_type inp) (ci_payload inp)) w
      = (Inl ErrNoRows, elapse w)"
    using assms(1) by (simp add: stmt_quiet elapse_def)
  then show ?thesis
    using assms Some
    by (simp add: create_pending_def bindW_def get_by_idempotency_def sql_event_by_key_def
        stmt_query_quiet uuid_arg_def text_arg_def quiet_slot [OF assms(1)] quiet_slot [of "elapse w"]
        one_row_def)
qed

text \<open>What an accepted request does to a database: an unknown reference is refused, a known key
  answers with the stored event, a new key appends an event.\<close>

definition ingest_outcome :: "sess \<Rightarrow> db \<Rightarrow> ingest_request \<Rightarrow> json \<Rightarrow> response \<times> db" where
  "ingest_outcome s d req p =
     (case List.find (\<lambda>u. u_user_ref u = Some (trim_space (ig_user_ref req))) (users d) of
        None \<Rightarrow> (write_error 404 ''unknown_user_ref'' ''user_ref not mapped'', d)
      | Some u \<Rightarrow>
          (case List.find (same_key (u_id u) (ingest_key req)) (events d) of
             Some r \<Rightarrow> (write_json 200 (EventBody (scan_event r)), d)
           | None \<Rightarrow>
               (let r = new_event s (u_id u) (ingest_key req) (trim_space (ig_type req)) p
                in (write_json 202 (EventBody (scan_event r)), d\<lparr>events := events d @ [r]\<rparr>))))"

lemma accept_event_quiet:
  assumes "quiet w" "ingest_readable (w_pg w) (w_db w) req p"
    and "snd (ingest_outcome (w_sess (elapse w)) (w_db w) req p) \<noteq> w_db w \<Longrightarrow>
      sl_uuid (w_slot (elapse w)) \<notin> ev_id ` set (events (w_db w))"
  shows "case accept_event req w of (rs, w') \<Rightarrow>
    (rs, w_db w') = ingest_outcome (w_sess (elapse w)) (w_db w) req p \<and> quiet w' \<and> w_pg w' = w_pg w"
proof -
  have db: "w_db (elapse w) = w_db w" by (rule quiet_elapse_db [OF assms(1)])
  note u = user_id_by_ref_quiet [OF assms(1), of "trim_space (ig_user_ref req)"]
  show ?thesis
  proof (cases "List.find (\<lambda>u. u_user_ref u = Some (trim_space (ig_user_ref req))) (users (w_db w))")
    case None
    then show ?thesis
      using u assms db by (simp add: accept_event_def bindW_def ingest_readable_def ingest_outcome_def)
  next
    case (Some x)
    then have x: "x \<in> set (users (w_db w))" by (auto dest: find_Some_mem)
    obtain res w' where c: "create_pending (ingest_input (u_id x) req) (elapse w) = (res, w')" by fastforce
    have k: "env_ok (\<lambda>_ _. True) (elapse w)" by (simp add: env_ok_def)
    have f: "quiet w'" "w_pg w' = w_pg w"
      using create_pending_frame [of "ingest_input (u_id x) req" "elapse w"] c assms(1)
      by (simp_all add: quiet_def)
    have new: "sl_uuid (w_slot (elapse w)) \<notin> ev_id ` set (events (w_db w))"
      if "\<not> (\<exists>r\<in>set (events (w_db w)). same_key (u_id x) (ingest_key req) r)"
    proof (rule assms(3))
      have "List.find (same_key (u_id x) (ingest_key req)) (events (w_db w)) = None"
        using that by (simp add: find_None_mem)
      then show "snd (ingest_outcome (w_sess (elapse w)) (w_db w) req p) \<noteq> w_db w"
        using Some by (auto simp: ingest_outcome_def Let_def dest: arg_cong [where f = events])
    qed
    have "user_exists (w_db w) (u_id x)" using x by (auto simp: user_exists_def)
    then have "case (res, w') of (res, w') \<Rightarrow>
      (case List.find (same_key (u_id x) (ingest_key req)) (events (w_db w)) of
         Some r \<Rightarrow> res = Inr (scan_event r, False) \<and> w_db w' = w_db w
       | None \<Rightarrow>
           let r = new_event (w_sess (elapse w)) (u_id x) (ingest_key req) (trim_space (ig_type req)) p in
           res = Inr (scan_event r, True) \<and> w_db w' = (w_db w)\<lparr>events := events (w_db w) @ [r]\<rparr>)"
      using create_pending_quiet [of "elapse w" "ingest_input (u_id x) req" "u_id x"
          "or_else (ig_payload req) (JObj [])" p] assms(1,2) x db c new
      by (simp add: ingest_readable_def split: option.splits)
    then show ?thesis
      using u Some assms db c f
      by (cases "List.find (same_key (u_id x) (ingest_key req)) (events (w_db w))")
         (auto simp: accept_event_def bindW_def ingest_readable_def ingest_outcome_def Let_def)
  qed
qed

section \<open>Properties\<close>

text \<open>C3: every answer but 400 and 401, and every step the handler takes at all, needs a body
  that carries the HMAC-SHA256 of exactly the bytes that were read under the shared secret.\<close>

theorem ingest_authentic:
  assumes "ingest secret time_ok rq w = (rs, w')" "\<not> (rs_status rs \<in> {400, 401} \<and> w' = w)"
  shows "\<exists>body hex. read_limited rq = Some body \<and> trim_space (rq_signature rq) = ''sha256='' @ hex
    \<and> hex_decode hex = Some (hmac_sha256 secret body)"
proof -
  have "accepted_request secret time_ok rq \<noteq> None"
  proof
    assume "accepted_request secret time_ok rq = None"
    with ingest_cases [of secret time_ok rq] obtain st c m where
      "st \<in> {400, 401}" "ingest secret time_ok rq = returnW (write_error st c m)" by auto
    with assms show False by auto
  qed
  then show ?thesis
    by (auto simp: accepted_request_def valid_signature_simp sig_prefix_def
        split: Option.bind_splits if_splits)
qed

lemma ingest_accepted:
  "accepted_request secret time_ok rq = Some req \<Longrightarrow> ingest secret time_ok rq = accept_event req"
  using ingest_cases [of secret time_ok rq] by auto

abbreviation sample_first :: event_row where
  "sample_first \<equiv> new_event (sample_sess 2 (sample_uuid (Suc 0))) ''u1'' ''k9'' ''custom'' (JObj [])"

lemma sample_ref: "trim_space (ig_user_ref sample_request) = ''ref1''" "trim_space (ig_type sample_request) = ''custom''"
  by (simp_all add: sample_request_def plain_keys)

lemma sample_outcome:
  "ingest_outcome (sample_sess 2 (sample_uuid (Suc 0))) sample_db sample_request (JObj []) =
     (write_json 202 (EventBody (scan_event sample_first)), sample_db\<lparr>events := events sample_db @ [sample_first]\<rparr>)"
  "ingest_outcome s (sample_db\<lparr>events := events sample_db @ [sample_first]\<rparr>) sample_request p =
     (write_json 200 (EventBody (scan_event sample_first)), sample_db\<lparr>events := events sample_db @ [sample_first]\<rparr>)"
  by (simp_all add: ingest_outcome_def sample_ingest_key Let_def)
     (simp_all add: sample_defs same_key_def new_event_def sample_ref sample_ingest_key Let_def)

lemma sample_ingest_readable: "ingest_readable sample_pg d sample_request (JObj [])"
  by (simp add: ingest_readable_def sample_request_def or_else_def)

lemma sample_ingest:
  obtains w' where "ingest ''whsec'' t sample_delivery (sample_world 1 sample_db)
      = (write_json 202 (EventBody (scan_event sample_first)), w')"
    "w_db w' = sample_db\<lparr>events := events sample_db @ [sample_first]\<rparr>" "quiet w'" "w_pg w' = sample_pg"
proof -
  let ?w = "sample_world 1 sample_db"
  have s: "w_sess (elapse ?w) = sample_sess 2 (sample_uuid (Suc 0))"
    by (simp add: w_sess_def w_slot_def sample_sess_def sample_world_def)
  have "sl_uuid (w_slot (elapse ?w)) \<notin> ev_id ` set (events (w_db ?w))"
    by (simp add: w_slot_def sample_world_def sample_defs new_event_def)
  then have "case accept_event sample_request ?w of (rs, w') \<Rightarrow>
      (rs, w_db w') = ingest_outcome (w_sess (elapse ?w)) (w_db ?w) sample_request (JObj [])
      \<and> quiet w' \<and> w_pg w' = w_pg ?w"
    by (intro accept_event_quiet) (simp_all add: sample_ingest_readable)
  then show thesis
    using that unfolding s sample_world_simps sample_outcome(1) ingest_accepted [OF sample_accepted]
    by (auto split: prod.splits)
qed

theorem ingest_authentic_witness:
  "\<exists>body hex. read_limited sample_delivery = Some body \<and> trim_space (rq_signature sample_delivery) = ''sha256='' @ hex
    \<and> hex_decode hex = Some (hmac_sha256 ''whsec'' body)"
proof -
  obtain rs w' where r: "ingest ''whsec'' (\<lambda>_. True) sample_delivery (sample_world 1 sample_db) = (rs, w')"
    "rs_status rs = 202"
    using sample_ingest [of "\<lambda>_. True"] by (metis write_json_simps(1))
  show ?thesis by (rule ingest_authentic [OF r(1)]) (simp add: r(2))
qed

text \<open>\<open>SignBody\<close> makes signatures that \<open>ValidSignature\<close> accepts, and a signature is good for
  another body or secret only where the two HMAC values collide.\<close>

theorem signature_roundtrip:
  "valid_signature secret body (sign_body secret' body') \<longleftrightarrow>
     hmac_sha256 secret body = hmac_sha256 secret' body'"
  unfolding valid_signature_simp sign_body_trim by (auto simp: sign_body_def sig_prefix_def)

text \<open>C7: whatever other sessions do and whichever messages are lost, a delivery that is answered
  with 200 or 202 is stored: exactly one event has its key under the user its reference names,
  and the answer shows that event; after a 202 there was none before.\<close>

theorem ingest_stores_once:
  assumes "ingest secret time_ok rq w = (rs, w')" "rs_status rs \<in> {200, 202}"
    and "env_ok server_step\<^sup>*\<^sup>* w" "db_ok (w_db w)"
  shows "\<exists>req u i r. accepted_request secret time_ok rq = Some req
    \<and> u \<in> set (users (w_db w')) \<and> u_user_ref u = Some (trim_space (ig_user_ref req))
    \<and> pg_uuid_in (w_pg w) (u_id u) = Some i
    \<and> filter (\<lambda>e. ev_user_id e = i \<and> ev_idempotency_key e = ingest_key req) (events (w_db w')) = [r]
    \<and> rs_body rs = EventBody (scan_event r)
    \<and> (rs_status rs = 200 \<or> filter (\<lambda>e. ev_user_id e = i \<and> ev_idempotency_key e = ingest_key req) (events (w_db w)) = [])"
  using assms(1,2) env_safe [OF assms(3)] assms(4)
proof (rule ingest_persists)
  fix req u i r
  assume h: "accepted_request secret time_ok rq = Some req"
    "u \<in> set (users (w_db w'))" "u_user_ref u = Some (trim_space (ig_user_ref req))"
    "pg_uuid_in (w_pg w) (u_id u) = Some i"
    "r \<in> set (events (w_db w'))" "same_key i (ingest_key req) r" "rs_body rs = EventBody (scan_event r)"
    and no: "rs_status rs = 202 \<Longrightarrow> \<forall>r0\<in>set (events (w_db w)). \<not> same_key i (ingest_key req) r0"
  have "keys_ok (w_db w')"
    using keepsD(1) [OF safe.keeps_ingest env_safe [OF assms(3)], of secret time_ok rq] assms(1,4)
    by (simp add: safe_change_def db_ok_def)
  then have d: "distinct (map event_key (events (w_db w')))" by (simp add: keys_ok_def)
  have k: "(ev_user_id e = i \<and> ev_idempotency_key e = ingest_key req) = (event_key e = event_key r)" for e
    using h(6) by (auto simp: same_key_def event_key_def)
  have "filter (\<lambda>e. event_key e = event_key r) (events (w_db w')) = [r]"
    by (rule distinct_filter_key [OF d h(5)])
  then show ?thesis
    using h no assms(2) unfolding k
    by (intro exI [of _ req] exI [of _ u] exI [of _ i] exI [of _ r])
       (auto simp: same_key_def filter_empty_conv event_key_def)
qed

theorem ingest_stores_once_witness:
  "\<exists>rs w'. ingest ''whsec'' (\<lambda>_. True) sample_delivery (sample_world 1 sample_db) = (rs, w')
    \<and> rs_status rs = 202
    \<and> (\<exists>req u i r. accepted_request ''whsec'' (\<lambda>_. True) sample_delivery = Some req
        \<and> u \<in> set (users (w_db w')) \<and> u_user_ref u = Some (trim_space (ig_user_ref req))
        \<and> filter (\<lambda>e. ev_user_id e = i \<and> ev_idempotency_key e = ingest_key req) (events (w_db w')) = [r]
        \<and> rs_body rs = EventBody (scan_event r))"
proof -
  obtain rs w' where r: "ingest ''whsec'' (\<lambda>_. True) sample_delivery (sample_world 1 sample_db) = (rs, w')"
    "rs_status rs = 202"
    using sample_ingest [of "\<lambda>_. True"] by (metis write_json_simps(1))
  have "rs_status rs \<in> {200, 202}" "db_ok (w_db (sample_world 1 sample_db))" using r(2) sample_db_ok by simp_all
  from ingest_stores_once [OF r(1) this(1) sample_env_ok this(2)] r show ?thesis by blast
qed

text \<open>C8: a repeated delivery is idempotent: when two requests with the same key and user reference
  are both answered with 200 or 202, in this order and with anything in between, the second answer
  is a 200 that shows the first event.\<close>

theorem ingest_idempotent:
  assumes "ingest secret time_ok rq1 w = (rs1, w1)" "rs_status rs1 \<in> {200, 202}"
    and "env_ok server_step\<^sup>*\<^sup>* w" "db_ok (w_db w)" "server_step\<^sup>*\<^sup>* (w_db w1) (w_db w2)"
    and "ingest secret time_ok rq2 w2 = (rs2, w3)" "rs_status rs2 \<in> {200, 202}"
    and "env_ok server_step\<^sup>*\<^sup>* w2" "w_pg w2 = w_pg w"
    and "accepted_request secret time_ok rq1 = Some req1" "accepted_request secret time_ok rq2 = Some req2"
    and "ingest_key req1 = ingest_key req2" "trim_space (ig_user_ref req1) = trim_space (ig_user_ref req2)"
  shows "rs_status rs2 = 200 \<and> (\<exists>e1 e2. rs_body rs1 = EventBody e1 \<and> rs_body rs2 = EventBody e2
    \<and> ev_id e2 = ev_id e1 \<and> ev_type e2 = ev_type e1 \<and> ev_payload e2 = ev_payload e1)"
proof -
  have ok1: "db_ok (w_db w1)"
    using keepsD(1) [OF safe.keeps_ingest env_safe [OF assms(3)], of secret time_ok rq1] assms(1,4)
    by (simp add: safe_change_def)
  have s12: "db_ok (w_db w2)" "history (w_db w1) (w_db w2)"
    using safe_steps [OF assms(5)] ok1 by (auto simp: safe_change_def)
  have s23: "db_ok (w_db w3)" "history (w_db w2) (w_db w3)"
    using keepsD(1) [OF safe.keeps_ingest env_safe [OF assms(8)], of secret time_ok rq2] assms(6) s12(1)
    by (auto simp: safe_change_def)
  obtain u i r where r: "u \<in> set (users (w_db w1))" "u_user_ref u = Some (trim_space (ig_user_ref req1))"
    "pg_uuid_in (w_pg w) (u_id u) = Some i" "r \<in> set (events (w_db w1))" "same_key i (ingest_key req1) r"
    "rs_body rs1 = EventBody (scan_event r)"
    by (rule ingest_persists_known [OF assms(1,2) env_safe [OF assms(3)] assms(4,10)])
  obtain u' i' r' where r': "u' \<in> set (users (w_db w3))" "u_user_ref u' = Some (trim_space (ig_user_ref req2))"
    "pg_uuid_in (w_pg w2) (u_id u') = Some i'" "r' \<in> set (events (w_db w3))" "same_key i' (ingest_key req2) r'"
    "rs_body rs2 = EventBody (scan_event r')"
    "rs_status rs2 = 202 \<longrightarrow> (\<forall>r0\<in>set (events (w_db w2)). \<not> same_key i' (ingest_key req2) r0)"
    by (rule ingest_persists_known [OF assms(6,7) env_safe [OF assms(8)] s12(1) assms(11)])
  have "u \<in> set (users (w_db w3))" using r(1) s12(2) s23(2) by (auto simp: history_def)
  then have "u' = u" using user_ref_unique [OF db_ok_keys [OF s23(1)]] r(2) r'(1,2) assms(13) by metis
  then have i: "i' = i" using r(3) r'(3) assms(9) by simp
  obtain x where x: "x \<in> set (events (w_db w2))" "same_key i (ingest_key req1) x"
    using history_key [OF s12(2) r(4,5)] by blast
  obtain y where y: "y \<in> set (events (w_db w3))" "same_key i (ingest_key req1) y" "advances r y"
    using history_key [OF history_trans [OF s12(2) s23(2)] r(4,5)] by blast
  have "r' = y" using same_key_unique [OF db_ok_keys [OF s23(1)] r'(4) y(1)] r'(5) y(2) i assms(12) by simp
  moreover have "rs_status rs2 \<noteq> 202" using r'(7) x i assms(12) by auto
  ultimately show ?thesis using r(6) r'(6) y(3) assms(7) by (auto simp: advances_def)
qed

theorem ingest_idempotent_witness:
  "\<exists>rs1 w1 rs2 w3. ingest ''whsec'' (\<lambda>_. True) sample_delivery (sample_world 1 sample_db) = (rs1, w1)
    \<and> rs_status rs1 = 202 \<and> ingest ''whsec'' (\<lambda>_. True) sample_delivery w1 = (rs2, w3) \<and> rs_status rs2 = 200
    \<and> (\<exists>e1 e2. rs_body rs1 = EventBody e1 \<and> rs_body rs2 = EventBody e2 \<and> ev_id e2 = ev_id e1)"
proof -
  obtain rs1 w1 where r1: "ingest ''whsec'' (\<lambda>_. True) sample_delivery (sample_world 1 sample_db) = (rs1, w1)"
    "rs_status rs1 = 202" "w_db w1 = sample_db\<lparr>events := events sample_db @ [sample_first]\<rparr>" "quiet w1" "w_pg w1 = sample_pg"
    using sample_ingest [of "\<lambda>_. True"] by (metis write_json_simps(1))
  obtain rs2 w3 where r2: "ingest ''whsec'' (\<lambda>_. True) sample_delivery w1 = (rs2, w3)" by fastforce
  have o: "ingest_outcome (w_sess (elapse w1)) (w_db w1) sample_request (JObj []) =
      (write_json 200 (EventBody (scan_event sample_first)), w_db w1)"
    by (simp only: r1(3) sample_outcome(2))
  have a: "case accept_event sample_request w1 of (rs, w') \<Rightarrow>
      (rs, w_db w') = ingest_outcome (w_sess (elapse w1)) (w_db w1) sample_request (JObj [])
      \<and> quiet w' \<and> w_pg w' = w_pg w1"
    by (intro accept_event_quiet) (simp_all add: o r1(4,5) sample_ingest_readable)
  have "accept_event sample_request w1 = (rs2, w3)"
    using r2 by (simp only: ingest_accepted [OF sample_accepted])
  with a have s2: "rs_status rs2 = 200" by (simp add: o)
  have "env_ok server_step\<^sup>*\<^sup>* w1" using r1(4) by (simp add: env_ok_def quiet_def)
  then have "rs_status rs2 = 200 \<and> (\<exists>e1 e2. rs_body rs1 = EventBody e1 \<and> rs_body rs2 = EventBody e2
      \<and> ev_id e2 = ev_id e1 \<and> ev_type e2 = ev_type e1 \<and> ev_payload e2 = ev_payload e1)"
    using r1(2,5) s2 sample_db_ok
    by (intro ingest_idempotent [OF r1(1) _ sample_env_ok _ rtranclp.rtrancl_refl r2 _ _ _ sample_accepted sample_accepted refl refl])
       simp_all
  with r1(1,2) r2 s2 show ?thesis by blast
qed

text \<open>C21: without faults the endpoint is the function \<open>ingest_outcome\<close> on databases: 404 for an
  unknown reference, 200 with the stored event for a known key, and 202 with one new pending event
  otherwise; nothing else changes.\<close>

theorem ingest_refines:
  assumes "quiet w" "accepted_request secret time_ok rq = Some req" "ingest_readable (w_pg w) (w_db w) req p"
    and "sl_uuid (w_slot (elapse w)) \<notin> ev_id ` set (events (w_db w))"
  shows "case ingest secret time_ok rq w of (rs, w') \<Rightarrow>
    (rs, w_db w') = ingest_outcome (w_sess (elapse w)) (w_db w) req p"
  using accept_event_quiet [OF assms(1,3)] assms(4)
  by (auto simp: ingest_accepted [OF assms(2)] split: prod.splits)

theorem ingest_refines_witness:
  "case ingest ''whsec'' (\<lambda>_. True) sample_delivery (sample_world 1 sample_db) of (rs, w') \<Rightarrow>
    (rs, w_db w') = ingest_outcome (w_sess (elapse (sample_world 1 sample_db))) sample_db sample_request (JObj [])"
  using ingest_refines [OF sample_world_quiet sample_accepted, of 1 sample_db "JObj []" "\<lambda>_. True"]
    sample_ingest_readable
  by (simp add: w_slot_def sample_defs new_event_def)

end
