(* ===== verification/Auth.thy ===== *)
theory Auth
  imports Http Sha256
begin

text \<open>
  \<open>api/internal/auth\<close>: access and refresh tokens (\<open>tokens.go\<close>), the middleware and the four
  handlers. The JWT library, bcrypt and the random source are parameters: \<open>jwt_lib\<close> and
  \<open>bcrypt_lib\<close> carry the library functions the code calls, \<open>entropy\<close> what the random
  source yields during one request.
\<close>

section \<open>Libraries\<close>

record claims =
  cl_email :: string
  cl_subject :: string
  cl_expires_at :: time
  cl_issued_at :: time

text \<open>\<open>jwt.NewNumericDate\<close>; \<open>NewWithClaims(HS256, ..).SignedString\<close>; and \<open>ParseWithClaims\<close>,
  which asks its key function for the key of the algorithm the token names.\<close>

record jwt_lib =
  jw_date :: "time \<Rightarrow> time"
  jw_sign :: "string \<Rightarrow> claims \<Rightarrow> string option"
  jw_parse :: "(string \<Rightarrow> string option) \<Rightarrow> time \<Rightarrow> string \<Rightarrow> claims option"

text \<open>\<open>GenerateFromPassword\<close> with the salt it draws, and \<open>CompareHashAndPassword\<close>.\<close>

record bcrypt_lib =
  bc_generate :: "string \<Rightarrow> string \<Rightarrow> int \<Rightarrow> string option"
  bc_compare :: "string \<Rightarrow> string \<Rightarrow> bool"

record entropy =
  en_salt :: string
  en_refresh :: "string option"

section \<open>Tokens\<close>

definition access_ttl :: int where "access_ttl = 15 * 60 * 10 ^ 9"
definition refresh_ttl :: int where "refresh_ttl = 30 * 24 * 3600 * 10 ^ 9"

text \<open>\<open>t.Add(d)\<close> for a time in microseconds and a duration in nanoseconds.\<close>

definition time_add :: "time \<Rightarrow> int \<Rightarrow> time" where
  "time_add t d = t + d div 1000"

definition issue_access :: "jwt_lib \<Rightarrow> string \<Rightarrow> string \<Rightarrow> string \<Rightarrow> (error + string \<times> int) io" where
  "issue_access jwt secret uid email =
     bindW nowW (\<lambda>now. returnW
       (case jw_sign jwt secret
               \<lparr>cl_email = email, cl_subject = uid,
                cl_expires_at = jw_date jwt (time_add now access_ttl), cl_issued_at = jw_date jwt now\<rparr> of
          None \<Rightarrow> Inl (Errorf ''sign access'')
        | Some tok \<Rightarrow> Inr (tok, duration_secs access_ttl)))"

definition hs256_key :: "string \<Rightarrow> string \<Rightarrow> string option" where
  "hs256_key secret alg = (if alg = ''HS256'' then Some secret else None)"

definition parse_access :: "jwt_lib \<Rightarrow> string \<Rightarrow> string \<Rightarrow> claims option io" where
  "parse_access jwt secret token =
     bindW nowW (\<lambda>now. returnW (jw_parse jwt (hs256_key secret) now token))"

definition hash_refresh :: "string \<Rightarrow> string" where
  "hash_refresh plain = hex_encode (sha256 plain)"

definition new_refresh_token :: "entropy \<Rightarrow> (error + string \<times> string \<times> time) io" where
  "new_refresh_token en =
     (case en_refresh en of
        None \<Rightarrow> returnW (Inl (Errorf ''refresh entropy''))
      | Some raw \<Rightarrow>
          (let plain = b64url_encode raw in
           bindW nowW (\<lambda>now. returnW (Inr (plain, hash_refresh plain, time_add now refresh_ttl)))))"

section \<open>Middleware\<close>

definition bearer :: string where
  "bearer = ''Bearer ''"

definition require_auth ::
  "jwt_lib \<Rightarrow> string \<Rightarrow> (user_ctx option \<Rightarrow> request \<Rightarrow> response io) \<Rightarrow> request \<Rightarrow> response io" where
  "require_auth jwt secret next_handler rq =
     (let header = rq_authorization rq in
      if \<not> has_prefix header bearer
      then returnW (write_error 401 ''unauthorized'' ''missing bearer token'')
      else
        bindW (parse_access jwt secret (trim_space (trim_prefix header bearer))) (\<lambda>c.
          case c of
            None \<Rightarrow> returnW (write_error 401 ''unauthorized'' ''invalid access token'')
          | Some cl \<Rightarrow>
              if cl_subject cl = []
              then returnW (write_error 401 ''unauthorized'' ''invalid access token'')
              else next_handler (Some \<lparr>uc_id = cl_subject cl, uc_email = cl_email cl\<rparr>) rq))"

section \<open>Request bodies\<close>

definition min_password_len :: nat where "min_password_len = 8"
definition bcrypt_cost :: int where "bcrypt_cost = 10"

record credentials =
  cd_email :: string
  cd_password :: string

definition decode_credentials :: "json \<Rightarrow> credentials option" where
  "decode_credentials v =
     Option.bind (dec_struct v) (\<lambda>ms.
     Option.bind (dec_field ''email'' dec_string ms []) (\<lambda>e.
     Option.bind (dec_field ''password'' dec_string ms []) (\<lambda>p.
       Some \<lparr>cd_email = e, cd_password = p\<rparr>)))"

definition decode_refresh_request :: "json \<Rightarrow> string option" where
  "decode_refresh_request v =
     Option.bind (dec_struct v) (\<lambda>ms. dec_field ''refresh_token'' dec_string ms [])"

definition normalize_credentials ::
  "(string \<Rightarrow> string) \<Rightarrow> credentials \<Rightarrow> (string \<times> string) option" where
  "normalize_credentials uni req =
     (let email = to_lower uni (trim_space (cd_email req)); password = cd_password req in
      if email = [] \<or> \<not> str_contains email ''@'' \<or> length password < min_password_len then None
      else Some (email, password))"

section \<open>Handlers\<close>

definition issue_pair ::
  "jwt_lib \<Rightarrow> string \<Rightarrow> entropy \<Rightarrow> user_row \<Rightarrow> (error + token_response) io" where
  "issue_pair jwt secret en user =
     bindW (issue_access jwt secret (u_id user) (u_email user)) (\<lambda>r.
       case r of
         Inl e \<Rightarrow> returnW (Inl e)
       | Inr (access, expires_in) \<Rightarrow>
           bindW (new_refresh_token en) (\<lambda>r'.
             case r' of
               Inl e \<Rightarrow> returnW (Inl e)
             | Inr (refresh, hash, expires_at) \<Rightarrow>
                 bindW (save_refresh_token (u_id user) hash expires_at) (\<lambda>r''. returnW
                   (case r'' of
                      Inl e \<Rightarrow> Inl e
                    | Inr _ \<Rightarrow>
                        Inr \<lparr>tr_access_token = access, tr_refresh_token = refresh,
                             tr_expires_in = expires_in\<rparr>))))"

definition respond_tokens :: "int \<Rightarrow> error + token_response \<Rightarrow> response" where
  "respond_tokens st r =
     (case r of
        Inl e \<Rightarrow> write_error 500 ''internal_error'' ''could not issue tokens''
      | Inr tokens \<Rightarrow> write_json st (TokensBody tokens))"

definition register ::
  "(string \<Rightarrow> string) \<Rightarrow> jwt_lib \<Rightarrow> bcrypt_lib \<Rightarrow> string \<Rightarrow> entropy \<Rightarrow> request \<Rightarrow> response io" where
  "register uni jwt bc secret en rq =
     (case decode_body decode_credentials rq of
        None \<Rightarrow> returnW (write_error 400 ''bad_request'' ''invalid json'')
      | Some req \<Rightarrow>
          (case normalize_credentials uni req of
             None \<Rightarrow> returnW (write_error 400 ''validation_error'' ''email and password (min 8) required'')
           | Some (email, password) \<Rightarrow>
               (case bc_generate bc (en_salt en) password bcrypt_cost of
                  None \<Rightarrow> returnW (write_error 500 ''internal_error'' ''could not hash password'')
                | Some hash \<Rightarrow>
                    bindW (create_user email hash) (\<lambda>r.
                      case r of
                        Inl e \<Rightarrow> returnW
                          (if errors_is e ErrEmailTaken
                           then write_error 409 ''email_taken'' ''email already registered''
                           else write_error 500 ''internal_error'' ''could not create user'')
                      | Inr user \<Rightarrow>
                          bindW (issue_pair jwt secret en user) (\<lambda>t. returnW (respond_tokens 201 t))))))"

definition login ::
  "(string \<Rightarrow> string) \<Rightarrow> jwt_lib \<Rightarrow> bcrypt_lib \<Rightarrow> string \<Rightarrow> entropy \<Rightarrow> request \<Rightarrow> response io" where
  "login uni jwt bc secret en rq =
     (case decode_body decode_credentials rq of
        None \<Rightarrow> returnW (write_error 400 ''bad_request'' ''invalid json'')
      | Some req \<Rightarrow>
          (case normalize_credentials uni req of
             None \<Rightarrow> returnW (write_error 400 ''validation_error'' ''email and password required'')
           | Some (email, password) \<Rightarrow>
               bindW (user_by_email email) (\<lambda>r.
                 case r of
                   Inl e \<Rightarrow> returnW
                     (if errors_is e ErrUserNotFound
                      then write_error 401 ''invalid_credentials'' ''invalid email or password''
                      else write_error 500 ''internal_error'' ''lookup failed'')
                 | Inr user \<Rightarrow>
                     if \<not> bc_compare bc (u_password_hash user) password
                     then returnW (write_error 401 ''invalid_credentials'' ''invalid email or password'')
                     else bindW (issue_pair jwt secret en user) (\<lambda>t. returnW (respond_tokens 200 t)))))"

definition refresh_handler :: "jwt_lib \<Rightarrow> string \<Rightarrow> entropy \<Rightarrow> request \<Rightarrow> response io" where
  "refresh_handler jwt secret en rq =
     (case decode_body decode_refresh_request rq of
        None \<Rightarrow> returnW (write_error 400 ''bad_request'' ''invalid json'')
      | Some token \<Rightarrow>
          (let plain = trim_space token in
           if plain = []
           then returnW (write_error 400 ''validation_error'' ''refresh_token required'')
           else
             bindW (consume_refresh_token (hash_refresh plain)) (\<lambda>r.
               case r of
                 Inl e \<Rightarrow> returnW
                   (if errors_is e ErrInvalidRefresh
                    then write_error 401 ''invalid_refresh'' ''refresh token invalid or expired''
                    else write_error 500 ''internal_error'' ''refresh failed'')
               | Inr uid \<Rightarrow>
                   bindW (user_by_id uid) (\<lambda>r'.
                     case r' of
                       Inl e \<Rightarrow> returnW
                         (write_error 401 ''invalid_refresh'' ''refresh token invalid or expired'')
                     | Inr user \<Rightarrow>
                         bindW (issue_pair jwt secret en user) (\<lambda>t. returnW (respond_tokens 200 t))))))"

definition me :: "user_ctx option \<Rightarrow> request \<Rightarrow> response io" where
  "me ctx rq =
     (case ctx of
        None \<Rightarrow> returnW (write_error 401 ''unauthorized'' ''missing auth'')
      | Some u \<Rightarrow>
          bindW (user_by_id (uc_id u)) (\<lambda>r. returnW
            (case r of
               Inl e \<Rightarrow>
                 if errors_is e ErrUserNotFound
                 then write_error 401 ''unauthorized'' ''user not found''
                 else write_error 500 ''internal_error'' ''lookup failed''
             | Inr user \<Rightarrow> write_json 200 (MeBody \<lparr>me_id = u_id user, me_email = u_email user\<rparr>))))"

context db_contract
begin

lemma keeps_issue_access: "keeps G (issue_access jwt secret uid email)"
  unfolding issue_access_def by (intro keeps_rules)

lemma keeps_parse_access: "keeps G (parse_access jwt secret token)"
  unfolding parse_access_def by (intro keeps_rules)

lemma keeps_new_refresh: "keeps G (new_refresh_token en)"
  unfolding new_refresh_token_def Let_def by (intro keeps_rules)

lemma keeps_issue_pair: "keeps G (issue_pair jwt secret en user)"
  unfolding issue_pair_def
  by (intro keeps_issue_access keeps_new_refresh keeps_rules keeps_store)

lemma keeps_register: "keeps G (register uni jwt bc secret en rq)"
  unfolding register_def by (intro keeps_issue_pair keeps_rules keeps_store)

lemma keeps_login: "keeps G (login uni jwt bc secret en rq)"
  unfolding login_def by (intro keeps_issue_pair keeps_rules keeps_store)

lemma keeps_refresh_handler: "keeps G (refresh_handler jwt secret en rq)"
  unfolding refresh_handler_def Let_def by (intro keeps_issue_pair keeps_rules keeps_store)

lemma keeps_me: "keeps G (me ctx rq)"
  unfolding me_def by (intro keeps_rules keeps_store)

lemma keeps_require_auth:
  "(\<And>ctx rq. keeps G (h ctx rq)) \<Longrightarrow> keeps G (require_auth jwt secret h rq)"
  unfolding require_auth_def Let_def by (intro keeps_parse_access keeps_rules) auto

lemmas keeps_auth = keeps_register keeps_login keeps_refresh_handler keeps_me

end

end
