(* ===== verification/Demo.thy ===== *)
theory Demo
  imports Http
begin

text \<open>\<open>api/internal/demo/handler.go\<close>: inserting a handful of demo events for the caller.\<close>

definition demo_rule_name :: string where
  "demo_rule_name = ''Demo balance watch''"

record simulate_request =
  sq_count :: int
  sq_ensure_demo_rule :: bool

definition decode_simulate_request :: "json \<Rightarrow> simulate_request option" where
  "decode_simulate_request v =
     Option.bind (dec_struct v) (\<lambda>ms.
     Option.bind (dec_field ''count'' dec_int ms 0) (\<lambda>n.
     Option.bind (dec_field ''ensure_demo_rule'' dec_bool ms False) (\<lambda>b.
       Some \<lparr>sq_count = n, sq_ensure_demo_rule = b\<rparr>)))"

text \<open>An empty body (\<open>io.EOF\<close>) is the zero request.\<close>

definition simulate_body :: "request \<Rightarrow> simulate_request option" where
  "simulate_body rq =
     (case body_value rq of
        Inl EOF \<Rightarrow> Some \<lparr>sq_count = 0, sq_ensure_demo_rule = False\<rparr>
      | Inl Malformed \<Rightarrow> None
      | Inr v \<Rightarrow> decode_simulate_request v)"

definition clamp_count :: "int \<Rightarrow> nat" where
  "clamp_count n = (let n' = (if n \<le> 0 then 1 else n) in nat (if n' > 5 then 5 else n'))"

record demo_spec =
  ds_event_type :: string
  ds_amount :: num_lit
  ds_asset :: string

definition demo_specs :: "demo_spec list" where
  "demo_specs =
     [\<lparr>ds_event_type = ''balance_drop'', ds_amount = Num False ''120'' ''5'' None, ds_asset = ''USDC''\<rparr>,
      \<lparr>ds_event_type = ''swap_quote'', ds_amount = Num False ''40'' [] None, ds_asset = ''ETH''\<rparr>,
      \<lparr>ds_event_type = ''balance_drop'', ds_amount = Num False ''85'' [] None, ds_asset = ''USDC''\<rparr>,
      \<lparr>ds_event_type = ''swap_quote'', ds_amount = Num False ''12'' ''5'' None, ds_asset = ''ETH''\<rparr>,
      \<lparr>ds_event_type = ''balance_drop'', ds_amount = Num False ''200'' [] None, ds_asset = ''USDT''\<rparr>]"

text \<open>\<open>json.Marshal\<close> of the map, members in the order of their names.\<close>

definition demo_payload :: "nat \<Rightarrow> demo_spec \<Rightarrow> json" where
  "demo_payload i spec =
     JObj [(''address_label'', JStr ''hot-sim-1''), (''amount'', JNum (ds_amount spec)),
           (''asset'', JStr (ds_asset spec)), (''note'', JStr (''demo inject '' @ show_nat (i + 1)))]"

definition demo_key :: "int \<Rightarrow> nat \<Rightarrow> string" where
  "demo_key now_ns i = ''demo_'' @ show_int now_ns @ ''_'' @ show_nat (i + 1)"

definition ensure_demo_rule :: "string \<Rightarrow> (error + uuid \<times> bool) io" where
  "ensure_demo_rule uid =
     bindW (list_rules_by_user uid) (\<lambda>r.
       case r of
         Inl e \<Rightarrow> returnW (Inl e)
       | Inr existing \<Rightarrow>
           (case List.find (\<lambda>x. r_name x = demo_rule_name) existing of
              Some x \<Rightarrow> returnW (Inr (r_id x, False))
            | None \<Rightarrow>
                bindW (create_rule uid
                         \<lparr>ri_name = demo_rule_name, ri_event_type = ''balance_drop'',
                          ri_threshold = Some 100, ri_enabled = True\<rparr>) (\<lambda>r'. returnW
                  (case r' of Inl e \<Rightarrow> Inl e | Inr created \<Rightarrow> Inr (r_id created, True)))))"

text \<open>The loop from \<open>i\<close> on with \<open>n\<close> events to go.\<close>

fun inject :: "string \<Rightarrow> int \<Rightarrow> nat \<Rightarrow> nat \<Rightarrow> (error + event list) io" where
  "inject uid now_ns i 0 = returnW (Inr [])"
| "inject uid now_ns i (Suc n) =
     (let spec = demo_specs ! (i mod length demo_specs) in
      bindW (create_pending
               \<lparr>ci_user_id = uid, ci_idempotency_key = demo_key now_ns i,
                ci_type = ds_event_type spec, ci_payload = Some (demo_payload i spec)\<rparr>) (\<lambda>r.
        case r of
          Inl e \<Rightarrow> returnW (Inl e)
        | Inr (ev, _) \<Rightarrow>
            bindW (inject uid now_ns (Suc i) n) (\<lambda>r'. returnW
              (case r' of Inl e \<Rightarrow> Inl e | Inr evs \<Rightarrow> Inr (ev # evs)))))"

definition demo_hint :: string where
  "demo_hint =
     ''Events start as pending. Watch the list refresh as the worker claims and processes them.''"

definition inject_and_answer :: "string \<Rightarrow> nat \<Rightarrow> (uuid \<times> bool) option \<Rightarrow> response io" where
  "inject_and_answer uid n demo_rule =
     bindW nowW (\<lambda>now.
     bindW (inject uid (now * 1000) 0 n) (\<lambda>r.
       case r of
         Inl e \<Rightarrow> bindW (error_textW e) (\<lambda>msg. returnW (write_error 500 ''create_failed'' msg))
       | Inr out \<Rightarrow> returnW (write_json 201 (SimulateBody
           \<lparr>sr_events = out, sr_demo_rule_id = map_option fst demo_rule,
            sr_demo_rule_created = (case demo_rule of None \<Rightarrow> False | Some (_, c) \<Rightarrow> c),
            sr_hint = demo_hint\<rparr>))))"

definition simulate :: "user_ctx option \<Rightarrow> request \<Rightarrow> response io" where
  "simulate ctx rq =
     (case ctx of
        None \<Rightarrow> returnW (write_error 401 ''unauthorized'' ''missing user'')
      | Some user \<Rightarrow>
          (case simulate_body rq of
             None \<Rightarrow> returnW (write_error 400 ''invalid_json'' ''invalid json body'')
           | Some req \<Rightarrow>
               if sq_ensure_demo_rule req
               then bindW (ensure_demo_rule (uc_id user)) (\<lambda>r.
                      case r of
                        Inl e \<Rightarrow> bindW (error_textW e) (\<lambda>msg. returnW (write_error 500 ''rule_error'' msg))
                      | Inr rule \<Rightarrow> inject_and_answer (uc_id user) (clamp_count (sq_count req)) (Some rule))
               else inject_and_answer (uc_id user) (clamp_count (sq_count req)) None))"

context db_contract
begin

lemma keeps_ensure_demo_rule: "keeps G (ensure_demo_rule uid)"
  unfolding ensure_demo_rule_def by (intro keeps_rules keeps_store)

lemma keeps_inject: "keeps G (inject uid now_ns i n)"
proof (induction n arbitrary: i)
  case (Suc n)
  show ?case
    unfolding inject.simps Let_def by (intro Suc.IH keeps_rules keeps_store)
qed (simp add: keeps_return)

lemma keeps_simulate: "keeps G (simulate ctx rq)"
  unfolding simulate_def inject_and_answer_def
  by (intro keeps_ensure_demo_rule keeps_inject keeps_rules keeps_store)

end

section \<open>Bounds\<close>

lemma clamp_count_bounds: "1 \<le> clamp_count n \<and> clamp_count n \<le> 5"
  by (auto simp: clamp_count_def)

lemma clamp_count_id: "1 \<le> n \<Longrightarrow> n \<le> 5 \<Longrightarrow> clamp_count n = nat n"
  by (simp add: clamp_count_def)

end
