(* ===== verification/Json_Encode.thy ===== *)
theory Json_Encode
  imports Json
begin

text \<open>
  \<open>json.Marshal\<close> of strings (with the HTML-safe escapes that are the default) and of \<open>float64\<close>,
  for the prompt, whose bytes are hashed, and for the responses.
\<close>

section \<open>Strings\<close>

definition u_escape :: "nat \<Rightarrow> string" where
  "u_escape r =
     [CHR 0x5C, CHR ''u'', hex_digit (r div 4096), hex_digit (r div 256), hex_digit (r div 16), hex_digit r]"

definition escape_byte :: "char \<Rightarrow> string" where
  "escape_byte c =
     (if c = CHR 0x22 \<or> c = CHR 0x5C then [CHR 0x5C, c]
      else if c = CHR 0x08 then [CHR 0x5C, CHR ''b'']
      else if c = CHR 0x0C then [CHR 0x5C, CHR ''f'']
      else if c = CHR 0x0A then [CHR 0x5C, CHR ''n'']
      else if c = CHR 0x0D then [CHR 0x5C, CHR ''r'']
      else if c = CHR 0x09 then [CHR 0x5C, CHR ''t'']
      else if byte_of c < 0x20 \<or> c = CHR ''<'' \<or> c = CHR ''>'' \<or> c = CHR ''&'' then u_escape (byte_of c)
      else [c])"

definition line_separators :: "string list" where
  "line_separators = [[CHR 0xE2, CHR 0x80, CHR 0xA8], [CHR 0xE2, CHR 0x80, CHR 0xA9]]"

text \<open>One step of the encoder: what it writes and how many bytes it consumes.\<close>

definition escape_next :: "string \<Rightarrow> string \<times> nat" where
  "escape_next s =
     (let w = utf8_width s in
      if is_ascii (hd s) then (escape_byte (hd s), 1)
      else if w = 0 then (u_escape 0xFFFD, 1)
      else if take w s = line_separators ! 0 then (u_escape 0x2028, w)
      else if take w s = line_separators ! 1 then (u_escape 0x2029, w)
      else (take w s, w))"

lemma escape_next_progress: "0 < snd (escape_next s)"
  by (auto simp: escape_next_def Let_def)

function escape_chars :: "string \<Rightarrow> string" where
  "escape_chars s =
     (if s = [] then [] else fst (escape_next s) @ escape_chars (drop (snd (escape_next s)) s))"
  by pat_completeness auto
termination
  by (relation "measure length") (use escape_next_progress in auto)

declare escape_chars.simps [simp del]

definition json_quote :: "string \<Rightarrow> string" where
  "json_quote s = [CHR 0x22] @ escape_chars s @ [CHR 0x22]"

text \<open>What the encoder writes holds no control character, so no line break.\<close>

definition printable :: "char \<Rightarrow> bool" where
  "printable c \<longleftrightarrow> 0x20 \<le> byte_of c"

lemma printable_lits [simp]:
  "printable (CHR 0x22)" "printable (CHR 0x5C)" "printable (CHR ''u'')" "printable (CHR ''b'')"
  "printable (CHR ''f'')" "printable (CHR ''n'')" "printable (CHR ''r'')" "printable (CHR ''t'')"
  "printable (CHR ''.'')" "printable (CHR ''e'')" "printable (CHR ''-'')" "printable (CHR ''+'')"
  "printable (CHR ''0'')"
  by (simp_all add: printable_def byte_of_def)

lemma hex_digit_printable [simp]: "printable (hex_digit n)"
proof -
  have "hex_digit n \<in> set ''0123456789abcdef''"
    unfolding hex_digit_def by (rule nth_mem) simp
  moreover have "list_all printable ''0123456789abcdef''"
    by (simp add: printable_def byte_of_def)
  ultimately show ?thesis by (auto simp: list_all_iff)
qed

lemma u_escape_printable [simp]: "list_all printable (u_escape r)"
  by (simp add: u_escape_def)

lemma escape_byte_printable [simp]: "list_all printable (escape_byte c)"
proof (cases "printable c")
  case True
  then show ?thesis by (simp add: escape_byte_def)
next
  case False
  then have "byte_of c < 0x20" by (simp add: printable_def)
  then show ?thesis by (simp add: escape_byte_def)
qed

text \<open>All bytes of a multi-byte sequence are at least \<open>0x80\<close>.\<close>

lemma byte_in_high: "byte_in lo hi s i \<Longrightarrow> 0x80 \<le> lo \<Longrightarrow> 0x80 \<le> byte_of (s ! i)"
  by (simp add: byte_in_def)

lemma utf8_tail_high:
  "1 < utf8_width s \<Longrightarrow> 0x80 \<le> byte_of (s ! 1)"
  "2 < utf8_width s \<Longrightarrow> 0x80 \<le> byte_of (s ! 2)"
  "3 < utf8_width s \<Longrightarrow> 0x80 \<le> byte_of (s ! 3)"
  unfolding utf8_width_def Let_def by (simp_all split: if_splits) (elim conjE disjE byte_in_high; simp)+

lemma utf8_width_le: "utf8_width s \<le> 4"
  unfolding utf8_width_def Let_def by (simp split: if_split)

lemma utf8_take_high:
  assumes "\<not> is_ascii (hd s)" "s \<noteq> []"
  shows "list_all printable (take (utf8_width s) s)"
  unfolding list_all_length
proof (intro allI impI)
  fix i assume "i < length (take (utf8_width s) s)"
  then have i: "i < utf8_width s" "take (utf8_width s) s ! i = s ! i" by simp_all
  have "i < 4" using i(1) utf8_width_le [of s] by simp
  then have "i \<in> {0, 1, 2, 3}" by auto
  moreover have "0x80 \<le> byte_of (s ! 0)"
    using assms by (simp add: is_ascii_def hd_conv_nth)
  ultimately have "0x80 \<le> byte_of (s ! i)"
    using i(1) utf8_tail_high [of s] by (elim insertE) simp_all
  then show "printable (take (utf8_width s) s ! i)" by (simp add: i(2) printable_def)
qed

lemma escape_next_printable: "s \<noteq> [] \<Longrightarrow> list_all printable (fst (escape_next s))"
  using utf8_take_high [of s] by (auto simp: escape_next_def Let_def)

lemma escape_chars_printable: "list_all printable (escape_chars s)"
proof (induction s rule: escape_chars.induct)
  case (1 s)
  then show ?case
    by (subst escape_chars.simps) (simp add: escape_next_printable)
qed

lemma json_quote_printable: "list_all printable (json_quote s)"
  by (simp add: json_quote_def escape_chars_printable)

section \<open>Numbers\<close>

text \<open>The exponent \<open>e\<close> with \<open>10 powi e \<le> x < 10 powi (e + 1)\<close>, from the length of a decimal.\<close>

definition dec_exponent :: "rat \<Rightarrow> int" where
  "dec_exponent x =
     (if x \<ge> 1 then int (length (show_nat (nat \<lfloor>x\<rfloor>))) - 1
      else - int (length (show_nat (nat (\<lceil>1 / x\<rceil> - 1)))))"

text \<open>The \<open>n\<close>-digit decimal next to \<open>x\<close> that reads back as \<open>x\<close>, if there is one.\<close>

definition n_digits :: "rat \<Rightarrow> nat \<Rightarrow> nat option" where
  "n_digits x n =
     (let u = 10 powi (dec_exponent x - int n + 1);
          lo = \<lfloor>x / u\<rfloor>; hi = \<lceil>x / u\<rceil>;
          near = (if x / u - of_int lo \<le> of_int hi - x / u then [lo, hi] else [hi, lo])
      in map_option nat (List.find (\<lambda>m. round64 (of_int m * u) = Some x) near))"

text \<open>Seventeen digits are always enough (\<open>Float_Text\<close>), so the first equation is never reached with \<open>shortest\<close>.\<close>

fun shortest_from :: "rat \<Rightarrow> nat \<Rightarrow> nat \<Rightarrow> nat \<times> nat" where
  "shortest_from x n 0 = (nat \<lfloor>x / 10 powi (dec_exponent x - 16)\<rfloor>, 17)"
| "shortest_from x n (Suc k) =
     (case n_digits x n of Some m \<Rightarrow> (m, n) | None \<Rightarrow> shortest_from x (Suc n) k)"

definition shortest :: "rat \<Rightarrow> nat \<times> nat" where
  "shortest x = shortest_from x 1 17"

definition zeros :: "int \<Rightarrow> string" where
  "zeros n = replicate (nat n) CHR ''0''"

text \<open>Positional notation of the digits \<open>ds\<close>, the first with weight \<open>10 powi e\<close>.\<close>

definition format_f :: "string \<Rightarrow> int \<Rightarrow> string" where
  "format_f ds e =
     (if e < 0 then ''0.'' @ zeros (- e - 1) @ ds
      else if int (length ds) \<le> e + 1 then ds @ zeros (e + 1 - int (length ds))
      else take (nat (e + 1)) ds @ ''.'' @ drop (nat (e + 1)) ds)"

text \<open>Scientific notation, with the leading zero of a negative exponent removed as
  \<open>encoding/json\<close> does.\<close>

definition format_e :: "string \<Rightarrow> int \<Rightarrow> string" where
  "format_e ds e =
     take 1 ds @ (if length ds > 1 then ''.'' @ drop 1 ds else []) @
     (if e < 0 then ''e-'' @ show_nat (nat (- e))
      else ''e+'' @ (if e < 10 then ''0'' else []) @ show_nat (nat e))"

definition float_text_pos :: "rat \<Rightarrow> string" where
  "float_text_pos x =
     (let (m, n) = shortest x; ds = show_nat m;
          e = dec_exponent x + (int (length ds) - int n)
      in if x < 1 / 10 ^ 6 \<or> x \<ge> 10 ^ 21 then format_e ds e else format_f ds e)"

definition float_text :: "float64 \<Rightarrow> string" where
  "float_text x =
     (if x = 0 then ''0''
      else if x < 0 then ''-'' @ float_text_pos (- x)
      else float_text_pos x)"

text \<open>Only digits, points and exponents.\<close>

lemma show_nat_printable [simp]: "list_all printable (show_nat n)"
  using show_nat_digits [of n] by (auto simp: list_all_iff is_digit_def printable_def)

lemma list_all_take_drop: "list_all P xs \<Longrightarrow> list_all P (take n xs) \<and> list_all P (drop n xs)"
  by (auto simp: list_all_iff dest: in_set_takeD in_set_dropD)

lemma zeros_printable [simp]: "list_all printable (zeros n)"
  by (simp add: zeros_def list_all_iff)

lemma format_f_printable: "list_all printable ds \<Longrightarrow> list_all printable (format_f ds e)"
  by (simp add: format_f_def list_all_take_drop)

lemma format_e_printable: "list_all printable ds \<Longrightarrow> list_all printable (format_e ds e)"
  by (simp add: format_e_def list_all_take_drop)

lemma float_text_printable: "list_all printable (float_text x)"
  by (simp add: float_text_def float_text_pos_def Let_def format_f_printable format_e_printable
      split: prod.split)

end
