(* ===== verification/Config.thy ===== *)
theory Config
  imports GoStrings "HOL-Library.Word"
begin

text \<open>
  \<open>api/internal/config/config.go\<close>: the configuration read from the environment. The environment
  is a function from names to values; an unset variable is the empty string, as
  \<open>os.Getenv\<close> returns it. A \<open>time.Duration\<close> is a 64-bit count of nanoseconds.
\<close>

record config =
  cf_database_url :: string
  cf_jwt_secret :: string
  cf_webhook_secret :: string
  cf_ai_provider :: string
  cf_ai_api_key :: string
  cf_ai_base_url :: string
  cf_http_addr :: string
  cf_demo_process_delay :: "64 word"

definition getenv :: "(string \<Rightarrow> string) \<Rightarrow> string \<Rightarrow> string \<Rightarrow> string" where
  "getenv env key fallback = (let v = env key in if v \<noteq> [] then v else fallback)"

text \<open>\<open>strconv.Atoi\<close>: an optional sign and decimal digits that fit a 64-bit \<open>int\<close>.\<close>

definition atoi_digits :: "string \<Rightarrow> nat option" where
  "atoi_digits ds = (if ds \<noteq> [] \<and> list_all is_digit ds then Some (read_nat_from 0 ds) else None)"

definition atoi :: "string \<Rightarrow> int option" where
  "atoi s =
     (case s of [] \<Rightarrow> None
      | c # cs \<Rightarrow>
          Option.bind
            (if c = CHR ''-'' then map_option (\<lambda>n. - int n) (atoi_digits cs)
             else if c = CHR ''+'' then map_option int (atoi_digits cs)
             else map_option int (atoi_digits s))
            (\<lambda>i. if - (2 ^ 63) \<le> i \<and> i < 2 ^ 63 then Some i else None))"

definition milliseconds :: "int \<Rightarrow> 64 word" where
  "milliseconds n = word_of_int n * 1000000"

definition parse_duration_ms :: "(string \<Rightarrow> string) \<Rightarrow> string \<Rightarrow> int \<Rightarrow> 64 word" where
  "parse_duration_ms env key fallback_ms =
     (let raw = env key in
      if raw = [] then milliseconds fallback_ms
      else case atoi raw of
             None \<Rightarrow> milliseconds fallback_ms
           | Some ms \<Rightarrow> if ms < 0 then milliseconds fallback_ms else milliseconds ms)"

text \<open>\<open>Inl\<close> is the text of the error.\<close>

definition load :: "(string \<Rightarrow> string) \<Rightarrow> string + config" where
  "load env =
     (let cfg = \<lparr>cf_database_url = env ''DATABASE_URL'', cf_jwt_secret = env ''JWT_SECRET'',
                 cf_webhook_secret = env ''WEBHOOK_SECRET'',
                 cf_ai_provider = getenv env ''AI_PROVIDER'' ''mock'',
                 cf_ai_api_key = env ''AI_API_KEY'', cf_ai_base_url = env ''AI_BASE_URL'',
                 cf_http_addr = getenv env ''HTTP_ADDR'' '':8080'',
                 cf_demo_process_delay = parse_duration_ms env ''DEMO_PROCESS_DELAY_MS'' 0\<rparr>;
          missing = (if cf_database_url cfg = [] then [''DATABASE_URL''] else [])
                  @ (if cf_jwt_secret cfg = [] then [''JWT_SECRET''] else [])
                  @ (if cf_webhook_secret cfg = [] then [''WEBHOOK_SECRET''] else [])
      in if missing \<noteq> [] then Inl (''missing required env: '' @ join missing '', '')
         else Inr cfg)"

section \<open>Facts\<close>

lemma load_Inr:
  assumes "load env = Inr cfg"
  shows "cf_database_url cfg \<noteq> []" "cf_jwt_secret cfg \<noteq> []" "cf_webhook_secret cfg \<noteq> []"
    "cf_ai_provider cfg \<noteq> []" "cf_http_addr cfg \<noteq> []"
  using assms by (auto simp: load_def Let_def getenv_def split: if_splits)

lemma atoi_show_nat:
  assumes "n < 2 ^ 63" shows "atoi (show_nat n) = Some (int n)"
proof -
  obtain c cs where s: "show_nat n = c # cs"
    using show_nat_nonempty [of n] by (cases "show_nat n") auto
  then have "is_digit c" using show_nat_digits [of n] by simp
  then have "c \<noteq> CHR ''-''" "c \<noteq> CHR ''+''" by (auto simp: is_digit_def byte_of_def)
  moreover have "atoi_digits (c # cs) = Some n"
    using show_nat_digits [of n] read_show_nat [of n] by (simp add: s atoi_digits_def)
  moreover have "int n < 2 ^ 63" using assms by simp
  ultimately show ?thesis by (simp add: atoi_def s)
qed

lemma sint_milliseconds:
  assumes "0 \<le> n" "n * 1000000 < 2 ^ 63" shows "sint (milliseconds n) = n * 1000000"
proof -
  have "milliseconds n = word_of_int (n * 1000000)"
    by (simp add: milliseconds_def)
  then show ?thesis
    by (simp only: sint_sbintrunc') (rule signed_take_bit_int_eq_self, use assms in simp_all)
qed

end
