(* ===== verification/Ai.thy ===== *)
theory Ai
  imports Rules_Handler Sha256 Json_Encode Config "HOL-Library.List_Lexorder" "HOL-Library.Char_ord"
begin

text \<open>
  \<open>api/internal/ai\<close>: the summary of selected events. The prompt (\<open>prompt.go\<close>), the summary's
  schema (\<open>schema.go\<close>), the two providers (\<open>mock.go\<close>, \<open>openai.go\<close>) and the endpoint
  (\<open>handler.go\<close>). The HTTP client of the OpenAI provider is a parameter.
\<close>

section \<open>Prompt\<close>

record event_fact =
  ef_type :: string
  ef_amount :: "float64 option"
  ef_status :: string
  ef_rule_name :: string

definition amount_from_payload :: "json option \<Rightarrow> float64 option" where
  "amount_from_payload payload =
     Option.bind payload (\<lambda>v.
     Option.bind (dec_raw_map v) (\<lambda>obj.
     Option.bind (obj ''amount'') (\<lambda>raw. dec_float raw 0)))"

text \<open>\<open>json.Marshal\<close> of the map of one fact, members in the order of their names.\<close>

definition fact_line :: "event_fact \<Rightarrow> string" where
  "fact_line f =
     ''{'' @ join
       ((case ef_amount f of None \<Rightarrow> [] | Some a \<Rightarrow> [json_quote ''amount'' @ '':'' @ float_text a])
        @ (if ef_rule_name f \<noteq> [] then [json_quote ''rule_name'' @ '':'' @ json_quote (ef_rule_name f)] else [])
        @ [json_quote ''status'' @ '':'' @ json_quote (ef_status f),
           json_quote ''type'' @ '':'' @ json_quote (ef_type f)]) '','' @ ''}''"

definition newline :: string where
  "newline = [CHR 0x0A]"

definition prompt_head :: string where
  "prompt_head =
     ''Summarize these wallet ops events. Use only the fields provided.'' @ newline @
     ''Return JSON with keys: title, summary_bullets, risk_level, follow_ups, event_ids.'' @ newline @
     ''risk_level must be one of low|medium|high|unknown.'' @ newline @
     ''Events:'' @ newline"

fun prompt_lines :: "nat \<Rightarrow> event_fact list \<Rightarrow> string" where
  "prompt_lines i [] = []"
| "prompt_lines i (f # fs) =
     show_nat (i + 1) @ ''. '' @ fact_line f @ newline @ prompt_lines (Suc i) fs"

definition build_prompt :: "event_fact list \<Rightarrow> string" where
  "build_prompt facts = prompt_head @ prompt_lines 0 facts"

section \<open>Schema\<close>

definition allowed_risk :: "string list" where
  "allowed_risk = [''low'', ''medium'', ''high'', ''unknown'']"

definition validate_summary :: "summary \<Rightarrow> string option" where
  "validate_summary s =
     (if s_title s = [] then Some ''title required''
      else if length (s_summary_bullets s) = 0 then Some ''summary_bullets required''
      else if s_risk_level s \<notin> set allowed_risk then Some ''invalid risk_level''
      else if s_follow_ups s = None then Some ''follow_ups required''
      else if length (s_event_ids s) = 0 then Some ''event_ids required''
      else None)"

definition same_ids :: "string list \<Rightarrow> string list \<Rightarrow> bool" where
  "same_ids got want = (if length got \<noteq> length want then False else sort got = sort want)"

section \<open>Providers\<close>

type_synonym provider = "string \<Rightarrow> string list \<Rightarrow> (error + summary) io"

definition mock_risk :: "nat \<Rightarrow> string" where
  "mock_risk n =
     (let risk = ''low''; risk = (if n \<ge> 3 then ''medium'' else risk)
      in if n \<ge> 8 then ''high'' else risk)"

definition mock_summary :: "string list \<Rightarrow> summary" where
  "mock_summary ids =
     (let n = length ids in
      \<lparr>s_title = ''Ops summary for '' @ show_nat n @ '' event(s)'',
       s_summary_bullets =
         [''Reviewed '' @ show_nat n @ '' allowlisted wallet ops event(s)'',
          ''No free-form user chat was included in the prompt''],
       s_risk_level = mock_risk n,
       s_follow_ups = Some
         [''Confirm matched alert rules still apply'',
          ''Check hot wallet balances if balance_drop present''],
       s_event_ids = ids\<rparr>)"

definition mock_provider :: provider where
  "mock_provider prompt ids = returnW (Inr (mock_summary ids))"

subsection \<open>OpenAI\<close>

record openai =
  oa_api_key :: string
  oa_base_url :: string
  oa_model :: string

definition trim_right_slash :: "string \<Rightarrow> string" where
  "trim_right_slash s = rev (dropWhile (\<lambda>c. c = CHR ''/'') (rev s))"

definition new_openai :: "string \<Rightarrow> string \<Rightarrow> openai" where
  "new_openai key base_url =
     \<lparr>oa_api_key = key,
      oa_base_url = trim_right_slash (if base_url = [] then ''https://api.openai.com/v1'' else base_url),
      oa_model = ''gpt-4o-mini''\<rparr>"

record http_call =
  hq_url :: string
  hq_authorization :: string
  hq_body :: json

record http_reply =
  hr_status :: int
  hr_body :: string
  hr_body_fails :: bool

text \<open>\<open>client.Do\<close>: an error, or a reply whose body can be read or breaks off.\<close>

type_synonym http_client = "http_call \<Rightarrow> (error + http_reply) io"

definition go_truncate :: "string \<Rightarrow> nat \<Rightarrow> string" where
  "go_truncate s n = (if length s \<le> n then s else take n s)"

definition chat_message :: "string \<Rightarrow> string \<Rightarrow> json" where
  "chat_message role content = JObj [(''role'', JStr role), (''content'', JStr content)]"

definition openai_call :: "openai \<Rightarrow> string \<Rightarrow> string list \<Rightarrow> http_call" where
  "openai_call p prompt ids =
     \<lparr>hq_url = oa_base_url p @ ''/chat/completions'',
      hq_authorization = ''Bearer '' @ oa_api_key p,
      hq_body = JObj
        [(''model'', JStr (oa_model p)),
         (''messages'', JArr
           [chat_message ''system'' ''You return only compact JSON matching the requested schema. No markdown.'',
            chat_message ''user'' (prompt @ newline @ ''event_ids: '' @ join ids '','')]),
         (''response_format'', JObj [(''type'', JStr ''json_object'')]),
         (''temperature'', JNum (Num False ''0'' [] None))]\<rparr>"

text \<open>The content of each choice; an omitted field is the empty string.\<close>

definition dec_message :: "string decoder" where
  "dec_message v old = Option.bind (dec_struct v) (\<lambda>ms. dec_field ''content'' dec_string ms old)"

definition dec_choice :: "string decoder" where
  "dec_choice v old = Option.bind (dec_struct v) (\<lambda>ms. dec_field ''message'' dec_message ms old)"

definition decode_envelope :: "json \<Rightarrow> string list option" where
  "decode_envelope v =
     Option.bind (dec_struct v) (\<lambda>ms.
     map_option (\<lambda>c. or_else c []) (dec_field ''choices'' (dec_slice [] dec_choice) ms None))"

definition decode_summary :: "json \<Rightarrow> summary option" where
  "decode_summary v =
     Option.bind (dec_struct v) (\<lambda>ms.
     Option.bind (dec_field ''title'' dec_string ms []) (\<lambda>t.
     Option.bind (dec_field ''summary_bullets'' (dec_slice [] dec_string) ms None) (\<lambda>b.
     Option.bind (dec_field ''risk_level'' dec_string ms []) (\<lambda>r.
     Option.bind (dec_field ''follow_ups'' (dec_slice [] dec_string) ms None) (\<lambda>f.
     Option.bind (dec_field ''event_ids'' (dec_slice [] dec_string) ms None) (\<lambda>i.
       Some \<lparr>s_title = t, s_summary_bullets = or_else b [], s_risk_level = r, s_follow_ups = f,
             s_event_ids = or_else i []\<rparr>))))))"

definition max_reply :: nat where
  "max_reply = 2 ^ 20"

definition openai_answer :: "string list \<Rightarrow> http_reply \<Rightarrow> error + summary" where
  "openai_answer ids resp =
     (if hr_body_fails resp \<and> length (hr_body resp) < max_reply then Inl (Errorf ''unexpected EOF'')
      else
        (let body = take max_reply (hr_body resp) in
         if hr_status resp \<ge> 300
         then Inl (Errorf (''openai status '' @ show_int (hr_status resp) @ '': '' @ go_truncate body 200))
         else
           (case Option.bind (json_unmarshal body) decode_envelope of
              None \<Rightarrow> Inl (Errorf ''openai envelope'')
            | Some [] \<Rightarrow> Inl (Errorf ''openai empty choices'')
            | Some (content # _) \<Rightarrow>
                (case Option.bind (json_unmarshal content) decode_summary of
                   None \<Rightarrow> Inl (Errorf ''openai json schema'')
                 | Some s \<Rightarrow>
                     Inr (if length (s_event_ids s) = 0 then s\<lparr>s_event_ids := ids\<rparr> else s)))))"

definition openai_provider :: "http_client \<Rightarrow> openai \<Rightarrow> provider" where
  "openai_provider client p prompt ids =
     bindW (client (openai_call p prompt ids)) (\<lambda>r. returnW
       (case r of Inl e \<Rightarrow> Inl (Wrap ''openai request'' e) | Inr resp \<Rightarrow> openai_answer ids resp))"

datatype provider_error = Key_required | Unknown_provider string

definition new_provider :: "http_client \<Rightarrow> config \<Rightarrow> provider_error + provider" where
  "new_provider client cfg =
     (if cf_ai_provider cfg = ''mock'' \<or> cf_ai_provider cfg = [] then Inr mock_provider
      else if cf_ai_provider cfg = ''openai'' then
        (if cf_ai_api_key cfg = [] then Inl Key_required
         else Inr (openai_provider client (new_openai (cf_ai_api_key cfg) (cf_ai_base_url cfg))))
      else Inl (Unknown_provider (cf_ai_provider cfg)))"

end
