(* ===== verification/Ai_Handler.thy ===== *)
theory Ai_Handler
  imports Ai "HOL-Library.Multiset"
begin

text \<open>
  \<open>api/internal/ai/handler.go\<close>: \<open>POST /v1/ai/summarize\<close>, and the interface between the handler
  and a provider: the locale states what a provider promises, the handler's success rests on
  that, and the mock provider keeps the promise.
\<close>

section \<open>Handler\<close>

definition max_events :: nat where "max_events = 20"

definition decode_summarize_request :: "json \<Rightarrow> string list option" where
  "decode_summarize_request v =
     Option.bind (dec_struct v) (\<lambda>ms.
     map_option (\<lambda>x. or_else x []) (dec_field ''event_ids'' (dec_slice [] dec_string) ms None))"

text \<open>The loop of \<open>normalizeIDs\<close> with the ids seen so far.\<close>

fun normalize_from :: "string list \<Rightarrow> string list \<Rightarrow> string list" where
  "normalize_from seen [] = []"
| "normalize_from seen (i # is) =
     (let t = trim_space i in
      if t = [] then normalize_from seen is
      else if t \<in> set seen then normalize_from seen is
      else t # normalize_from (t # seen) is)"

definition normalize_ids :: "string list \<Rightarrow> string list" where
  "normalize_ids ids = normalize_from [] ids"

definition request_hash :: "string list \<Rightarrow> string \<Rightarrow> string" where
  "request_hash ids prompt = hex_encode (sha256 (join (sort ids) '','' @ [CHR 0x00] @ prompt))"

definition matched_rule_ids :: "event list \<Rightarrow> string list" where
  "matched_rule_ids evs = filter (\<lambda>i. i \<noteq> []) (List.map_filter ev_matched_rule_id evs)"

text \<open>The fact and the id of one requested event; an id the map does not hold reads as the zero
  \<open>Event\<close>.\<close>

definition event_fact_of :: "(uuid \<times> string) list \<Rightarrow> event option \<Rightarrow> event_fact" where
  "event_fact_of names ev =
     (case ev of
        None \<Rightarrow> \<lparr>ef_type = [], ef_amount = amount_from_payload None, ef_status = [], ef_rule_name = []\<rparr>
      | Some e \<Rightarrow>
          \<lparr>ef_type = ev_type e, ef_amount = amount_from_payload (Some (ev_payload e)),
           ef_status = status_text (ev_status e),
           ef_rule_name = (case ev_matched_rule_id e of None \<Rightarrow> []
                           | Some i \<Rightarrow> or_else (map_of names i) [])\<rparr>)"

definition event_id_of :: "event option \<Rightarrow> string" where
  "event_id_of ev = (case ev of None \<Rightarrow> [] | Some e \<Rightarrow> ev_id e)"

definition summarize_events ::
  "provider \<Rightarrow> string \<Rightarrow> string list \<Rightarrow> (uuid \<times> event) list \<Rightarrow> (uuid \<times> string) list \<Rightarrow> response io" where
  "summarize_events provider uid ids evs names =
     (let found = map (map_of evs) ids;
          facts = map (event_fact_of names) found;
          ordered = map event_id_of found;
          prompt = build_prompt facts
      in bindW (provider prompt ordered) (\<lambda>r.
           case r of
             Inl e \<Rightarrow> returnW (write_error 502 ''ai_error'' ''provider failed to return valid summary'')
           | Inr s \<Rightarrow>
               if validate_summary s \<noteq> None \<or> \<not> same_ids (s_event_ids s) ordered
               then returnW (write_error 502 ''ai_schema_error'' ''provider response failed schema validation'')
               else
                 (let s' = s\<lparr>s_event_ids := ordered\<rparr> in
                  bindW (save_summary uid (request_hash ordered prompt) ordered s') (\<lambda>r'. returnW
                    (case r' of
                       Inl e \<Rightarrow> write_error 500 ''internal_error'' ''could not persist summary''
                     | Inr _ \<Rightarrow> write_json 200 (SummaryBody s'))))))"

definition summarize :: "provider \<Rightarrow> user_ctx option \<Rightarrow> request \<Rightarrow> response io" where
  "summarize provider ctx rq =
     (case ctx of
        None \<Rightarrow> returnW (write_error 401 ''unauthorized'' ''missing auth'')
      | Some user \<Rightarrow>
          (case decode_body decode_summarize_request rq of
             None \<Rightarrow> returnW (write_error 400 ''bad_request'' ''invalid json'')
           | Some raw_ids \<Rightarrow>
               (let ids = normalize_ids raw_ids in
                if length ids = 0
                then returnW (write_error 400 ''validation_error'' ''event_ids required'')
                else if length ids > max_events
                then returnW (write_error 400 ''validation_error'' ''event_ids max is 20'')
                else
                  bindW (get_for_user_ids (uc_id user) ids) (\<lambda>r.
                    case r of
                      Inl e \<Rightarrow> returnW (write_error 500 ''internal_error'' ''could not load events'')
                    | Inr evs \<Rightarrow>
                        if length evs \<noteq> length ids
                        then returnW (write_error 404 ''not_found'' ''one or more events not found'')
                        else
                          bindW (names_by_ids (matched_rule_ids (map snd evs))) (\<lambda>r'.
                            case r' of
                              Inl e \<Rightarrow> returnW (write_error 500 ''internal_error'' ''could not load rules'')
                            | Inr names \<Rightarrow> summarize_events provider (uc_id user) ids evs names)))))"

context db_relation
begin

text \<open>Every provider that start-up accepts is the mock or the client behind \<open>openai_provider\<close>.\<close>

lemma keeps_new_provider:
  assumes "new_provider client cfg = Inr p" "\<And>c. keeps G (client c)"
  shows "keeps G (p prompt ids)"
proof -
  have "p = mock_provider \<or> p = openai_provider client (new_openai (cf_ai_api_key cfg) (cf_ai_base_url cfg))"
    using assms(1) by (auto simp: new_provider_def split: if_splits)
  then show ?thesis
    by (auto simp: mock_provider_def openai_provider_def intro!: keeps_rules assms(2))
qed

end

context db_contract
begin

lemma keeps_summarize:
  assumes "\<And>prompt ids. keeps G (provider prompt ids)"
  shows "keeps G (summarize provider ctx rq)"
  unfolding summarize_def summarize_events_def Let_def
  by (intro assms keeps_rules keeps_store)

end

section \<open>Normalised ids\<close>

lemma normalize_from_spec:
  "distinct (normalize_from seen ids) \<and> set (normalize_from seen ids) = trim_space ` set ids - {[]} - set seen"
proof (induction ids arbitrary: seen)
  case (Cons i ids)
  show ?case using Cons [of seen] Cons [of "trim_space i # seen"] by (auto simp: Let_def)
qed simp

lemma normalize_ids_spec:
  "distinct (normalize_ids ids)" "set (normalize_ids ids) = trim_space ` set ids - {[]}"
  using normalize_from_spec [of "[]" ids] by (simp_all add: normalize_ids_def)

lemma same_ids_mset: "same_ids got want \<longleftrightarrow> mset got = mset want"
proof
  assume "same_ids got want"
  then have "sort got = sort want" unfolding same_ids_def by (meson)
  then have "mset (sort got) = mset (sort want)" by (rule arg_cong)
  then show "mset got = mset want" by (simp only: mset_sort)
next
  assume m: "mset got = mset want"
  have "mset (sort want) = mset got" by (simp only: mset_sort m)
  then have "sort got = sort want" by (rule properties_for_sort) (rule sorted_sort)
  moreover have "length got = length want" by (rule mset_eq_length [OF m])
  ultimately show "same_ids got want" unfolding same_ids_def by simp
qed

section \<open>The provider interface\<close>

text \<open>A faithful provider leaves the world alone and answers any non-empty list of ids with a
  summary that passes the schema check and names these ids.\<close>

locale faithful_provider =
  fixes provider :: provider
  assumes answers: "ids \<noteq> [] \<Longrightarrow> \<exists>s. provider prompt ids w = (Inr s, w)
      \<and> validate_summary s = None \<and> mset (s_event_ids s) = mset ids"
begin

text \<open>With such a provider the answer is decided by whether the audit row can be written.\<close>

lemma summarize_events_saves:
  assumes "ids \<noteq> []"
  shows "\<exists>s s0 hash r w'. save_summary uid (hex_encode hash) (map event_id_of (map (map_of evs) ids)) s w = (r, w')
    \<and> provider (build_prompt (map (event_fact_of names) (map (map_of evs) ids)))
        (map event_id_of (map (map_of evs) ids)) w = (Inr s0, w)
    \<and> s = s0\<lparr>s_event_ids := map event_id_of (map (map_of evs) ids)\<rparr>
    \<and> summarize_events provider uid ids evs names w =
        (case r of Inl e \<Rightarrow> write_error 500 ''internal_error'' ''could not persist summary''
         | Inr _ \<Rightarrow> write_json 200 (SummaryBody s), w')"
proof -
  let ?ordered = "map event_id_of (map (map_of evs) ids)"
  let ?prompt = "build_prompt (map (event_fact_of names) (map (map_of evs) ids))"
  obtain s where p: "provider ?prompt ?ordered w = (Inr s, w)"
    "validate_summary s = None" "mset (s_event_ids s) = mset ?ordered"
    using answers [of ?ordered ?prompt w] assms by (auto simp del: map_map)
  let ?s = "s\<lparr>s_event_ids := ?ordered\<rparr>"
  obtain r w' where save: "save_summary uid (request_hash ?ordered ?prompt) ?ordered ?s w = (r, w')"
    by fastforce
  have "same_ids (s_event_ids s) ?ordered" using p(3) by (simp add: same_ids_mset)
  then have "summarize_events provider uid ids evs names w =
      (case r of Inl e \<Rightarrow> write_error 500 ''internal_error'' ''could not persist summary''
       | Inr _ \<Rightarrow> write_json 200 (SummaryBody ?s), w')"
    using p(1,2) save
    by (simp add: summarize_events_def Let_def bindW_def del: map_map)
  with save show ?thesis
    using p(1) unfolding request_hash_def by blast
qed

end

lemma mock_risk_allowed: "mock_risk n \<in> set allowed_risk"
  by (simp add: mock_risk_def allowed_risk_def)

lemma mock_valid: "ids \<noteq> [] \<Longrightarrow> validate_summary (mock_summary ids) = None"
  using mock_risk_allowed [of "length ids"]
  by (simp add: validate_summary_def mock_summary_def Let_def)

interpretation mock: faithful_provider mock_provider
  by unfold_locales
     (auto simp: mock_provider_def mock_valid, simp add: mock_summary_def Let_def)

end
