(* ===== verification/Migrate.thy ===== *)
theory Migrate
  imports Db "HOL-Library.List_Lexorder" "HOL-Library.Char_ord"
begin

text \<open>
  \<open>api/internal/db/migrate.go\<close>: applying the embedded migrations at start-up. The state is what
  the migrations built so far, an arbitrary type on which the server executes a script
  (\<open>exec\<close>), and the rows of \<open>schema_migrations\<close>. Every use of the pool has a fate: it is
  answered, or the connection breaks at one of the points the code distinguishes; between two
  uses another instance of the server may act.
\<close>

section \<open>The up section\<close>

definition up_marker :: string where "up_marker = ''-- +goose Up''"
definition down_marker :: string where "down_marker = ''-- +goose Down''"

definition up_section :: "string \<Rightarrow> string" where
  "up_section sql =
     (case str_index sql up_marker of
        None \<Rightarrow> trim_space sql
      | Some i \<Rightarrow>
          (let start = i + length up_marker in
           case str_index (drop start sql) down_marker of
             None \<Rightarrow> trim_space (drop start sql)
           | Some n \<Rightarrow> trim_space (take n (drop start sql))))"

section \<open>State\<close>

record 's migrated =
  mg_schema :: 's
  mg_applied :: "string list option" \<comment> \<open>\<open>None\<close>: no table \<open>schema_migrations\<close>\<close>

datatype fate = Fine | Begin_lost | Exec_lost | Record_lost | Commit_lost | Reply_lost

record 's mworld =
  mw_state :: "'s migrated"
  mw_fate :: "nat \<Rightarrow> fate"
  mw_env :: "nat \<Rightarrow> 's migrated \<Rightarrow> 's migrated"
  mw_pc :: nat

definition mw_enter :: "'s mworld \<Rightarrow> 's mworld" where
  "mw_enter w = w\<lparr>mw_state := mw_env w (mw_pc w) (mw_state w), mw_pc := Suc (mw_pc w)\<rparr>"

definition applied_rows :: "'s migrated \<Rightarrow> string list" where
  "applied_rows st = (case mg_applied st of None \<Rightarrow> [] | Some a \<Rightarrow> a)"

section \<open>Statements\<close>

text \<open>One statement through the pool; an error answer changes nothing.\<close>

definition pool_op ::
  "('s migrated \<Rightarrow> error + 'a \<times> 's migrated) \<Rightarrow> 's mworld \<Rightarrow> (error + 'a) \<times> 's mworld" where
  "pool_op q w =
     (let w' = mw_enter w in
      case mw_fate w (mw_pc w) of
        Fine \<Rightarrow>
          (case q (mw_state w') of
             Inl e \<Rightarrow> (Inl e, w')
           | Inr (x, st) \<Rightarrow> (Inr x, w'\<lparr>mw_state := st\<rparr>))
      | Reply_lost \<Rightarrow>
          (case q (mw_state w') of
             Inl e \<Rightarrow> (Inl ConnError, w')
           | Inr (x, st) \<Rightarrow> (Inl ConnError, w'\<lparr>mw_state := st\<rparr>))
      | _ \<Rightarrow> (Inl ConnError, w'))"

definition sql_create_table :: "'s migrated \<Rightarrow> error + unit \<times> 's migrated" where
  "sql_create_table st = Inr ((), st\<lparr>mg_applied := Some (applied_rows st)\<rparr>)"

definition sql_is_applied :: "string \<Rightarrow> 's migrated \<Rightarrow> error + bool \<times> 's migrated" where
  "sql_is_applied name st =
     (case mg_applied st of
        None \<Rightarrow> Inl (PgError ''42P01'')
      | Some a \<Rightarrow> Inr (name \<in> set a, st))"

definition sql_record :: "string \<Rightarrow> 's migrated \<Rightarrow> error + 's migrated" where
  "sql_record name st =
     (case mg_applied st of
        None \<Rightarrow> Inl (PgError ''42P01'')
      | Some a \<Rightarrow>
          if name \<in> set a then Inl (PgError ''23505'') else Inr (st\<lparr>mg_applied := Some (a @ [name])\<rparr>))"

section \<open>Migrate\<close>

text \<open>The transaction of one migration: begin, execute, record, commit.\<close>

definition apply_migration ::
  "(string \<Rightarrow> 's \<Rightarrow> error + 's) \<Rightarrow> string \<Rightarrow> string \<Rightarrow> 's mworld \<Rightarrow> (error + unit) \<times> 's mworld" where
  "apply_migration exec name up w =
     (let w' = mw_enter w; st = mw_state w'; fate = mw_fate w (mw_pc w) in
      if fate = Begin_lost then (Inl (Wrap (''begin '' @ name) ConnError), w')
      else if fate = Exec_lost then (Inl (Wrap (''apply '' @ name) ConnError), w')
      else case exec up (mg_schema st) of
             Inl e \<Rightarrow> (Inl (Wrap (''apply '' @ name) e), w')
           | Inr s \<Rightarrow>
               if fate = Record_lost then (Inl (Wrap (''record '' @ name) ConnError), w')
               else case sql_record name (st\<lparr>mg_schema := s\<rparr>) of
                      Inl e \<Rightarrow> (Inl (Wrap (''record '' @ name) e), w')
                    | Inr st' \<Rightarrow>
                        if fate = Commit_lost then (Inl (Wrap (''commit '' @ name) ConnError), w')
                        else if fate = Reply_lost
                        then (Inl (Wrap (''commit '' @ name) ConnError), w'\<lparr>mw_state := st'\<rparr>)
                        else (Inr (), w'\<lparr>mw_state := st'\<rparr>))"

text \<open>The embedded file system: names with contents; an entry without content is a directory,
  which \<open>ReadFile\<close> refuses. \<open>Glob("*.sql")\<close> matches names of the top directory.\<close>

type_synonym files = "(string \<times> string option) list"

definition sql_files :: "files \<Rightarrow> string list" where
  "sql_files fs = sort (filter (\<lambda>n. suffix ''.sql'' n \<and> CHR ''/'' \<notin> set n) (map fst fs))"

definition read_file :: "files \<Rightarrow> string \<Rightarrow> string option" where
  "read_file fs name = Option.bind (map_of fs name) id"

fun migrate_loop ::
  "(string \<Rightarrow> 's \<Rightarrow> error + 's) \<Rightarrow> files \<Rightarrow> string list \<Rightarrow> 's mworld \<Rightarrow> (error + unit) \<times> 's mworld" where
  "migrate_loop exec fs [] w = (Inr (), w)"
| "migrate_loop exec fs (name # names) w =
     (case pool_op (sql_is_applied name) w of
        (Inl e, w') \<Rightarrow> (Inl (Wrap (''check migration '' @ name) e), w')
      | (Inr True, w') \<Rightarrow> migrate_loop exec fs names w'
      | (Inr False, w') \<Rightarrow>
          (case read_file fs name of
             None \<Rightarrow> (Inl (Wrap (''read migration '' @ name) (Errorf ''is a directory'')), w')
           | Some raw \<Rightarrow>
               (case apply_migration exec name (up_section raw) w' of
                  (Inl e, w'') \<Rightarrow> (Inl e, w'')
                | (Inr _, w'') \<Rightarrow> migrate_loop exec fs names w'')))"

definition migrate ::
  "(string \<Rightarrow> 's \<Rightarrow> error + 's) \<Rightarrow> files \<Rightarrow> 's mworld \<Rightarrow> (error + unit) \<times> 's mworld" where
  "migrate exec fs w =
     (case pool_op sql_create_table w of
        (Inl e, w') \<Rightarrow> (Inl (Wrap ''create schema_migrations'' e), w')
      | (Inr _, w') \<Rightarrow> migrate_loop exec fs (sql_files fs) w')"

section \<open>What the rows record\<close>

text \<open>Executing the named migrations one after the other.\<close>

fun replay :: "(string \<Rightarrow> 's \<Rightarrow> error + 's) \<Rightarrow> files \<Rightarrow> string list \<Rightarrow> 's \<Rightarrow> 's option" where
  "replay exec fs [] s = Some s"
| "replay exec fs (name # names) s =
     (case read_file fs name of
        None \<Rightarrow> None
      | Some raw \<Rightarrow>
          (case exec (up_section raw) s of Inl e \<Rightarrow> None | Inr s' \<Rightarrow> replay exec fs names s'))"

lemma replay_append:
  "replay exec fs (a @ b) s = Option.bind (replay exec fs a s) (replay exec fs b)"
  by (induction a arbitrary: s) (auto split: option.splits sum.splits)

text \<open>The rows name, in order and without repetition, the migrations that built the schema.\<close>

definition recorded :: "(string \<Rightarrow> 's \<Rightarrow> error + 's) \<Rightarrow> files \<Rightarrow> 's \<Rightarrow> 's migrated \<Rightarrow> bool" where
  "recorded exec fs init st \<longleftrightarrow>
     distinct (applied_rows st) \<and> replay exec fs (applied_rows st) init = Some (mg_schema st)"

definition migrates ::
  "(string \<Rightarrow> 's \<Rightarrow> error + 's) \<Rightarrow> files \<Rightarrow> 's \<Rightarrow> 's migrated \<Rightarrow> 's migrated \<Rightarrow> bool" where
  "migrates exec fs init st st' \<longleftrightarrow>
     (recorded exec fs init st \<longrightarrow> recorded exec fs init st')
     \<and> set (applied_rows st) \<subseteq> set (applied_rows st')"

text \<open>The other instances only migrate, too.\<close>

definition others_migrate ::
  "(string \<Rightarrow> 's \<Rightarrow> error + 's) \<Rightarrow> files \<Rightarrow> 's \<Rightarrow> 's mworld \<Rightarrow> bool" where
  "others_migrate exec fs init w \<longleftrightarrow> (\<forall>k st. migrates exec fs init st (mw_env w k st))"

lemma migrates_refl [simp]: "migrates exec fs init st st"
  by (simp add: migrates_def)

lemma migrates_trans:
  "migrates exec fs init st st' \<Longrightarrow> migrates exec fs init st' st'' \<Longrightarrow> migrates exec fs init st st''"
  by (auto simp: migrates_def)

lemma mw_enter_simps [simp]:
  "mw_env (mw_enter w) = mw_env w" "mw_fate (mw_enter w) = mw_fate w"
  "mw_state (mw_enter w) = mw_env w (mw_pc w) (mw_state w)"
  by (simp_all add: mw_enter_def)

lemma applied_rows_simps [simp]:
  "applied_rows (st\<lparr>mg_applied := Some a\<rparr>) = a"
  "applied_rows (st\<lparr>mg_schema := s\<rparr>) = applied_rows st"
  by (simp_all add: applied_rows_def)

text \<open>A step that keeps the relation from the state it finds keeps it from the start.\<close>

lemma pool_op_migrates:
  assumes "others_migrate exec fs init w"
    and "\<And>st x st'. q st = Inr (x, st') \<Longrightarrow> migrates exec fs init st st'"
    and "pool_op q w = (r, w')"
  shows "migrates exec fs init (mw_state w) (mw_state w') \<and> others_migrate exec fs init w'"
proof -
  have e: "migrates exec fs init (mw_state w) (mw_env w (mw_pc w) (mw_state w))"
    using assms(1) by (simp add: others_migrate_def)
  show ?thesis
    using assms e
    by (auto simp: pool_op_def Let_def others_migrate_def split: fate.splits sum.splits prod.splits
        intro: migrates_trans [OF e])
qed

lemma create_table_migrates: "sql_create_table st = Inr (x, st') \<Longrightarrow> migrates exec fs init st st'"
  by (auto simp: sql_create_table_def migrates_def recorded_def)

lemma is_applied_migrates: "sql_is_applied name st = Inr (x, st') \<Longrightarrow> migrates exec fs init st st'"
  by (auto simp: sql_is_applied_def split: option.splits)

lemma record_migrates:
  assumes "exec (up_section raw) (mg_schema st) = Inr s" "read_file fs name = Some raw"
    and "sql_record name (st\<lparr>mg_schema := s\<rparr>) = Inr st'"
  shows "migrates exec fs init st st'" "name \<in> set (applied_rows st')"
proof -
  obtain a where a: "mg_applied st = Some a" "name \<notin> set a"
    "st' = st\<lparr>mg_schema := s, mg_applied := Some (a @ [name])\<rparr>"
    using assms(3) by (auto simp: sql_record_def split: option.splits if_splits)
  then have "applied_rows st = a" by (simp add: applied_rows_def)
  with a assms show "migrates exec fs init st st'" "name \<in> set (applied_rows st')"
    by (auto simp: migrates_def recorded_def replay_append)
qed

lemma apply_migrates:
  assumes "others_migrate exec fs init w" "read_file fs name = Some raw"
    and "apply_migration exec name (up_section raw) w = (r, w')"
  shows "migrates exec fs init (mw_state w) (mw_state w') \<and> others_migrate exec fs init w'"
    and "r = Inr () \<Longrightarrow> name \<in> set (applied_rows (mw_state w'))"
proof -
  have e: "migrates exec fs init (mw_state w) (mw_env w (mw_pc w) (mw_state w))"
    using assms(1) by (simp add: others_migrate_def)
  show "migrates exec fs init (mw_state w) (mw_state w') \<and> others_migrate exec fs init w'"
  proof (cases "mw_state w' = mw_state (mw_enter w)")
    case True
    with assms e show ?thesis
      by (auto simp: apply_migration_def Let_def others_migrate_def split: sum.splits if_splits)
  next
    case False
    with assms obtain s where x: "exec (up_section raw) (mg_schema (mw_state (mw_enter w))) = Inr s"
      "sql_record name (mw_state (mw_enter w)\<lparr>mg_schema := s\<rparr>) = Inr (mw_state w')" "mw_env w' = mw_env w"
      by (auto simp: apply_migration_def Let_def split: sum.splits if_splits)
    have "migrates exec fs init (mw_state (mw_enter w)) (mw_state w')"
      by (rule record_migrates(1)) (use x assms(2) in auto)
    with e x(3) assms(1) show ?thesis
      by (auto simp: others_migrate_def intro: migrates_trans)
  qed
  show "name \<in> set (applied_rows (mw_state w'))" if "r = Inr ()"
    using assms that record_migrates(2)
    by (auto simp: apply_migration_def Let_def split: sum.splits if_splits)
qed

lemma migrate_loop_migrates:
  assumes "others_migrate exec fs init w" "migrate_loop exec fs names w = (r, w')"
  shows "migrates exec fs init (mw_state w) (mw_state w')
    \<and> (r = Inr () \<longrightarrow> set names \<subseteq> set (applied_rows (mw_state w')))"
  using assms
proof (induction names arbitrary: w)
  case (Cons name names)
  obtain x w1 where c: "pool_op (sql_is_applied name) w = (x, w1)" by fastforce
  have m1: "migrates exec fs init (mw_state w) (mw_state w1)" "others_migrate exec fs init w1"
    using pool_op_migrates [where q = "sql_is_applied name", OF Cons.prems(1) is_applied_migrates [where name = name] c]
    by simp_all
  show ?case
  proof (cases "x = Inr True")
    case True
    with c have "name \<in> set (applied_rows (mw_state w1))"
      by (auto simp: pool_op_def Let_def sql_is_applied_def applied_rows_def
          split: fate.splits option.splits)
    moreover have "migrate_loop exec fs names w1 = (r, w')" using True c Cons.prems(2) by simp
    note Cons.IH [OF m1(2) this]
    moreover from this have "set (applied_rows (mw_state w1)) \<subseteq> set (applied_rows (mw_state w'))"
      by (simp add: migrates_def)
    ultimately show ?thesis using migrates_trans [OF m1(1)] by auto
  next
    case False
    show ?thesis
    proof (cases "x = Inr False \<and> (\<exists>raw. read_file fs name = Some raw)")
      case True
      then obtain raw where raw: "read_file fs name = Some raw" by blast
      obtain y w2 where a: "apply_migration exec name (up_section raw) w1 = (y, w2)" by fastforce
      note m2 = apply_migrates [OF m1(2) raw a]
      then have m: "migrates exec fs init (mw_state w) (mw_state w2)" "others_migrate exec fs init w2"
        using migrates_trans [OF m1(1)] by auto
      show ?thesis
      proof (cases y)
        case (Inl e)
        with True c a raw Cons.prems(2) m show ?thesis by auto
      next
        case (Inr u)
        with True c a raw Cons.prems(2) have "migrate_loop exec fs names w2 = (r, w')" by simp
        note ih = Cons.IH [OF m(2) this]
        then have "set (applied_rows (mw_state w2)) \<subseteq> set (applied_rows (mw_state w'))"
          by (simp add: migrates_def)
        with ih m2(2) Inr migrates_trans [OF m(1)] show ?thesis by auto
      qed
    next
      case no: False
      with False c m1 Cons.prems show ?thesis
        by (cases x) (auto split: bool.splits option.splits)
    qed
  qed
qed simp

text \<open>The same for the whole of \<open>Migrate\<close>.\<close>

lemma migrate_migrates:
  assumes "others_migrate exec fs init w" "migrate exec fs w = (r, w')"
  shows "migrates exec fs init (mw_state w) (mw_state w')
    \<and> (r = Inr () \<longrightarrow> set (sql_files fs) \<subseteq> set (applied_rows (mw_state w')))"
proof -
  obtain x w1 where c: "pool_op sql_create_table w = (x, w1)" by fastforce
  note m1 = pool_op_migrates [OF assms(1) create_table_migrates c]
  show ?thesis
  proof (cases x)
    case (Inl e)
    with c m1 assms(2) show ?thesis by (auto simp: migrate_def)
  next
    case (Inr u)
    with c assms(2) have "migrate_loop exec fs (sql_files fs) w1 = (r, w')" by (simp add: migrate_def)
    from migrate_loop_migrates [OF _ this] m1 show ?thesis by (auto intro: migrates_trans)
  qed
qed

section \<open>Undisturbed runs\<close>

definition undisturbed :: "'s mworld \<Rightarrow> bool" where
  "undisturbed w \<longleftrightarrow> (\<forall>k. mw_fate w k = Fine \<and> mw_env w k = id)"

lemma undisturbed_pool_op:
  "undisturbed w \<Longrightarrow> pool_op q w =
     (case q (mw_state w) of
        Inl e \<Rightarrow> (Inl e, w\<lparr>mw_pc := Suc (mw_pc w)\<rparr>)
      | Inr (x, st) \<Rightarrow> (Inr x, w\<lparr>mw_state := st, mw_pc := Suc (mw_pc w)\<rparr>))"
  by (simp add: undisturbed_def pool_op_def mw_enter_def split: sum.splits)

lemma undisturbed_update [simp]:
  "undisturbed (w\<lparr>mw_state := st, mw_pc := k\<rparr>) = undisturbed w"
  "undisturbed (w\<lparr>mw_pc := k\<rparr>) = undisturbed w" "undisturbed (w\<lparr>mw_state := st\<rparr>) = undisturbed w"
  by (simp_all add: undisturbed_def)

lemma migrate_loop_idle:
  assumes "undisturbed w" "mg_applied (mw_state w) = Some a" "set names \<subseteq> set a"
  shows "\<exists>k. migrate_loop exec fs names w = (Inr (), w\<lparr>mw_pc := k\<rparr>)"
  using assms
proof (induction names arbitrary: w)
  case (Cons name names)
  then show ?case
    using Cons.IH [of "w\<lparr>mw_pc := Suc (mw_pc w)\<rparr>"]
    by (auto simp: undisturbed_pool_op sql_is_applied_def)
next
  case Nil
  then show ?case by (intro exI [of _ "mw_pc w"]) simp
qed

lemma migrate_loop_fresh:
  assumes "undisturbed w" "mg_applied (mw_state w) = Some a" "distinct (a @ names)"
    and "replay exec fs names (mg_schema (mw_state w)) = Some s"
  shows "\<exists>k. migrate_loop exec fs names w =
    (Inr (), w\<lparr>mw_state := \<lparr>mg_schema = s, mg_applied = Some (a @ names)\<rparr>, mw_pc := k\<rparr>)"
  using assms
proof (induction names arbitrary: w a)
  case (Cons name names)
  obtain raw s1 where raw: "read_file fs name = Some raw"
    "exec (up_section raw) (mg_schema (mw_state w)) = Inr s1" "replay exec fs names s1 = Some s"
    using Cons.prems(4) by (auto split: option.splits sum.splits)
  let ?w1 = "w\<lparr>mw_pc := Suc (mw_pc w)\<rparr>"
  let ?w2 = "w\<lparr>mw_state := \<lparr>mg_schema = s1, mg_applied = Some (a @ [name])\<rparr>, mw_pc := Suc (Suc (mw_pc w))\<rparr>"
  have "pool_op (sql_is_applied name) w = (Inr False, ?w1)"
    using Cons.prems by (simp add: undisturbed_pool_op sql_is_applied_def)
  moreover have "apply_migration exec name (up_section raw) ?w1 = (Inr (), ?w2)"
    using Cons.prems raw
    by (simp add: apply_migration_def mw_enter_def undisturbed_def sql_record_def)
  moreover have "\<exists>k. migrate_loop exec fs names ?w2 =
      (Inr (), ?w2\<lparr>mw_state := \<lparr>mg_schema = s, mg_applied = Some ((a @ [name]) @ names)\<rparr>, mw_pc := k\<rparr>)"
    by (rule Cons.IH) (use Cons.prems raw in auto)
  ultimately show ?case using raw by simp
next
  case Nil
  then show ?case by (intro exI [of _ "mw_pc w"]) (cases "mw_state w"; simp)
qed

section \<open>No down section\<close>

lemma str_index_None_iff: "str_index s p = None \<longleftrightarrow> \<not> sublist p s"
  by (metis str_contains_iff str_contains_def)

text \<open>Before the first occurrence there is none.\<close>

lemma str_index_first: "p \<noteq> [] \<Longrightarrow> str_index s p = Some n \<Longrightarrow> \<not> sublist p (take n s)"
proof (induction s arbitrary: n)
  case (Cons c s)
  show ?case
  proof (cases "prefix p (c # s)")
    case True
    with Cons.prems show ?thesis by (subst (asm) str_index.simps) simp
  next
    case False
    with Cons.prems(2) obtain m where m: "str_index s p = Some m" "n = Suc m"
      by (subst (asm) str_index.simps) auto
    have "\<not> prefix p (take n (c # s))"
      using False take_is_prefix [of n "c # s"] prefix_order.trans by blast
    with Cons.IH [OF Cons.prems(1) m(1)] m(2) show ?thesis by (simp add: sublist_Cons_right)
  qed
qed (simp add: str_index.simps)

lemma trim_space_sublist: "sublist (trim_space s) s"
proof -
  have "sublist (strip_right space_seqs (strip_left space_seqs s)) (strip_left space_seqs s)"
    by (rule prefix_imp_sublist [OF strip_right_prefix])
  moreover have "sublist (strip_left space_seqs s) s"
    by (rule suffix_imp_sublist [OF strip_left_suffix])
  ultimately show ?thesis unfolding trim_space_def by (rule sublist_order.order_trans)
qed

end
