(* ===== verification/Server.thy ===== *)
theory Server
  imports Auth Demo Ai_Handler Migrate History
begin

text \<open>
  \<open>api/cmd/server/main.go\<close>: start-up, the routing table, and the server as a whole. The path of
  a request is the list of its segments, as the multiplexer of \<open>net/http\<close> sees them after
  cleaning and unescaping.
\<close>

section \<open>Routes\<close>

datatype endpoint =
    Health | Register | Login | Refresh | Me
  | Rules_List | Rules_Create | Rules_Get | Rules_Patch | Rules_Delete
  | Ingest | Events_List | Events_Get | Simulate | Summarize

datatype segment = Lit string | Id_var

record http_request = request +
  hx_method :: string
  hx_path :: "string list"

definition routes :: "(string \<times> segment list \<times> endpoint) list" where
  "routes =
     [(''GET'', [Lit ''v1'', Lit ''health''], Health),
      (''POST'', [Lit ''v1'', Lit ''auth'', Lit ''register''], Register),
      (''POST'', [Lit ''v1'', Lit ''auth'', Lit ''login''], Login),
      (''POST'', [Lit ''v1'', Lit ''auth'', Lit ''refresh''], Refresh),
      (''GET'', [Lit ''v1'', Lit ''me''], Me),
      (''GET'', [Lit ''v1'', Lit ''alert-rules''], Rules_List),
      (''POST'', [Lit ''v1'', Lit ''alert-rules''], Rules_Create),
      (''GET'', [Lit ''v1'', Lit ''alert-rules'', Id_var], Rules_Get),
      (''PATCH'', [Lit ''v1'', Lit ''alert-rules'', Id_var], Rules_Patch),
      (''DELETE'', [Lit ''v1'', Lit ''alert-rules'', Id_var], Rules_Delete),
      (''POST'', [Lit ''v1'', Lit ''webhooks'', Lit ''events''], Ingest),
      (''GET'', [Lit ''v1'', Lit ''events''], Events_List),
      (''GET'', [Lit ''v1'', Lit ''events'', Id_var], Events_Get),
      (''POST'', [Lit ''v1'', Lit ''demo'', Lit ''simulate''], Simulate),
      (''POST'', [Lit ''v1'', Lit ''ai'', Lit ''summarize''], Summarize)]"

text \<open>The value of \<open>{id}\<close>, empty for a pattern without one.\<close>

fun match_path :: "segment list \<Rightarrow> string list \<Rightarrow> string option" where
  "match_path [] [] = Some []"
| "match_path (Lit l # ps) (s # ss) = (if s = l then match_path ps ss else None)"
| "match_path (Id_var # ps) (s # ss) =
     (if s = [] then None else map_option (\<lambda>_. s) (match_path ps ss))"
| "match_path _ _ = None"

text \<open>A \<open>GET\<close> pattern also matches \<open>HEAD\<close>.\<close>

definition match_method :: "string \<Rightarrow> string \<Rightarrow> bool" where
  "match_method pat m \<longleftrightarrow> m = pat \<or> (pat = ''GET'' \<and> m = ''HEAD'')"

text \<open>\<open>net/http\<close> prefers the more specific pattern; the patterns of this table do not overlap
  (\<open>routing_exact\<close>), so the first match is the only one. Its redirects to a cleaned path are not modelled.\<close>

datatype dispatch = Found endpoint string | Method_not_allowed | Path_not_found

definition route :: "string \<Rightarrow> string list \<Rightarrow> dispatch" where
  "route m path =
     (let hits = filter (\<lambda>(pm, ps, ep). match_path ps path \<noteq> None) routes in
      case filter (\<lambda>(pm, ps, ep). match_method pm m) hits of
        (pm, ps, ep) # _ \<Rightarrow> Found ep (the (match_path ps path))
      | [] \<Rightarrow> if hits = [] then Path_not_found else Method_not_allowed)"

section \<open>Handlers\<close>

text \<open>What \<open>main\<close> builds before it serves, and the libraries the handlers call.\<close>

record services =
  sv_config :: config
  sv_provider :: provider
  sv_lower :: "string \<Rightarrow> string"
  sv_jwt :: jwt_lib
  sv_bcrypt :: bcrypt_lib
  sv_time_ok :: "string \<Rightarrow> bool"

definition protected ::
  "services \<Rightarrow> (user_ctx option \<Rightarrow> request \<Rightarrow> response io) \<Rightarrow> request \<Rightarrow> response io" where
  "protected sv = require_auth (sv_jwt sv) (cf_jwt_secret (sv_config sv))"

fun handle :: "services \<Rightarrow> stats \<Rightarrow> entropy \<Rightarrow> endpoint \<Rightarrow> request \<Rightarrow> response io" where
  "handle sv st en Health rq = health (Some (take_snapshot st)) (Some get_queue_stats)"
| "handle sv st en Register rq =
     register (sv_lower sv) (sv_jwt sv) (sv_bcrypt sv) (cf_jwt_secret (sv_config sv)) en rq"
| "handle sv st en Login rq =
     login (sv_lower sv) (sv_jwt sv) (sv_bcrypt sv) (cf_jwt_secret (sv_config sv)) en rq"
| "handle sv st en Refresh rq =
     refresh_handler (sv_jwt sv) (cf_jwt_secret (sv_config sv)) en rq"
| "handle sv st en Me rq = protected sv me rq"
| "handle sv st en Rules_List rq = protected sv rules_list rq"
| "handle sv st en Rules_Create rq = protected sv rules_create rq"
| "handle sv st en Rules_Get rq = protected sv rules_get rq"
| "handle sv st en Rules_Patch rq = protected sv rules_patch rq"
| "handle sv st en Rules_Delete rq = protected sv rules_delete rq"
| "handle sv st en Ingest rq = ingest (cf_webhook_secret (sv_config sv)) (sv_time_ok sv) rq"
| "handle sv st en Events_List rq = protected sv events_list rq"
| "handle sv st en Events_Get rq = protected sv events_get rq"
| "handle sv st en Simulate rq = protected sv simulate rq"
| "handle sv st en Summarize rq = protected sv (summarize (sv_provider sv)) rq"

definition serve :: "services \<Rightarrow> stats \<Rightarrow> entropy \<Rightarrow> http_request \<Rightarrow> response io" where
  "serve sv st en hx =
     (case route (hx_method hx) (hx_path hx) of
        Path_not_found \<Rightarrow> returnW (write_json 404 (TextBody ''404 page not found''))
      | Method_not_allowed \<Rightarrow> returnW (write_json 405 (TextBody ''Method Not Allowed''))
      | Found ep i \<Rightarrow> handle sv st en ep ((request.truncate hx)\<lparr>rq_path_id := i\<rparr>))"

section \<open>Start-up\<close>

datatype boot_error =
    Config_failed string
  | Connect_failed error
  | Ping_failed error
  | Migrate_failed error
  | Provider_failed provider_error

text \<open>Every failure ends the process. \<open>connect\<close> and \<open>ping\<close> say how \<open>pgxpool.New\<close> and the first
  ping went.\<close>

definition boot ::
  "http_client \<Rightarrow> (string \<Rightarrow> string) \<Rightarrow> (string \<Rightarrow> error option) \<Rightarrow> error option \<Rightarrow>
   (string \<Rightarrow> 's \<Rightarrow> error + 's) \<Rightarrow> files \<Rightarrow> 's mworld \<Rightarrow>
   (boot_error + config \<times> provider \<times> worker) \<times> 's mworld" where
  "boot client env connect ping exec fs w =
     (case load env of
        Inl msg \<Rightarrow> (Inl (Config_failed msg), w)
      | Inr cfg \<Rightarrow>
          (case connect (cf_database_url cfg) of
             Some e \<Rightarrow> (Inl (Connect_failed e), w)
           | None \<Rightarrow>
               (case ping of
                  Some e \<Rightarrow> (Inl (Ping_failed e), w)
                | None \<Rightarrow>
                    (case migrate exec fs w of
                       (Inl e, w') \<Rightarrow> (Inl (Migrate_failed e), w')
                     | (Inr _, w') \<Rightarrow>
                         (case new_provider client cfg of
                            Inl e \<Rightarrow> (Inl (Provider_failed e), w')
                          | Inr p \<Rightarrow> (Inr (cfg, p, new_with_delay (sint (cf_demo_process_delay cfg))), w'))))))"

section \<open>The running server\<close>

text \<open>One server's life as a sequence of requests and worker rounds; what runs beside it, in this
  process or another, is in the world's script.\<close>

datatype action = Request entropy http_request | Worker_round

fun server_run :: "services \<Rightarrow> action list \<Rightarrow> worker \<Rightarrow> (response list \<times> worker) io" where
  "server_run sv [] wk = returnW ([], wk)"
| "server_run sv (Request en hx # as) wk =
     bindW (serve sv (wk_stats wk) en hx) (\<lambda>rs.
     bindW (server_run sv as wk) (\<lambda>(rss, wk'). returnW (rs # rss, wk')))"
| "server_run sv (Worker_round # as) wk = bindW (tick wk) (server_run sv as)"

context db_contract
begin

lemma keeps_health: "keeps G (health st (Some get_queue_stats))"
  unfolding health_def sql_ping_def option.case by (intro keeps_rules keeps_store)

lemma keeps_protected:
  "(\<And>ctx rq. keeps G (h ctx rq)) \<Longrightarrow> keeps G (protected sv h rq)"
  unfolding protected_def by (rule keeps_require_auth)

lemma keeps_handle:
  assumes "\<And>prompt ids. keeps G (sv_provider sv prompt ids)"
  shows "keeps G (handle sv st en ep rq)"
  by (cases ep)
     (simp_all add: keeps_health keeps_auth keeps_protected keeps_rules_list keeps_rules_create
        keeps_rules_get keeps_rules_patch keeps_rules_delete keeps_ingest keeps_events_list
        keeps_events_get keeps_simulate keeps_summarize assms)

lemma keeps_serve:
  assumes "\<And>prompt ids. keeps G (sv_provider sv prompt ids)"
  shows "keeps G (serve sv st en hx)"
  unfolding serve_def by (cases "route (hx_method hx) (hx_path hx)") (simp_all add: keeps_return keeps_handle assms)

lemma keeps_accepted_provider:
  "new_provider client cfg = Inr (sv_provider sv) \<Longrightarrow> (\<And>c. keeps G (client c)) \<Longrightarrow> keeps G (sv_provider sv prompt ids)"
  by (rule keeps_new_provider)

lemma keeps_server_run:
  assumes "\<And>prompt ids. keeps G (sv_provider sv prompt ids)"
  shows "keeps G (server_run sv as wk)"
proof (induction as arbitrary: wk)
  case (Cons a as)
  show ?case
  proof (cases a)
    case (Request en hx)
    then show ?thesis
      by (simp add: case_prod_beta) (intro keeps_serve assms Cons.IH keeps_rules)
  next
    case Worker_round
    then show ?thesis by (simp add: keeps_bind keeps_tick Cons.IH)
  qed
qed (simp add: keeps_return)

end

end
