(* ===== verification/Auth_Spec.thy ===== *)
theory Auth_Spec
  imports Auth Ingest_Spec
begin

text \<open>Who a request comes from, what the JWT library promises, and the lifetime of refresh tokens:
  the facts the properties of authentication rest on.\<close>

section \<open>The caller\<close>

text \<open>The user a request's bearer token names, if the library accepts the token at \<open>now\<close>.\<close>

definition identity :: "jwt_lib \<Rightarrow> string \<Rightarrow> time \<Rightarrow> request \<Rightarrow> user_ctx option" where
  "identity jwt secret now rq =
     (if has_prefix (rq_authorization rq) ''Bearer ''
      then case jw_parse jwt (hs256_key secret) now
                  (trim_space (trim_prefix (rq_authorization rq) ''Bearer '')) of
             None \<Rightarrow> None
           | Some cl \<Rightarrow>
               if cl_subject cl = [] then None
               else Some \<lparr>uc_id = cl_subject cl, uc_email = cl_email cl\<rparr>
      else None)"

lemma require_auth_cases:
  "require_auth jwt secret h rq w =
     (case identity jwt secret (w_now w) rq of
        Some c \<Rightarrow> h (Some c) rq w
      | None \<Rightarrow> (write_error 401 ''unauthorized''
          (if has_prefix (rq_authorization rq) ''Bearer '' then ''invalid access token''
           else ''missing bearer token''), w))"
  by (simp add: require_auth_def identity_def parse_access_def bearer_def bindW_def nowW_def
      split: option.split)

lemma identity_update [simp]:
  "identity jwt secret now (rq\<lparr>rq_path_id := i\<rparr>) = identity jwt secret now rq"
  by (simp_all add: identity_def)

section \<open>Access tokens\<close>

text \<open>What the code relies on of the JWT library: a token signed with HS256 parses to its claims
  under the same key until it expires, and the numeric date of a time is its whole second.\<close>

definition jwt_sound :: "jwt_lib \<Rightarrow> bool" where
  "jwt_sound jwt \<longleftrightarrow>
     (\<forall>secret cl tok key now. jw_sign jwt secret cl = Some tok \<and> key ''HS256'' = Some secret
        \<and> now < cl_expires_at cl \<longrightarrow> jw_parse jwt key now tok = Some cl)
   \<and> (\<forall>t. t - secs 1 < jw_date jwt t \<and> jw_date jwt t \<le> t)
   \<and> (\<forall>secret cl tok. jw_sign jwt secret cl = Some tok \<longrightarrow> trim_space tok = tok)"

lemma issue_access_Inr:
  assumes "issue_access jwt secret uid email w = (Inr (tok, n), w')"
  shows "w' = w" "n = 900"
    "jw_sign jwt secret \<lparr>cl_email = email, cl_subject = uid,
       cl_expires_at = jw_date jwt (w_now w + secs 900), cl_issued_at = jw_date jwt (w_now w)\<rparr> = Some tok"
  using assms duration_secs_whole [of 900]
  by (auto simp: issue_access_def nowW_def bindW_def access_ttl_def time_add_def secs_def split: option.splits)

text \<open>Presenting an issued token within its lifetime, less the second the date loses.\<close>

lemma issued_identity:
  assumes "jwt_sound jwt" "issue_access jwt secret uid email w = (Inr (tok, n), w')" "uid \<noteq> []"
    and "now < w_now w + secs 899" "rq_authorization rq = ''Bearer '' @ tok"
  shows "identity jwt secret now rq = Some \<lparr>uc_id = uid, uc_email = email\<rparr>"
proof -
  note i = issue_access_Inr [OF assms(2)]
  have "w_now w + secs 900 - secs 1 < jw_date jwt (w_now w + secs 900)"
    using assms(1) by (simp add: jwt_sound_def)
  then have "now < jw_date jwt (w_now w + secs 900)" using assms(4) by (simp add: secs_def)
  then have "jw_parse jwt (hs256_key secret) now tok = Some \<lparr>cl_email = email, cl_subject = uid,
       cl_expires_at = jw_date jwt (w_now w + secs 900), cl_issued_at = jw_date jwt (w_now w)\<rparr>"
    using assms(1) i(3) unfolding jwt_sound_def by (auto simp: hs256_key_def)
  moreover have "trim_space tok = tok" using assms(1) i(3) by (simp add: jwt_sound_def)
  moreover have "has_prefix (''Bearer '' @ tok) ''Bearer ''" "trim_prefix (''Bearer '' @ tok) ''Bearer '' = tok"
    by (rule has_prefix_append, rule trim_prefix_append)
  ultimately show ?thesis using assms(3) unfolding identity_def assms(5) by simp
qed

section \<open>Refresh tokens\<close>

definition token_live :: "string \<Rightarrow> db \<Rightarrow> bool" where
  "token_live h d \<longleftrightarrow> (\<exists>t\<in>set (refresh_tokens d). rt_token_hash t = h)"

text \<open>Steps that do not issue a token with this hash again.\<close>

definition no_reissue :: "string \<Rightarrow> db \<Rightarrow> db \<Rightarrow> bool" where
  "no_reissue h d d' \<longleftrightarrow> (token_live h d' \<longrightarrow> token_live h d)"

lemma no_reissue_steps: "(\<lambda>d d'. server_step d d' \<and> no_reissue h d d')\<^sup>*\<^sup>* d d' \<Longrightarrow> \<not> token_live h d \<Longrightarrow> \<not> token_live h d'"
  by (induction rule: rtranclp_induct) (auto simp: no_reissue_def)

lemma tx_consume_Inr:
  assumes "tx_consume_refresh h s d = (Inr x, d')"
  shows "token_live h d" "\<not> token_live h d'"
    "\<exists>t\<in>set (refresh_tokens d). rt_token_hash t = h \<and>
       x = (if se_now s > rt_expires_at t then None else Some (rt_user_id t))"
    "d' = d\<lparr>refresh_tokens := filter (\<lambda>t. rt_token_hash t \<noteq> h) (refresh_tokens d)\<rparr>"
proof -
  have "text_arg s h = Inr h"
    using assms by (cases "pg_text_ok (se_pg s) h") (simp_all add: tx_consume_refresh_def update_def text_arg_def)
  with assms obtain t where t: "List.find (\<lambda>t. rt_token_hash t = h) (refresh_tokens d) = Some t"
    "x = (if se_now s > rt_expires_at t then None else Some (rt_user_id t))"
    "d' = d\<lparr>refresh_tokens := delete_where (\<lambda>t. rt_token_hash t = h) (refresh_tokens d)\<rparr>"
    by (cases "List.find (\<lambda>t. rt_token_hash t = h) (refresh_tokens d)")
       (auto simp: tx_consume_refresh_def update_Inr_iff)
  with find_Some_mem [OF t(1)] show "token_live h d" "\<not> token_live h d'"
    "\<exists>t\<in>set (refresh_tokens d). rt_token_hash t = h \<and>
       x = (if se_now s > rt_expires_at t then None else Some (rt_user_id t))"
    "d' = d\<lparr>refresh_tokens := filter (\<lambda>t. rt_token_hash t \<noteq> h) (refresh_tokens d)\<rparr>"
    by (auto simp: token_live_def delete_where_def)
qed

lemma tx_consume_dead: "\<not> token_live h d \<Longrightarrow> \<exists>e. tx_consume_refresh h s d = (Inl e, d)"
  by (auto simp: tx_consume_refresh_def update_def bindE_def text_arg_def token_live_def
      split: option.splits sum.splits dest!: find_Some_mem)

end
