(* ===== verification/Tenant.thy ===== *)
theory Tenant
  imports Server Auth_Spec
begin

text \<open>Whose rows an answer shows: under every interleaving and every loss of messages, what the
  protected endpoints return belongs to the user the access token names, and so do the rows that an
  answer only names.\<close>

text \<open>\<open>shows_only u b\<close>: every row in the body \<open>b\<close> belongs to \<open>u\<close>.\<close>

fun shows_only :: "uuid \<Rightarrow> body \<Rightarrow> bool" where
  "shows_only u (EventBody e) = (ev_user_id e = u)"
| "shows_only u (EventsBody es) = list_all (\<lambda>e. ev_user_id e = u) es"
| "shows_only u (RuleBody r) = (r_user_id r = u)"
| "shows_only u (RulesBody rs) = list_all (\<lambda>r. r_user_id r = u) rs"
| "shows_only u (MeBody m) = (me_id m = u)"
| "shows_only u (SimulateBody s) = list_all (\<lambda>e. ev_user_id e = u) (sr_events s)"
| "shows_only u (ErrorBody c m) = True"
| "shows_only u NoBody = True"
| "shows_only u (SummaryBody s) = True"
| "shows_only u (TextBody t) = True"
| "shows_only u (UnavailableBody t) = True"
| "shows_only u (TokensBody t) = False"
| "shows_only u (HealthBody w q) = False"

text \<open>\<open>names_own u d b\<close>: the ids that the body \<open>b\<close> only names, those of a summary and the demo rule's,
  are those of events and rules of \<open>u\<close> in \<open>d\<close>. (An event id is empty where the request wrote the id of an
  event otherwise than PostgreSQL prints it.)\<close>

fun names_own :: "uuid \<Rightarrow> db \<Rightarrow> body \<Rightarrow> bool" where
  "names_own u d (SummaryBody s) =
     list_all (\<lambda>i. i = [] \<or> (\<exists>e\<in>set (events d). ev_id e = i \<and> ev_user_id e = u)) (s_event_ids s)"
| "names_own u d (SimulateBody s) =
     (\<forall>i\<in>set_option (sr_demo_rule_id s). \<exists>r\<in>set (alert_rules d). r_id r = i \<and> r_user_id r = u)"
| "names_own u d _ = True"

text \<open>Nobody takes an event or a rule away or gives it to somebody else.\<close>

definition owners_kept :: "db \<Rightarrow> db \<Rightarrow> bool" where
  "owners_kept d d' \<longleftrightarrow>
     (\<lambda>e. (ev_id e, ev_user_id e)) ` set (events d) \<subseteq> (\<lambda>e. (ev_id e, ev_user_id e)) ` set (events d')
   \<and> (\<lambda>r. (r_id r, r_user_id r)) ` set (alert_rules d) \<subseteq> (\<lambda>r. (r_id r, r_user_id r)) ` set (alert_rules d')"

text \<open>The answer of \<open>m\<close> shows rows of the user that \<open>uid\<close> denotes, or none; and if nobody, the
  provider included (\<open>kept\<close>), takes rows away meanwhile, it names rows of this user in the database it leaves behind.\<close>

definition own_body :: "bool \<Rightarrow> uuid \<Rightarrow> world \<Rightarrow> response \<times> world \<Rightarrow> bool" where
  "own_body kept u w r \<longleftrightarrow> shows_only u (rs_body (fst r))
     \<and> (kept \<and> env_ok owners_kept w \<longrightarrow> names_own u (w_db (snd r)) (rs_body (fst r)))"

definition shows_own :: "bool \<Rightarrow> string \<Rightarrow> response io \<Rightarrow> bool" where
  "shows_own kept uid m \<longleftrightarrow>
     (\<forall>w. (\<exists>u. pg_uuid_in (w_pg w) uid = Some u \<and> own_body kept u w (m w)) \<or> (\<forall>u. own_body kept u w (m w)))"

text \<open>The same for what a store method hands to the handler.\<close>

definition yields :: "(pg \<Rightarrow> 'a \<Rightarrow> bool) \<Rightarrow> (error + 'a) io \<Rightarrow> bool" where
  "yields Q m \<longleftrightarrow> (\<forall>w x w'. m w = (Inr x, w') \<longrightarrow> Q (w_pg w) x \<and> w_pg w' = w_pg w)"

definition own_by :: "('a \<Rightarrow> uuid) \<Rightarrow> string \<Rightarrow> pg \<Rightarrow> 'a \<Rightarrow> bool" where
  "own_by f uid p x \<longleftrightarrow> pg_uuid_in p uid = Some (f x)"

lemma shows_own_return: "(\<And>u d. shows_only u (rs_body r) \<and> names_own u d (rs_body r)) \<Longrightarrow> shows_own kept uid (returnW r)"
  by (simp add: shows_own_def own_body_def)

lemma shows_own_bind:
  assumes "yields Q m" "\<And>p x. Q p x \<Longrightarrow>
      (\<exists>u. pg_uuid_in p uid = Some u \<and> shows_only u (rs_body (ok x))) \<or> (\<forall>u. shows_only u (rs_body (ok x)))"
    and "\<And>e u. shows_only u (rs_body (err e))"
    and "\<And>x u d. names_own u d (rs_body (ok x))" "\<And>e u d. names_own u d (rs_body (err e))"
  shows "shows_own kept uid (bindW m (\<lambda>r. returnW (case r of Inl e \<Rightarrow> err e | Inr x \<Rightarrow> ok x)))"
  unfolding shows_own_def
proof
  fix w
  obtain r w' where m: "m w = (r, w')" by fastforce
  let ?r = "bindW m (\<lambda>r. returnW (case r of Inl e \<Rightarrow> err e | Inr x \<Rightarrow> ok x)) w"
  show "(\<exists>u. pg_uuid_in (w_pg w) uid = Some u \<and> own_body kept u w ?r) \<or> (\<forall>u. own_body kept u w ?r)"
  proof (cases r)
    case (Inl e)
    with m assms(3,5) show ?thesis by (simp add: bindW_def own_body_def)
  next
    case (Inr x)
    with m assms(1) have "Q (w_pg w) x" by (simp add: yields_def)
    from assms(2) [OF this] Inr m assms(4) show ?thesis by (simp add: bindW_def own_body_def)
  qed
qed

section \<open>Store methods\<close>

lemma yields_stmt:
  assumes "\<And>s d x d'. q s d = (Inr x, d') \<Longrightarrow> Q (se_pg s) x"
  shows "yields Q (bindW (stmt q) (\<lambda>r. returnW (scan_err nf msg r)))"
    and "yields Q (bindW (stmt q) (\<lambda>r. returnW (wrap_err msg r)))"
  using assms stmt_InrD [of q] stmt_frame(2) [of q]
  by (auto simp: yields_def bindW_def split: prod.splits) (metis snd_conv w_sess_simps(3))+

lemma yields_event_for_user: "yields (own_by ev_user_id uid) (get_for_user uid i)"
  unfolding get_for_user_def
  by (rule yields_stmt)
     (auto simp: sql_event_for_user_def query_def bindE_Inr_iff uuid_arg_def own_by_def
        dest!: find_Some_mem split: option.splits)

lemma yields_list_for_user: "yields (\<lambda>p es. \<forall>e\<in>set es. own_by ev_user_id uid p e) (list_for_user uid st)"
  unfolding list_for_user_def
  by (rule yields_stmt)
     (auto simp: sql_list_events_def query_def bindE_Inr_iff uuid_arg_def own_by_def
        dest!: in_set_takeD split: option.splits)

lemma yields_rule_for_user: "yields (own_by r_user_id uid) (get_rule_for_user uid i)"
  unfolding get_rule_for_user_def
  by (rule yields_stmt)
     (auto simp: sql_rule_for_user_def query_def bindE_Inr_iff uuid_arg_def own_by_def owned_rule_def
        dest!: find_Some_mem split: option.splits)

lemma yields_list_rules: "yields (\<lambda>p rs. \<forall>r\<in>set rs. own_by r_user_id uid p r) (list_rules_by_user uid)"
  unfolding list_rules_by_user_def
  by (rule yields_stmt)
     (auto simp: sql_list_rules_def query_def bindE_Inr_iff uuid_arg_def own_by_def split: option.splits)

lemma yields_create_rule: "yields (own_by r_user_id uid) (create_rule uid inp)"
  unfolding create_rule_def
  by (rule yields_stmt)
     (auto simp: sql_insert_rule_def update_Inr_iff bindE_Inr_iff uuid_arg_def own_by_def
        split: option.splits if_splits)

lemma yields_update_rule:
  "yields (own_by r_user_id uid) (bindW (stmt (sql_update_rule i uid n t thr en)) (\<lambda>r. returnW (scan_err nf msg r)))"
  by (rule yields_stmt)
     (auto simp: sql_update_rule_def update_Inr_iff bindE_Inr_iff uuid_arg_def own_by_def owned_rule_def
        dest!: find_Some_mem split: option.splits if_splits)

lemma yields_user_by_id: "yields (own_by u_id uid) (user_by_id uid)"
  unfolding user_by_id_def
  by (rule yields_stmt)
     (auto simp: sql_user_by_id_def query_def bindE_Inr_iff uuid_arg_def own_by_def
        dest!: find_Some_mem split: option.splits)

lemma yields_update_rule_for_user: "yields (own_by r_user_id uid) (update_rule_for_user uid i inp)"
  unfolding yields_def
proof (intro allI impI)
  fix w x w' assume u: "update_rule_for_user uid i inp w = (Inr x, w')"
  obtain r w1 where g: "get_rule_for_user uid i w = (r, w1)" by fastforce
  with u obtain c where c: "r = Inr c"
    by (cases r) (simp_all add: update_rule_for_user_def bindW_def)
  then have "w_pg w1 = w_pg w" using g yields_rule_for_user [of uid i] by (auto simp: yields_def)
  moreover have "own_by r_user_id uid (w_pg w1) x \<and> w_pg w' = w_pg w1"
    using u g c yields_update_rule [of uid i _ _ _ _ ErrRuleNotFound "''update rule''"]
    unfolding yields_def update_rule_for_user_def bindW_def [of "get_rule_for_user uid i"] g c prod.case sum.case
    by blast
  ultimately show "own_by r_user_id uid (w_pg w) x \<and> w_pg w' = w_pg w" by simp
qed

lemma yields_create_pending:
  "yields (\<lambda>p (ev, c). own_by ev_user_id (ci_user_id inp) p ev) (create_pending inp)"
  unfolding yields_def
proof (intro allI impI)
  fix w x w' assume u: "create_pending inp w = (Inr x, w')"
  obtain ev c where x: "x = (ev, c)" by fastforce
  have pg: "w_pg w' = w_pg w"
    using create_pending_frame(2) [of inp w] u by simp
  show "(case x of (ev, c) \<Rightarrow> own_by ev_user_id (ci_user_id inp) (w_pg w) ev) \<and> w_pg w' = w_pg w"
  proof (cases c)
    case True
    with u x have "create_pending inp w = (Inr (ev, True), w')" by simp
    then show ?thesis
      by (rule create_pending_created) (simp add: x own_by_def same_key_def pg)
  next
    case False
    with u x have "create_pending inp w = (Inr (ev, False), w')" by simp
    then show ?thesis
      by (rule create_pending_replayed) (simp add: x own_by_def same_key_def pg)
  qed
qed

lemma yields_inject: "yields (\<lambda>p es. \<forall>e\<in>set es. own_by ev_user_id uid p e) (inject uid now i n)"
proof (induction n arbitrary: i)
  case (Suc n)
  show ?case
    unfolding yields_def
  proof (intro allI impI)
    fix w x w' assume u: "inject uid now i (Suc n) w = (Inr x, w')"
    let ?spec = "demo_specs ! (i mod length demo_specs)"
    let ?inp = "\<lparr>ci_user_id = uid, ci_idempotency_key = demo_key now i,
                 ci_type = ds_event_type ?spec, ci_payload = Some (demo_payload i ?spec)\<rparr>"
    obtain r w1 where c: "create_pending ?inp w = (r, w1)" by fastforce
    with u obtain ev b where r: "r = Inr (ev, b)"
      by (cases r) (auto simp: Let_def bindW_def)
    obtain r2 w2 where i2: "inject uid now (Suc i) n w1 = (r2, w2)" by fastforce
    with u c r obtain es where es: "r2 = Inr es" "x = ev # es" "w' = w2"
      by (cases r2) (auto simp: Let_def bindW_def)
    have "own_by ev_user_id uid (w_pg w) ev" "w_pg w1 = w_pg w"
      using yields_create_pending [of ?inp] c r by (auto simp: yields_def)
    moreover have "(\<forall>e\<in>set es. own_by ev_user_id uid (w_pg w1) e) \<and> w_pg w2 = w_pg w1"
      using Suc.IH [of "Suc i"] i2 es(1) unfolding yields_def by blast
    ultimately show "(\<forall>e\<in>set x. own_by ev_user_id uid (w_pg w) e) \<and> w_pg w' = w_pg w"
      using es(2,3) by auto
  qed
qed (simp add: yields_def)

section \<open>Handlers\<close>

lemma list_own:
  "(\<forall>x\<in>set xs. own_by f uid p x) \<Longrightarrow> xs = [] \<or> (\<exists>u. pg_uuid_in p uid = Some u \<and> list_all (\<lambda>x. f x = u) xs)"
  by (cases xs) (auto simp: own_by_def list_all_iff)

lemma own_events_list: "shows_own kept (uc_id c) (events_list (Some c) rq)"
  unfolding events_list_def option.case
  by (rule shows_own_bind [OF yields_list_for_user]) (auto dest: list_own)

lemma own_events_get: "shows_own kept (uc_id c) (events_get (Some c) rq)"
  unfolding events_get_def option.case
  by (rule shows_own_bind [OF yields_event_for_user]) (auto simp: own_by_def)

lemma own_rules_list: "shows_own kept (uc_id c) (rules_list (Some c) rq)"
  unfolding rules_list_def option.case
  by (rule shows_own_bind [OF yields_list_rules]) (auto dest: list_own)

lemma own_rules_get: "shows_own kept (uc_id c) (rules_get (Some c) rq)"
  unfolding rules_get_def option.case
  by (rule shows_own_bind [OF yields_rule_for_user]) (auto simp: own_by_def)

lemma own_rules_delete: "shows_own kept (uc_id c) (rules_delete (Some c) rq)"
  unfolding rules_delete_def option.case
  by (rule shows_own_bind [where Q = "\<lambda>p x. True"])
     (auto simp: yields_def delete_rule_for_user_def bindW_def stmt_frame split: prod.splits
        dest!: arg_cong [where f = snd])

lemma own_rules_create: "shows_own kept (uc_id c) (rules_create (Some c) rq)"
proof -
  have "shows_own kept (uc_id c) (bindW (create_rule (uc_id c) inp) (\<lambda>r. returnW
      (case r of Inl e \<Rightarrow> write_error 500 ''internal_error'' ''could not create rule''
       | Inr rule \<Rightarrow> write_json 201 (RuleBody rule))))" for inp
    by (rule shows_own_bind [OF yields_create_rule]) (auto simp: own_by_def)
  then show ?thesis
    unfolding rules_create_def option.case Let_def
    by (auto split: option.splits intro: shows_own_return)
qed

lemma own_rules_patch: "shows_own kept (uc_id c) (rules_patch (Some c) rq)"
proof -
  have "shows_own kept (uc_id c) (bindW (update_rule_for_user (uc_id c) i inp) (\<lambda>r. returnW
      (case r of
         Inl e \<Rightarrow>
           if errors_is e ErrRuleNotFound then write_error 404 ''not_found'' ''alert rule not found''
           else write_error 500 ''internal_error'' ''could not update rule''
       | Inr rule \<Rightarrow> write_json 200 (RuleBody rule))))" for i inp
    by (rule shows_own_bind [OF yields_update_rule_for_user]) (auto simp: own_by_def)
  then show ?thesis
    unfolding rules_patch_def option.case
    by (auto split: option.splits sum.splits intro: shows_own_return)
qed

lemma own_me: "shows_own kept (uc_id c) (me (Some c) rq)"
  unfolding me_def option.case
  by (rule shows_own_bind [OF yields_user_by_id]) (auto simp: own_by_def)

text \<open>Operations that leave the server's input functions alone, which is all of them.\<close>

definition pg_fixed :: "'a io \<Rightarrow> bool" where
  "pg_fixed m \<longleftrightarrow> (\<forall>w. w_pg (snd (m w)) = w_pg w)"

lemma pg_fixed_return: "pg_fixed (returnW x)"
  by (simp add: pg_fixed_def)

lemma pg_fixed_bind: "pg_fixed m \<Longrightarrow> (\<And>x. pg_fixed (f x)) \<Longrightarrow> pg_fixed (bindW m f)"
  by (simp add: pg_fixed_def bindW_def split: prod.split) (metis snd_conv)

lemma pg_fixed_stmt: "pg_fixed (stmt q)"
  by (simp add: pg_fixed_def stmt_frame)

lemma pg_fixed_ensure: "pg_fixed (ensure_demo_rule uid)"
  unfolding ensure_demo_rule_def list_rules_by_user_def create_rule_def
  by (intro pg_fixed_bind pg_fixed_stmt pg_fixed_return)
     (auto split: sum.split option.split intro: pg_fixed_bind pg_fixed_stmt pg_fixed_return)

section \<open>Rows that are only named\<close>

lemma owners_keptD:
  assumes "owners_kept d d'"
  shows "e \<in> set (events d) \<Longrightarrow> \<exists>e'\<in>set (events d'). ev_id e' = ev_id e \<and> ev_user_id e' = ev_user_id e"
    and "r \<in> set (alert_rules d) \<Longrightarrow> \<exists>r'\<in>set (alert_rules d'). r_id r' = r_id r \<and> r_user_id r' = r_user_id r"
proof -
  assume "e \<in> set (events d)"
  then have "(ev_id e, ev_user_id e) \<in> (\<lambda>e. (ev_id e, ev_user_id e)) ` set (events d')"
    using assms by (auto simp: owners_kept_def)
  then show "\<exists>e'\<in>set (events d'). ev_id e' = ev_id e \<and> ev_user_id e' = ev_user_id e" by auto
next
  assume "r \<in> set (alert_rules d)"
  then have "(r_id r, r_user_id r) \<in> (\<lambda>r. (r_id r, r_user_id r)) ` set (alert_rules d')"
    using assms by (auto simp: owners_kept_def)
  then show "\<exists>r'\<in>set (alert_rules d'). r_id r' = r_id r \<and> r_user_id r' = r_user_id r" by auto
qed


text \<open>The rules for \<open>owners_kept\<close>, and the statements of the two endpoints that name rows.\<close>

interpretation owners: db_relation owners_kept
  by unfold_locales (unfold owners_kept_def, simp, meson subset_trans)

lemma owners_insert_event: "keeps owners_kept (stmt (sql_insert_event uid key ty p))"
proof (rule owners.keeps_stmt)
  show "owners_kept d (snd (sql_insert_event uid key ty p s d))" for s d
    using insert_event_effect [of uid key ty p s d] by (auto simp: owners_kept_def)
qed

lemma owners_insert_rule: "keeps owners_kept (stmt (sql_insert_rule uid n ty thr en))"
proof (rule owners.keeps_stmt)
  show "owners_kept d (snd (sql_insert_rule uid n ty thr en s d))" for s d
    by (cases "sql_insert_rule uid n ty thr en s d")
       (auto simp: sql_insert_rule_def update_def bindE_def owners_kept_def split: sum.splits if_splits)
qed

lemma owners_insert_summary: "keeps owners_kept (stmt (sql_insert_summary uid h ids r))"
proof (rule owners.keeps_stmt)
  show "owners_kept d (snd (sql_insert_summary uid h ids r s d))" for s d
    by (auto simp: sql_insert_summary_def update_snd bindE_def owners_kept_def split: sum.splits if_splits)
qed

lemma owners_create_pending: "keeps owners_kept (create_pending inp)"
  unfolding create_pending_def get_by_idempotency_def sql_event_by_key_def
  by (intro owners.keeps_rules owners_insert_event)

lemma owners_inject: "keeps owners_kept (inject uid now i n)"
proof (induction n arbitrary: i)
  case (Suc n)
  show ?case unfolding inject.simps Let_def by (intro Suc.IH owners.keeps_rules owners_create_pending)
qed (simp add: owners.keeps_return)

lemma owners_ensure: "keeps owners_kept (ensure_demo_rule uid)"
  unfolding ensure_demo_rule_def list_rules_by_user_def sql_list_rules_def create_rule_def
  by (intro owners.keeps_rules owners_insert_rule)

text \<open>The demo rule.\<close>

definition own_rule :: "string \<Rightarrow> world \<Rightarrow> uuid \<Rightarrow> bool" where
  "own_rule uid w i \<longleftrightarrow> (\<forall>u. pg_uuid_in (w_pg w) uid = Some u \<longrightarrow>
     (\<exists>r\<in>set (alert_rules (w_db w)). r_id r = i \<and> r_user_id r = u))"

lemma list_rules_own:
  assumes "list_rules_by_user uid w = (Inr rs, w')" "x \<in> set rs" shows "own_rule uid w' (r_id x)"
proof -
  have q: "stmt (sql_list_rules uid) w = (Inr rs, w')"
    using assms(1) by (auto simp: list_rules_by_user_def bindW_def wrap_err_def split: prod.splits sum.splits)
  from stmt_InrD [OF q] stmt_frame(2) [of "sql_list_rules uid" w] q assms(2) show ?thesis
    by (auto simp: sql_list_rules_def query_def bindE_Inr_iff uuid_arg_def own_rule_def split: option.splits)
qed

lemma create_rule_own:
  assumes "create_rule uid inp w = (Inr x, w')" shows "own_rule uid w' (r_id x)"
proof -
  obtain n ty thr en where q: "stmt (sql_insert_rule uid n ty thr en) w = (Inr x, w')"
    using assms by (auto simp: create_rule_def bindW_def wrap_err_def split: prod.splits sum.splits)
  from stmt_InrD [OF q] stmt_frame(2) [of "sql_insert_rule uid n ty thr en" w] q show ?thesis
    by (auto simp: sql_insert_rule_def update_Inr_iff bindE_Inr_iff uuid_arg_def own_rule_def
        split: option.splits if_splits dest!: sym [of _ "w_db w'"])
qed

lemma ensure_own:
  assumes "ensure_demo_rule uid w = (Inr (i, c), w')" shows "own_rule uid w' i"
proof -
  obtain rs w1 where l: "list_rules_by_user uid w = (Inr rs, w1)"
    using assms by (cases "list_rules_by_user uid w") (auto simp: ensure_demo_rule_def bindW_def split: sum.splits)
  show ?thesis
  proof (cases "List.find (\<lambda>x. r_name x = demo_rule_name) rs")
    case None
    with assms l obtain inp x where "create_rule uid inp w1 = (Inr x, w')" "i = r_id x"
      by (auto simp: ensure_demo_rule_def bindW_def split: sum.splits prod.splits)
    then show ?thesis using create_rule_own by blast
  next
    case (Some x)
    with assms l have "i = r_id x" "w' = w1" by (simp_all add: ensure_demo_rule_def bindW_def)
    with list_rules_own [OF l, of x] find_Some_mem [OF Some] show ?thesis by simp
  qed
qed

lemma own_rule_later:
  assumes "own_rule uid w i" "owners_kept (w_db w) (w_db w')" "w_pg w' = w_pg w" shows "own_rule uid w' i"
  unfolding own_rule_def
proof (intro allI impI)
  fix u assume "pg_uuid_in (w_pg w') uid = Some u"
  then obtain r where "r \<in> set (alert_rules (w_db w))" "r_id r = i" "r_user_id r = u"
    using assms(1,3) by (auto simp: own_rule_def)
  then show "\<exists>r\<in>set (alert_rules (w_db w')). r_id r = i \<and> r_user_id r = u"
    using owners_keptD(2) [OF assms(2)] by blast
qed

lemma own_inject:
  assumes "1 \<le> n" "\<forall>x\<in>set_option r. own_rule uid w (fst x)"
  shows "(\<exists>u. pg_uuid_in (w_pg w) uid = Some u \<and> own_body kept u w (inject_and_answer uid n r w))
     \<or> (\<forall>u. own_body kept u w (inject_and_answer uid n r w))"
proof -
  obtain res w' where i: "inject uid (w_now w * 1000) 0 n w = (res, w')" by fastforce
  show ?thesis
  proof (cases res)
    case (Inl e)
    with i show ?thesis by (simp add: inject_and_answer_def bindW_def nowW_def error_textW_def own_body_def)
  next
    case (Inr es)
    with i yields_inject [of uid "w_now w * 1000" 0 n]
    have es: "\<forall>e\<in>set es. own_by ev_user_id uid (w_pg w) e" "w_pg w' = w_pg w"
      unfolding yields_def by blast+
    have "es \<noteq> []"
      using i Inr assms(1) by (cases n) (auto simp: Let_def bindW_def split: prod.splits sum.splits)
    with list_own [OF es(1)] obtain u where u: "pg_uuid_in (w_pg w) uid = Some u" "list_all (\<lambda>x. ev_user_id x = u) es"
      by auto
    have "own_rule uid w' (fst x)" if "x \<in> set_option r" "env_ok owners_kept w" for x
      using own_rule_later [OF _ _ es(2)] assms(2) that keepsD(1) [OF owners_inject that(2)] i
      by (metis snd_conv)
    with u es(2) i Inr show ?thesis
      by (auto simp: inject_and_answer_def bindW_def nowW_def own_body_def own_rule_def)
  qed
qed

lemma own_simulate: "shows_own kept (uc_id c) (simulate (Some c) rq)"
  unfolding shows_own_def
proof
  fix w
  let ?good = "\<lambda>m w. (\<exists>u. pg_uuid_in (w_pg w) (uc_id c) = Some u \<and> own_body kept u w (m w)) \<or> (\<forall>u. own_body kept u w (m w))"
  have n: "1 \<le> clamp_count n" for n using clamp_count_bounds by simp
  show "?good (simulate (Some c) rq) w"
  proof (cases "simulate_body rq")
    case None
    then show ?thesis by (simp add: simulate_def own_body_def)
  next
    case (Some req)
    show ?thesis
    proof (cases "sq_ensure_demo_rule req")
      case False
      with own_inject [OF n, of None] Some show ?thesis by (simp add: simulate_def)
    next
      case True
      obtain res w1 where e: "ensure_demo_rule (uc_id c) w = (res, w1)" by fastforce
      show ?thesis
      proof (cases res)
        case (Inl err)
        with e True Some show ?thesis by (simp add: simulate_def bindW_def error_textW_def own_body_def)
      next
        case (Inr x)
        obtain i b where x: "x = (i, b)" by fastforce
        have "own_rule (uc_id c) w1 i" using e Inr x by (simp add: ensure_own)
        from own_inject [OF n [of "sq_count req"], of "Some x" "uc_id c" w1 kept] this x
        have "?good (inject_and_answer (uc_id c) (clamp_count (sq_count req)) (Some x)) w1" by simp
        moreover have "w_pg w1 = w_pg w" using pg_fixed_ensure e by (metis pg_fixed_def snd_conv)
        moreover have "env_ok owners_kept w \<Longrightarrow> env_ok owners_kept w1"
          using keepsD(2) [OF owners_ensure, of w "uc_id c"] e by simp
        ultimately show ?thesis using e True Some Inr by (simp add: simulate_def bindW_def own_body_def) blast
      qed
    qed
  qed
qed

text \<open>The events of a summary.\<close>

definition own_event :: "uuid \<Rightarrow> db \<Rightarrow> uuid \<Rightarrow> bool" where
  "own_event u d i \<longleftrightarrow> (\<exists>e\<in>set (events d). ev_id e = i \<and> ev_user_id e = u)"

lemma own_event_later: "own_event u d i \<Longrightarrow> owners_kept d d' \<Longrightarrow> own_event u d' i"
  unfolding own_event_def by (metis owners_keptD(1))

lemma update_fold_mem:
  "x \<in> snd ` set (fold (\<lambda>e m. AList.update (f e) e m) es m) \<Longrightarrow> x \<in> set es \<or> x \<in> snd ` set m"
proof (induction es arbitrary: m)
  case (Cons e es)
  have "snd ` set (AList.update (f e) e m) \<subseteq> insert e (snd ` set m)"
    by (induction m) auto
  with Cons.IH [of "AList.update (f e) e m"] Cons.prems show ?case by auto
qed simp

lemma get_events_own:
  assumes "get_for_user_ids uid ids w = (Inr evs, w')"
  shows "evs = [] \<or> (\<exists>u. pg_uuid_in (w_pg w) uid = Some u \<and> (\<forall>ev\<in>snd ` set evs. own_event u (w_db w') (ev_id ev)))"
proof (cases "ids = []")
  case True
  with assms show ?thesis by (simp add: get_for_user_ids_def)
next
  case False
  with assms obtain es where q: "stmt (sql_events_by_ids uid ids) w = (Inr es, w')"
    "evs = fold (\<lambda>e m. AList.update (ev_id e) e m) es []"
    by (auto simp: get_for_user_ids_def bindW_def split: prod.splits sum.splits)
  have "snd ` set evs \<subseteq> set es" using update_fold_mem [of _ ev_id es "[]"] q(2) by auto
  moreover obtain u p where "pg_uuid_in (w_pg w) uid = Some u"
    and es: "es = map scan_event (filter (\<lambda>r. ev_user_id r = u \<and> p r) (events (w_db w')))"
    using stmt_InrD [OF q(1)]
    by (auto simp: sql_events_by_ids_def query_def bindE_Inr_iff uuid_arg_def split: option.splits)
  moreover have "\<forall>e\<in>set es. own_event u (w_db w') (ev_id e)" unfolding es own_event_def by auto
  ultimately show ?thesis by blast
qed

text \<open>What follows the loading of the events: the names of their rules, the provider, the saved row.\<close>

definition summarize_loaded :: "provider \<Rightarrow> string \<Rightarrow> string list \<Rightarrow> (uuid \<times> event) list \<Rightarrow> response io" where
  "summarize_loaded provider uid ids evs =
     bindW (names_by_ids (matched_rule_ids (map snd evs))) (\<lambda>r'.
       case r' of
         Inl e \<Rightarrow> returnW (write_error 500 ''internal_error'' ''could not load rules'')
       | Inr names \<Rightarrow> summarize_events provider uid ids evs names)"

lemma owners_summarize_loaded:
  "(\<And>prompt ids. keeps owners_kept (provider prompt ids)) \<Longrightarrow> keeps owners_kept (summarize_loaded provider uid ids evs)"
  unfolding summarize_loaded_def summarize_events_def names_by_ids_def sql_rule_names_def save_summary_def Let_def
  by (intro owners.keeps_rules owners_insert_summary)

lemma summarize_events_body:
  assumes "summarize_events provider uid ids evs names w = (rs, w')"
  shows "(\<exists>c m. rs_body rs = ErrorBody c m)
    \<or> (\<exists>s. rs_body rs = SummaryBody s \<and> set (s_event_ids s) \<subseteq> insert [] (ev_id ` snd ` set evs))"
proof -
  have "event_id_of (map_of evs i) = [] \<or> event_id_of (map_of evs i) \<in> ev_id ` snd ` set evs" for i
  proof (cases "map_of evs i")
    case (Some a)
    then have "(i, a) \<in> set evs" by (rule map_of_SomeD)
    then have "a \<in> snd ` set evs" by force
    with Some show ?thesis by (simp add: event_id_of_def)
  qed (simp add: event_id_of_def)
  then have "set (map event_id_of (map (map_of evs) ids)) \<subseteq> insert [] (ev_id ` snd ` set evs)" by auto
  with assms show ?thesis unfolding summarize_events_def Let_def bindW_def
    by (auto simp del: set_map image_insert insert_subset split: prod.splits sum.splits if_splits)
qed

lemma summarize_cases:
  obtains c m where "rs_body (fst (summarize provider (Some user) rq w)) = ErrorBody c m"
  | ids evs w1 where "get_for_user_ids (uc_id user) ids w = (Inr evs, w1)"
      "summarize provider (Some user) rq w = summarize_loaded provider (uc_id user) ids evs w1"
proof (cases "decode_body decode_summarize_request rq")
  case None
  then show ?thesis by (intro that(1)) (simp add: summarize_def)
next
  case (Some raw)
  let ?ids = "normalize_ids raw"
  obtain r w1 where g: "get_for_user_ids (uc_id user) ?ids w = (r, w1)" by fastforce
  show ?thesis
  proof (cases "length ?ids = 0 \<or> length ?ids > max_events \<or> (\<forall>evs. r \<noteq> Inr evs \<or> length evs \<noteq> length ?ids)")
    case True
    then have "\<exists>c m. rs_body (fst (summarize provider (Some user) rq w)) = ErrorBody c m"
      using Some g by (cases r) (auto simp: summarize_def Let_def bindW_def)
    then show ?thesis using that(1) by blast
  next
    case False
    then obtain evs where "r = Inr evs" "length evs = length ?ids" by auto
    with False Some g show ?thesis
      by (intro that(2) [of ?ids evs w1]) (auto simp: summarize_def summarize_loaded_def Let_def bindW_def)
  qed
qed

lemma own_summarize:
  assumes "kept \<Longrightarrow> \<forall>prompt ids. keeps owners_kept (provider prompt ids)"
  shows "shows_own kept (uc_id c) (summarize provider (Some c) rq)"
  unfolding shows_own_def
proof
  fix w
  let ?r = "summarize provider (Some c) rq w"
  show "(\<exists>u. pg_uuid_in (w_pg w) (uc_id c) = Some u \<and> own_body kept u w ?r) \<or> (\<forall>u. own_body kept u w ?r)"
  proof (rule summarize_cases [of provider c rq w])
    fix code m assume "rs_body (fst ?r) = ErrorBody code m"
    then show ?thesis by (simp add: own_body_def)
  next
    fix ids evs w1
    assume g: "get_for_user_ids (uc_id c) ids w = (Inr evs, w1)"
      and s: "?r = summarize_loaded provider (uc_id c) ids evs w1"
    obtain rs w' where l: "summarize_loaded provider (uc_id c) ids evs w1 = (rs, w')" by fastforce
    have body: "(\<exists>c m. rs_body rs = ErrorBody c m)
        \<or> (\<exists>s. rs_body rs = SummaryBody s \<and> set (s_event_ids s) \<subseteq> insert [] (ev_id ` snd ` set evs))"
      using l summarize_events_body [of provider "uc_id c" ids evs _ _ rs w']
      by (auto simp: summarize_loaded_def bindW_def split: prod.splits sum.splits)
    have later: "owners_kept (w_db w1) (w_db w')" if k: "kept" "env_ok owners_kept w"
    proof -
      have "keeps owners_kept (get_for_user_ids (uc_id c) ids)"
        unfolding get_for_user_ids_def sql_events_by_ids_def by (intro owners.keeps_rules)
      from keepsD(2) [OF this k(2)] g have "env_ok owners_kept w1" by simp
      moreover have "keeps owners_kept (summarize_loaded provider (uc_id c) ids evs)"
        using assms k(1) by (intro owners_summarize_loaded) simp
      ultimately show ?thesis using keepsD(1) l by (metis snd_conv)
    qed
    have one: "own_body kept u w ?r"
      if "\<forall>ev\<in>snd ` set evs. own_event u (w_db w1) (ev_id ev)" for u
    proof (cases "kept \<and> env_ok owners_kept w")
      case True
      with later that have "\<forall>i\<in>insert [] (ev_id ` snd ` set evs). i = [] \<or> own_event u (w_db w') i"
        by (auto intro: own_event_later)
      then have "set (s_event_ids x) \<subseteq> insert [] (ev_id ` snd ` set evs) \<Longrightarrow>
          list_all (\<lambda>i. i = [] \<or> own_event u (w_db w') i) (s_event_ids x)" for x
        unfolding list_all_iff by blast
      with body l s show ?thesis by (auto simp: own_body_def own_event_def)
    qed (use body l s in \<open>auto simp: own_body_def\<close>)
    from get_events_own [OF g] show ?thesis
      by (rule disjE) (use one in auto)
  qed
qed

lemmas own_handlers = own_events_list own_events_get own_rules_list own_rules_get own_rules_create
  own_rules_patch own_rules_delete own_me own_simulate

lemma own_handle:
  assumes "ep \<notin> {Health, Register, Login, Refresh, Ingest}"
    and "identity (sv_jwt sv) (cf_jwt_secret (sv_config sv)) (w_now w) rq = Some c"
    and "kept \<Longrightarrow> \<forall>prompt ids. keeps owners_kept (sv_provider sv prompt ids)"
  shows "(\<exists>u. pg_uuid_in (w_pg w) (uc_id c) = Some u \<and> own_body kept u w (handle sv st en ep rq w))
     \<or> (\<forall>u. own_body kept u w (handle sv st en ep rq w))"
  using assms(1,2) own_handlers [where c = c and rq = rq and kept = kept]
    own_summarize [of kept "sv_provider sv" c rq] assms(3)
  by (cases ep) (simp_all add: protected_def require_auth_cases shows_own_def)

end
