(* ===== verification/Server_Samples.thy ===== *)
theory Server_Samples
  imports Ingest_Properties Tenant
begin

text \<open>A concrete server: libraries that satisfy what the code relies on, a configuration, and
  requests.\<close>

definition sample_claims :: claims where
  "sample_claims = \<lparr>cl_email = ''a@b'', cl_subject = ''u1'', cl_expires_at = secs 900, cl_issued_at = 0\<rparr>"

text \<open>A JWT library that knows one token.\<close>

definition sample_jwt :: jwt_lib where
  "sample_jwt =
     \<lparr>jw_date = (\<lambda>t. secs (t div secs 1)),
      jw_sign = (\<lambda>secret cl. if secret = ''jwtsec'' \<and> cl = sample_claims then Some ''tok'' else None),
      jw_parse = (\<lambda>key now tok.
        if tok = ''tok'' \<and> key ''HS256'' = Some ''jwtsec'' \<and> now < secs 900 then Some sample_claims else None)\<rparr>"

definition sample_bcrypt :: bcrypt_lib where
  "sample_bcrypt =
     \<lparr>bc_generate = (\<lambda>salt pw cost. if length pw \<le> 72 then Some (salt @ pw) else None),
      bc_compare = (\<lambda>hash pw. suffix pw hash)\<rparr>"

definition sample_entropy :: entropy where
  "sample_entropy = \<lparr>en_salt = ''s'', en_refresh = Some ''0123456789abcdef''\<rparr>"

definition sample_env :: "string \<Rightarrow> string" where
  "sample_env =
     (\<lambda>_. [])(''DATABASE_URL'' := ''db'', ''JWT_SECRET'' := ''jwtsec'', ''WEBHOOK_SECRET'' := ''whsec'')"

definition sample_config :: config where
  "sample_config =
     \<lparr>cf_database_url = ''db'', cf_jwt_secret = ''jwtsec'', cf_webhook_secret = ''whsec'',
      cf_ai_provider = ''mock'', cf_ai_api_key = [], cf_ai_base_url = [], cf_http_addr = '':8080'',
      cf_demo_process_delay = 0\<rparr>"

definition sample_services :: services where
  "sample_services =
     \<lparr>sv_config = sample_config, sv_provider = mock_provider, sv_lower = id, sv_jwt = sample_jwt,
      sv_bcrypt = sample_bcrypt, sv_time_ok = (\<lambda>_. True)\<rparr>"

lemma sample_services_simps [simp]:
  "cf_jwt_secret (sv_config sample_services) = ''jwtsec''"
  "cf_webhook_secret (sv_config sample_services) = ''whsec''"
  "sv_provider sample_services = mock_provider" "sv_jwt sample_services = sample_jwt"
  "sv_bcrypt sample_services = sample_bcrypt" "sv_time_ok sample_services = (\<lambda>_. True)"
  by (simp_all add: sample_services_def sample_config_def)

lemma sample_load: "load sample_env = Inr sample_config"
  by (simp add: load_def sample_env_def getenv_def parse_duration_ms_def milliseconds_def sample_config_def Let_def)

lemma sample_jwt_sound: "jwt_sound sample_jwt"
proof -
  have "secs 1 * (t div secs 1) \<le> t \<and> t - secs 1 < secs 1 * (t div secs 1)" for t
    unfolding secs_def by presburger
  moreover have "trim_space ''tok'' = ''tok''" by code_simp
  ultimately show ?thesis
    by (auto simp: jwt_sound_def sample_jwt_def sample_claims_def secs_def mult.commute)
qed

text \<open>A request with a method, a path, a bearer token and a body.\<close>

definition sample_http :: "string \<Rightarrow> string list \<Rightarrow> string \<Rightarrow> string \<Rightarrow> http_request" where
  "sample_http m p tok b =
     \<lparr>rq_authorization = ''Bearer '' @ tok, rq_signature = [], rq_body = b, rq_body_fails = False,
      rq_path_id = [], rq_status = [], hx_method = m, hx_path = p\<rparr>"

definition delivery_http :: http_request where
  "delivery_http = request.extend sample_delivery
     \<lparr>hx_method = ''POST'', hx_path = [''v1'', ''webhooks'', ''events'']\<rparr>"

lemma sample_http_target [simp]: "hx_method (sample_http m p tok b) = m" "hx_path (sample_http m p tok b) = p"
  by (simp_all add: sample_http_def)

lemma sample_tokens: "trim_space ''tok'' = ''tok''" "trim_space ''bad'' = ''bad''"
  by code_simp+

lemma sample_identity:
  "now < secs 900 \<Longrightarrow> identity sample_jwt ''jwtsec'' now (request.truncate (sample_http m p ''tok'' b))
     = Some \<lparr>uc_id = ''u1'', uc_email = ''a@b''\<rparr>"
  by (simp add: sample_http_def request.defs identity_def sample_jwt_def hs256_key_def sample_tokens
      sample_claims_def has_prefix_def trim_prefix_def)

lemma sample_no_identity:
  "identity sample_jwt ''jwtsec'' now (request.truncate (sample_http m p ''bad'' b)) = None"
  by (simp add: sample_http_def request.defs identity_def sample_jwt_def hs256_key_def sample_tokens
      sample_claims_def has_prefix_def trim_prefix_def)

end
