(* ===== verification/System_Properties.thy ===== *)
theory System_Properties
  imports Server_Samples
begin

text \<open>What the assembled server guarantees: the invariants of every database it can reach, under
  any interleaving of its handlers and workers; which handler a request gets; that no protected
  handler runs without an accepted token; and whose rows the answers show.\<close>

section \<open>Invariants\<close>

text \<open>C36: in every database that any interleaving of the server's statements reaches from the empty
  one, keys are unique, every reference has its row, names are short enough, and each event's
  columns agree with its status.\<close>

theorem reachable_database_ok:
  assumes "reachable d" shows "keys_ok d \<and> refs_ok d \<and> lifecycle_ok d"
  using reachable_ok [OF assms] by (simp add: db_ok_def)

theorem reachable_database_ok_witness:
  "keys_ok (snd (sql_insert_user ''a@b'' ''h'' (sample_sess 0 ''u1'') empty_db))
   \<and> refs_ok (snd (sql_insert_user ''a@b'' ''h'' (sample_sess 0 ''u1'') empty_db))
   \<and> lifecycle_ok (snd (sql_insert_user ''a@b'' ''h'' (sample_sess 0 ''u1'') empty_db))"
  by (rule reachable_database_ok [OF reachable.step [OF reachable.start server_step.user]])

text \<open>One server's life of requests and worker rounds, with any provider that start-up accepts
  and whatever other sessions do and messages are lost, keeps the invariants and the history of
  the database it found.\<close>

theorem server_keeps_database:
  assumes "new_provider client cfg = Inr (sv_provider sv)" "\<And>c. keeps safe_change (client c)"
    and "db_ok (w_db w)" "env_ok server_step\<^sup>*\<^sup>* w"
  shows "db_ok (w_db (snd (server_run sv as wk w))) \<and> history (w_db w) (w_db (snd (server_run sv as wk w)))"
  using keepsD(1) [OF safe.keeps_server_run [OF safe.keeps_accepted_provider [OF assms(1,2)]] env_safe [OF assms(4)]]
    assms(3)
  by (auto simp: safe_change_def)

theorem server_keeps_database_witness:
  "db_ok (w_db (snd (server_run sample_services [Request sample_entropy delivery_http, Worker_round]
       new_worker (sample_world 1 sample_db))))
   \<and> history sample_db (w_db (snd (server_run sample_services
       [Request sample_entropy delivery_http, Worker_round] new_worker (sample_world 1 sample_db))))"
proof -
  have p: "new_provider (\<lambda>c. returnW (Inl ConnError)) sample_config = Inr (sv_provider sample_services)"
    by (simp add: new_provider_def sample_config_def)
  show ?thesis
    using server_keeps_database [OF p safe.keeps_return, where w = "sample_world 1 sample_db"]
    by (simp only: sample_world_simps sample_db_ok sample_env_ok)
qed

section \<open>Routing\<close>

text \<open>Whether some path matches both patterns.\<close>

fun overlap :: "segment list \<Rightarrow> segment list \<Rightarrow> bool" where
  "overlap [] [] = True"
| "overlap (Lit a # ps) (Lit b # qs) = (a = b \<and> overlap ps qs)"
| "overlap (p # ps) (q # qs) = overlap ps qs"
| "overlap _ _ = False"

lemma match_overlap:
  "match_path ps path = Some i \<Longrightarrow> match_path qs path = Some j \<Longrightarrow> overlap ps qs"
proof (induction ps path arbitrary: qs i j rule: match_path.induct)
  case (2 l ps s ss)
  then show ?case by (cases qs rule: list.exhaust; cases "hd qs") (auto split: if_splits)
next
  case (3 ps s ss)
  then show ?case by (cases qs rule: list.exhaust; cases "hd qs") (auto split: if_splits)
qed (auto elim: match_path.elims)

lemma routes_disjoint:
  "list_all (\<lambda>(m, ps, ep). m \<noteq> ''HEAD'' \<and> list_all (\<lambda>(m', ps', ep'). m' = m \<and> overlap ps ps' \<longrightarrow> ps' = ps \<and> ep' = ep) routes) routes"
  by code_simp

lemma route_unique:
  assumes "(pm, ps, ep) \<in> set routes" "(pm', ps', ep') \<in> set routes"
    and "match_method pm m" "match_method pm' m" "match_path ps path = Some i" "match_path ps' path = Some j"
  shows "ps' = ps \<and> ep' = ep"
proof -
  note all = routes_disjoint [unfolded list_all_iff, THEN bspec, simplified prod.case]
  have "pm \<noteq> ''HEAD''" "pm' \<noteq> ''HEAD''"
    using all [OF assms(1)] all [OF assms(2)] by simp_all
  have "\<forall>x\<in>set routes. case x of (m', ps', ep') \<Rightarrow> m' = pm \<and> overlap ps ps' \<longrightarrow> ps' = ps \<and> ep' = ep"
    using all [OF assms(1)] by simp
  from bspec [OF this assms(2)] have d: "pm' = pm \<and> overlap ps ps' \<longrightarrow> ps' = ps \<and> ep' = ep" by simp
  then have "pm' = pm"
    using assms(3,4) \<open>pm \<noteq> ''HEAD''\<close> \<open>pm' \<noteq> ''HEAD''\<close> unfolding match_method_def by metis
  with d match_overlap [OF assms(5,6)] show ?thesis by blast
qed

text \<open>The routing table is unambiguous: a request is dispatched to an endpoint exactly when one
  of the table's patterns matches its method and path, with the id the pattern binds; so no
  pattern shadows another.\<close>

theorem routing_exact:
  "route m path = Found ep i \<longleftrightarrow>
     (\<exists>pm ps. (pm, ps, ep) \<in> set routes \<and> match_method pm m \<and> match_path ps path = Some i)"
proof -
  let ?hits = "filter (\<lambda>(pm, ps, ep). match_method pm m) (filter (\<lambda>(pm, ps, ep). match_path ps path \<noteq> None) routes)"
  have hits: "(pm, ps, ep) \<in> set ?hits \<longleftrightarrow> (pm, ps, ep) \<in> set routes \<and> match_method pm m \<and> (\<exists>j. match_path ps path = Some j)"
    for pm ps ep by auto
  show ?thesis
  proof (cases ?hits)
    case Nil
    then have "route m path \<noteq> Found ep i" by (simp add: route_def Let_def)
    with Nil hits show ?thesis by (metis list.set(1) empty_iff)
  next
    case (Cons h hs)
    obtain pm ps ep' where h: "h = (pm, ps, ep')" by (cases h) auto
    then have mem: "(pm, ps, ep') \<in> set ?hits" using Cons by simp
    then obtain j where j: "(pm, ps, ep') \<in> set routes" "match_method pm m" "match_path ps path = Some j"
      using hits by blast
    have "route m path = Found ep' j" using Cons h j(3) by (simp add: route_def Let_def)
    then show ?thesis
    proof (cases "ep' = ep \<and> j = i")
      case True
      with \<open>route m path = Found ep' j\<close> j show ?thesis by auto
    next
      case False
      with \<open>route m path = Found ep' j\<close> have "route m path \<noteq> Found ep i" by simp
      moreover have "\<not> (\<exists>pm ps. (pm, ps, ep) \<in> set routes \<and> match_method pm m \<and> match_path ps path = Some i)"
        using False j route_unique [OF j(1) _ j(2) _ j(3)] by fastforce
      ultimately show ?thesis by blast
    qed
  qed
qed

section \<open>Authentication\<close>

text \<open>C14: without a bearer token that the JWT library accepts for the server's secret, every endpoint
  but health, registration, login, refresh and the webhook answers 401 and touches nothing.\<close>

theorem auth_required:
  assumes "route (hx_method hx) (hx_path hx) = Found ep i" "ep \<notin> {Health, Register, Login, Refresh, Ingest}"
    and "identity (sv_jwt sv) (cf_jwt_secret (sv_config sv)) (w_now w) (request.truncate hx) = None"
  shows "\<exists>msg. serve sv st en hx w = (write_error 401 ''unauthorized'' msg, w)"
  using assms by (cases ep) (auto simp: serve_def protected_def require_auth_cases)

theorem auth_required_witness:
  "\<exists>msg. serve sample_services new_stats sample_entropy (sample_http ''DELETE'' [''v1'', ''alert-rules'', ''r1''] ''bad'' [])
     (sample_world 1 sample_db) = (write_error 401 ''unauthorized'' msg, sample_world 1 sample_db)"
  by (rule auth_required [where ep = Rules_Delete and i = "''r1''"])
     (simp_all add: sample_no_identity sample_http_target route_def routes_def match_method_def)

text \<open>C13: whatever interleaves, a protected endpoint answers a caller with rows that belong to the
  user the token names, or with no rows at all. The rows an answer only names, the events of a summary and the
  demo rule of a simulation, are this user's as well, in the database the request leaves behind, if no other
  session (nor the client of the AI provider) removes an event or a rule, or changes its owner, meanwhile.\<close>

theorem answers_show_own:
  assumes "route (hx_method hx) (hx_path hx) = Found ep i" "ep \<notin> {Health, Register, Login, Refresh, Ingest}"
    and "identity (sv_jwt sv) (cf_jwt_secret (sv_config sv)) (w_now w) (request.truncate hx) = Some c"
    and "serve sv st en hx w = (rs, w')"
  shows "(\<exists>u. pg_uuid_in (w_pg w) (uc_id c) = Some u \<and> shows_only u (rs_body rs)
        \<and> ((\<forall>prompt ids. keeps owners_kept (sv_provider sv prompt ids)) \<and> env_ok owners_kept w
            \<longrightarrow> names_own u (w_db w') (rs_body rs)))
    \<or> (\<forall>u. shows_only u (rs_body rs)
        \<and> ((\<forall>prompt ids. keeps owners_kept (sv_provider sv prompt ids)) \<and> env_ok owners_kept w
            \<longrightarrow> names_own u (w_db w') (rs_body rs)))"
  using own_handle [OF assms(2), of sv w "(request.truncate hx)\<lparr>rq_path_id := i\<rparr>" c
      "\<forall>prompt ids. keeps owners_kept (sv_provider sv prompt ids)" st en] assms(1,3,4)
  by (simp add: serve_def own_body_def)

theorem answers_show_own_witness:
  "\<exists>rs w'. serve sample_services new_stats sample_entropy
       (sample_http ''POST'' [''v1'', ''ai'', ''summarize''] ''tok'' ''{\"event_ids\":[\"e1\"]}'')
       (sample_world 1 sample_db) = (rs, w')
     \<and> (shows_only ''u1'' (rs_body rs) \<and> names_own ''u1'' (w_db w') (rs_body rs))"
proof -
  let ?hx = "sample_http ''POST'' [''v1'', ''ai'', ''summarize''] ''tok'' ''{\"event_ids\":[\"e1\"]}''"
  obtain rs w' where r: "serve sample_services new_stats sample_entropy ?hx (sample_world 1 sample_db) = (rs, w')"
    by fastforce
  have "route (hx_method ?hx) (hx_path ?hx) = Found Summarize []"
    by (simp add: sample_http_target route_def routes_def match_method_def)
  moreover have "\<forall>prompt ids. keeps owners_kept (sv_provider sample_services prompt ids)"
    by (simp add: sample_services_def mock_provider_def owners.keeps_return)
  moreover have "env_ok owners_kept (sample_world 1 sample_db)" by (simp add: env_ok_def owners.G_refl)
  ultimately show ?thesis
    using answers_show_own [OF _ _ _ r, where ep = Summarize and i = "[]" and c = "\<lparr>uc_id = ''u1'', uc_email = ''a@b''\<rparr>"] r
    by (auto simp: sample_identity secs_def)
qed

end
