(* ===== verification/Auth_Properties.thy ===== *)
theory Auth_Properties
  imports Server_Samples
begin

text \<open>What authentication guarantees: issued access tokens authenticate their user, refresh tokens
  are good once and only while they live, registration and login do what they say, and a login
  failure does not tell whether the account exists.\<close>

section \<open>Undisturbed sessions\<close>

text \<open>The new pair of tokens: the row that is stored and the answer.\<close>

definition pair_row :: "sess \<Rightarrow> uuid \<Rightarrow> string \<Rightarrow> time \<Rightarrow> refresh_row" where
  "pair_row s u raw now = new_refresh s u (hash_refresh (b64url_encode raw)) (now + secs 2592000)"

definition can_issue :: "jwt_lib \<Rightarrow> string \<Rightarrow> string \<Rightarrow> world \<Rightarrow> uuid \<Rightarrow> string \<Rightarrow> string \<Rightarrow> bool" where
  "can_issue jwt secret raw w u email acc \<longleftrightarrow>
     jw_sign jwt secret \<lparr>cl_email = email, cl_subject = u,
       cl_expires_at = jw_date jwt (w_now w + secs 900), cl_issued_at = jw_date jwt (w_now w)\<rparr> = Some acc
   \<and> pg_uuid_in (w_pg w) u = Some u \<and> pg_text_ok (w_pg w) (hash_refresh (b64url_encode raw))
   \<and> user_exists (w_db w) u
   \<and> (\<forall>t\<in>set (refresh_tokens (w_db w)). rt_id t \<noteq> sl_uuid (w_slot w)
        \<and> rt_token_hash t \<noteq> hash_refresh (b64url_encode raw))"

lemma issue_access_eq:
  "issue_access jwt secret uid email w =
     (case jw_sign jwt secret \<lparr>cl_email = email, cl_subject = uid,
         cl_expires_at = jw_date jwt (w_now w + secs 900), cl_issued_at = jw_date jwt (w_now w)\<rparr> of
        None \<Rightarrow> Inl (Errorf ''sign access'') | Some tok \<Rightarrow> Inr (tok, 900), w)"
  using duration_secs_whole [of 900]
  by (simp add: issue_access_def nowW_def bindW_def access_ttl_def time_add_def secs_def split: option.split)

lemma issue_pair_quiet:
  assumes "quiet w" "en_refresh en = Some raw" "can_issue jwt secret raw w (u_id u) (u_email u) acc"
  shows "issue_pair jwt secret en u w =
    (Inr \<lparr>tr_access_token = acc, tr_refresh_token = b64url_encode raw, tr_expires_in = 900\<rparr>,
     (elapse w)\<lparr>w_db := (w_db w)\<lparr>refresh_tokens := refresh_tokens (w_db w) @ [pair_row (w_sess w) (u_id u) raw (w_now w)]\<rparr>\<rparr>)"
proof -
  let ?h = "hash_refresh (b64url_encode raw)"
  have n: "new_refresh_token en w = (Inr (b64url_encode raw, ?h, w_now w + secs 2592000), w)"
    using assms(2) by (simp add: new_refresh_token_def Let_def nowW_def bindW_def refresh_ttl_def time_add_def secs_def)
  have "sql_insert_refresh (u_id u) ?h (w_now w + secs 2592000) (w_sess w) (w_db w) =
      (Inr (), (w_db w)\<lparr>refresh_tokens := refresh_tokens (w_db w) @ [pair_row (w_sess w) (u_id u) raw (w_now w)]\<rparr>)"
    using assms(3) by (auto simp: can_issue_def sql_insert_refresh_def update_def uuid_arg_def text_arg_def pair_row_def)
  then have "save_refresh_token (u_id u) ?h (w_now w + secs 2592000) w = (Inr (), (elapse w)\<lparr>w_db :=
      (w_db w)\<lparr>refresh_tokens := refresh_tokens (w_db w) @ [pair_row (w_sess w) (u_id u) raw (w_now w)]\<rparr>\<rparr>)"
    by (simp add: save_refresh_token_def bindW_def stmt_quiet [OF assms(1)])
  then show ?thesis
    using assms(3) by (simp add: issue_pair_def bindW_def issue_access_eq n can_issue_def)
qed

lemma create_user_quiet:
  assumes "quiet w" "pg_text_ok (w_pg w) email" "pg_text_ok (w_pg w) hash"
    and "sl_uuid (w_slot w) \<notin> u_id ` set (users (w_db w))"
  shows "create_user email hash w =
    (if \<exists>u\<in>set (users (w_db w)). u_email u = email then (Inl ErrEmailTaken, elapse w)
     else (Inr (new_user (w_sess w) email hash),
           (elapse w)\<lparr>w_db := (w_db w)\<lparr>users := users (w_db w) @ [new_user (w_sess w) email hash]\<rparr>\<rparr>))"
proof -
  have e: "(elapse w)\<lparr>w_db := w_db w\<rparr> = elapse w"
    by (simp add: elapse_def quiet_slot [OF assms(1)])
  have n: "\<not> (\<exists>u\<in>set (users (w_db w)). u_id u = sl_uuid (w_slot w))" using assms(4) by (auto simp: image_iff)
  show ?thesis
    using assms n
    by (simp add: create_user_def bindW_def stmt_quiet sql_insert_user_def update_def text_arg_def e)
qed

lemma user_by_email_quiet:
  assumes "quiet w" "pg_text_ok (w_pg w) email"
  shows "user_by_email email w =
    (case List.find (\<lambda>u. u_email u = email) (users (w_db w)) of
       None \<Rightarrow> Inl ErrUserNotFound | Some u \<Rightarrow> Inr u, elapse w)"
  using assms
  by (simp add: user_by_email_def bindW_def sql_user_by_email_def stmt_query_quiet text_arg_def one_row_def
      split: option.split)

lemma create_user_Inr:
  assumes "quiet w" "create_user email hash w = (Inr u, w')"
  shows "u_email u = email" "u_password_hash u = hash" "users (w_db w') = users (w_db w) @ [u]"
    "\<forall>x\<in>set (users (w_db w)). u_email x \<noteq> email" "quiet w'" "w_pg w' = w_pg w"
  using assms
  by (auto simp: create_user_def bindW_def stmt_quiet sql_insert_user_def update_def bindE_def text_arg_def
      split: sum.splits if_splits)

lemma issue_pair_users:
  assumes "quiet w" "issue_pair jwt secret en u w = (r, w')"
  shows "users (w_db w') = users (w_db w)" "quiet w'" "w_pg w' = w_pg w"
  using assms
  by (auto simp: issue_pair_def issue_access_eq bindW_def new_refresh_token_def Let_def nowW_def
      save_refresh_token_def stmt_quiet sql_insert_refresh_def update_def bindE_def
      split: option.splits sum.splits if_splits)

section \<open>Access tokens\<close>

text \<open>C26: with a sound JWT library, the access token issued to a user makes \<open>RequireAuth\<close> run the
  handler as that user, for every request that presents it less than 899 seconds later; the
  answer says 900.\<close>

theorem access_token_roundtrip:
  assumes "jwt_sound jwt" "issue_access jwt secret uid email w = (Inr (tok, n), w')" "uid \<noteq> []"
    and "w_now w2 < w_now w + secs 899" "rq_authorization rq = ''Bearer '' @ tok"
  shows "n = 900 \<and> require_auth jwt secret h rq w2 = h (Some \<lparr>uc_id = uid, uc_email = email\<rparr>) rq w2"
  using issue_access_Inr(2) [OF assms(2)] issued_identity [OF assms(1,2,3,4,5)]
  by (simp add: require_auth_cases)

definition sample_rq :: "string \<Rightarrow> string \<Rightarrow> request" where
  "sample_rq auth b = \<lparr>rq_authorization = auth, rq_signature = [], rq_body = b, rq_body_fails = False,
     rq_path_id = [], rq_status = []\<rparr>"

theorem access_token_roundtrip_witness:
  "900 = (900::int) \<and> require_auth sample_jwt ''jwtsec'' me (sample_rq ''Bearer tok'' []) (sample_world 1 sample_db)
     = me (Some \<lparr>uc_id = ''u1'', uc_email = ''a@b''\<rparr>) (sample_rq ''Bearer tok'' []) (sample_world 1 sample_db)"
proof -
  have "issue_access sample_jwt ''jwtsec'' ''u1'' ''a@b'' (sample_world 1 sample_db)
      = (Inr (''tok'', 900), sample_world 1 sample_db)"
    by (simp add: issue_access_eq sample_jwt_def sample_claims_def secs_def)
  from access_token_roundtrip [OF sample_jwt_sound this, of "sample_world 1 sample_db" "sample_rq ''Bearer tok'' []" me]
  show ?thesis by (simp add: sample_rq_def secs_def)
qed

section \<open>Refresh tokens\<close>

lemma consume_Inr:
  assumes "consume_refresh_token h w = (Inr u, w1)"
  shows "\<exists>t\<in>set (refresh_tokens (sl_env (w_slot w) (w_db w))). rt_token_hash t = h \<and> rt_user_id t = u
      \<and> w_now w1 \<le> rt_expires_at t"
    "\<not> token_live h (w_db w1)"
proof -
  let ?d = "sl_env (w_slot w) (w_db w)"
  obtain r d' where q: "tx_consume_refresh h (w_sess w) ?d = (r, d')" by fastforce
  have f: "sl_fault (w_slot w) = Deliver" and r: "r = Inr (Some u)" and w1: "w1 = (elapse w)\<lparr>w_db := d'\<rparr>"
    using assms q
    by (auto simp: consume_refresh_token_def bindW_def transaction_def Let_def consume_lost_def
        split: fault.splits sum.splits option.splits if_splits)
  from tx_consume_Inr [OF q [unfolded r]] w1
  show "\<exists>t\<in>set (refresh_tokens ?d). rt_token_hash t = h \<and> rt_user_id t = u \<and> w_now w1 \<le> rt_expires_at t"
    "\<not> token_live h (w_db w1)"
    by (auto split: if_splits)
qed

lemma consume_dead:
  assumes "\<not> token_live h (sl_env (w_slot w) (w_db w))"
  shows "\<exists>e. fst (consume_refresh_token h w) = Inl e"
proof -
  obtain e where "tx_consume_refresh h (w_sess w) (sl_env (w_slot w) (w_db w)) = (Inl e, sl_env (w_slot w) (w_db w))"
    using tx_consume_dead [OF assms] by blast
  then show ?thesis
    by (auto simp: consume_refresh_token_def bindW_def transaction_def Let_def consume_lost_def split: fault.splits)
qed

text \<open>C4: a refresh token buys a pair at most once, and only while it lives: when it was accepted,
  whatever happens in between short of storing the same hash again, a second use is an error;
  concurrent uses are the same statement, since the accepting transaction is one step.\<close>

theorem refresh_single_use:
  assumes "consume_refresh_token h w = (Inr u, w1)"
    and "(\<lambda>d d'. server_step d d' \<and> no_reissue h d d')\<^sup>*\<^sup>* (w_db w1) (sl_env (w_slot w2) (w_db w2))"
  shows "(\<exists>e. fst (consume_refresh_token h w2) = Inl e)
    \<and> (\<exists>t\<in>set (refresh_tokens (sl_env (w_slot w) (w_db w))). rt_token_hash t = h \<and> rt_user_id t = u
        \<and> w_now w1 \<le> rt_expires_at t)"
  using consume_dead [OF no_reissue_steps [OF assms(2) consume_Inr(2) [OF assms(1)]]]
    consume_Inr(1) [OF assms(1)] by blast

definition sample_token_db :: db where
  "sample_token_db = sample_db\<lparr>refresh_tokens :=
     [\<lparr>rt_id = ''t1'', rt_user_id = ''u1'', rt_token_hash = ''h1'', rt_expires_at = 10, rt_created_at = 0\<rparr>]\<rparr>"

theorem refresh_single_use_witness:
  "\<exists>w1. consume_refresh_token ''h1'' (sample_world 1 sample_token_db) = (Inr ''u1'', w1)
    \<and> (\<exists>e. fst (consume_refresh_token ''h1'' w1) = Inl e)"
proof -
  let ?w = "sample_world 1 sample_token_db"
  obtain r w1 where c: "consume_refresh_token ''h1'' ?w = (r, w1)" by fastforce
  have r: "r = Inr ''u1''" and q: "quiet w1"
    using c by (auto simp: consume_refresh_token_def bindW_def transaction_quiet tx_consume_refresh_def
        update_def text_arg_def sample_token_db_def w_slot_def)
  have "(\<lambda>d d'. server_step d d' \<and> no_reissue ''h1'' d d')\<^sup>*\<^sup>* (w_db w1) (sl_env (w_slot w1) (w_db w1))"
    by (simp add: quiet_slot [OF q])
  from refresh_single_use [OF c [unfolded r] this] c r show ?thesis by blast
qed

section \<open>Registration and login\<close>

text \<open>C24: without faults, a registration with acceptable credentials answers 409 and changes nothing
  when the normalised email is taken, and otherwise stores exactly one user with the password's
  hash and one refresh token, and answers 201 with the pair.\<close>

theorem register_refines:
  assumes "quiet w" "decode_body decode_credentials rq = Some req"
    and "normalize_credentials uni req = Some (email, password)"
    and "bc_generate bc (en_salt en) password bcrypt_cost = Some hash" "en_refresh en = Some raw"
    and "pg_text_ok (w_pg w) email" "pg_text_ok (w_pg w) hash"
    and "sl_uuid (w_slot w) \<notin> u_id ` set (users (w_db w))"
    and "can_issue jwt secret raw ((elapse w)\<lparr>w_db := (w_db w)\<lparr>users := users (w_db w) @ [new_user (w_sess w) email hash]\<rparr>\<rparr>)
           (sl_uuid (w_slot w)) email acc"
  shows "case register uni jwt bc secret en rq w of (rs, w') \<Rightarrow>
    if \<exists>u\<in>set (users (w_db w)). u_email u = email
    then rs = write_error 409 ''email_taken'' ''email already registered'' \<and> w_db w' = w_db w
    else rs = write_json 201 (TokensBody \<lparr>tr_access_token = acc, tr_refresh_token = b64url_encode raw, tr_expires_in = 900\<rparr>)
       \<and> w_db w' = (w_db w)\<lparr>users := users (w_db w) @ [new_user (w_sess w) email hash],
           refresh_tokens := refresh_tokens (w_db w) @
             [pair_row (w_sess (elapse w)) (sl_uuid (w_slot w)) raw (w_now (elapse w))]\<rparr>"
proof -
  let ?w1 = "(elapse w)\<lparr>w_db := (w_db w)\<lparr>users := users (w_db w) @ [new_user (w_sess w) email hash]\<rparr>\<rparr>"
  note c = create_user_quiet [OF assms(1,6,7,8)]
  have q: "quiet ?w1" using assms(1) by simp
  have "can_issue jwt secret raw ?w1 (u_id (new_user (w_sess w) email hash)) (u_email (new_user (w_sess w) email hash)) acc"
    using assms(9) by simp
  note p = issue_pair_quiet [OF q assms(5) this]
  have s: "w_sess ?w1 = w_sess (elapse w)" by (simp add: w_sess_def w_slot_def)
  show ?thesis
    using assms(2-4) c p s by (auto simp: register_def bindW_def respond_tokens_def quiet_slot [OF assms(1)])
qed

definition credentials_rq :: request where
  "credentials_rq = sample_rq [] ''{\"email\":\" New@B \",\"password\":\"12345678\"}''"

lemma credentials_decoded:
  "decode_body decode_credentials credentials_rq = Some \<lparr>cd_email = '' New@B '', cd_password = ''12345678''\<rparr>"
proof -
  have "json_decode ''{\"email\":\" New@B \",\"password\":\"12345678\"}'' =
      Inr (JObj [(''email'', JStr '' New@B ''), (''password'', JStr ''12345678'')])"
    by code_simp
  moreover have "decode_credentials (JObj [(''email'', JStr '' New@B ''), (''password'', JStr ''12345678'')]) =
      Some \<lparr>cd_email = '' New@B '', cd_password = ''12345678''\<rparr>" by code_simp
  ultimately show ?thesis by (simp add: decode_body_def body_value_def credentials_rq_def sample_rq_def)
qed

lemma credentials_normal:
  "normalize_credentials id \<lparr>cd_email = '' New@B '', cd_password = ''12345678''\<rparr> = Some (''new@b'', ''12345678'')"
  by code_simp

definition any_jwt :: jwt_lib where
  "any_jwt = sample_jwt\<lparr>jw_sign := \<lambda>_ _. Some ''acc''\<rparr>"

lemma sample_can_issue:
  assumes "refresh_tokens (w_db w) = []" "user_exists (w_db w) u" "w_pg w = sample_pg"
  shows "can_issue any_jwt secret raw w u email ''acc''"
  using assms by (simp add: can_issue_def any_jwt_def)

lemma sample_generate: "bc_generate sample_bcrypt (en_salt sample_entropy) ''12345678'' bcrypt_cost = Some ''s12345678''"
  "en_refresh sample_entropy = Some ''0123456789abcdef''"
  by (simp_all add: sample_bcrypt_def sample_entropy_def)

theorem register_refines_witness:
  "case register id any_jwt sample_bcrypt ''k'' sample_entropy credentials_rq (sample_world 1 sample_db) of (rs, w') \<Rightarrow>
    rs = write_json 201 (TokensBody \<lparr>tr_access_token = ''acc'', tr_refresh_token = b64url_encode ''0123456789abcdef'',
      tr_expires_in = 900\<rparr>) \<and> length (users (w_db w')) = 2 \<and> length (refresh_tokens (w_db w')) = 1"
proof -
  let ?w = "sample_world 1 sample_db"
  have taken: "\<not> (\<exists>u\<in>set (users (w_db ?w)). u_email u = ''new@b'')" by (simp add: sample_defs)
  have fresh: "sl_uuid (w_slot ?w) \<notin> u_id ` set (users (w_db ?w))" by (simp add: w_slot_def sample_defs)
  have "can_issue any_jwt ''k'' ''0123456789abcdef'' ((elapse ?w)\<lparr>w_db := (w_db ?w)\<lparr>users := users (w_db ?w) @
      [new_user (w_sess ?w) ''new@b'' ''s12345678'']\<rparr>\<rparr>) (sl_uuid (w_slot ?w)) ''new@b'' ''acc''"
    by (rule sample_can_issue) (simp_all add: sample_db_def empty_db_def user_exists_def)
  from register_refines [OF sample_world_quiet credentials_decoded credentials_normal sample_generate _ _ fresh this]
  show ?thesis using taken by (simp add: sample_db_def empty_db_def split: prod.splits)
qed

text \<open>C29: without faults, a login with acceptable credentials answers the same 401 whether the email
  is unknown or the password is wrong, and changes nothing.\<close>

theorem login_uniform_refusal:
  assumes "quiet w" "decode_body decode_credentials rq = Some req"
    and "normalize_credentials uni req = Some (email, password)" "pg_text_ok (w_pg w) email"
    and "\<forall>u\<in>set (users (w_db w)). u_email u = email \<longrightarrow> \<not> bc_compare bc (u_password_hash u) password"
  shows "login uni jwt bc secret en rq w =
    (write_error 401 ''invalid_credentials'' ''invalid email or password'', elapse w) \<and> w_db (elapse w) = w_db w"
  using assms user_by_email_quiet [OF assms(1,4)] quiet_elapse_db [OF assms(1)]
  by (auto simp: login_def bindW_def split: option.splits dest!: find_Some_mem)

theorem login_uniform_refusal_witness:
  "login id any_jwt sample_bcrypt ''k'' sample_entropy credentials_rq (sample_world 1 sample_db) =
    (write_error 401 ''invalid_credentials'' ''invalid email or password'', elapse (sample_world 1 sample_db))"
  using login_uniform_refusal [OF sample_world_quiet credentials_decoded credentials_normal, of 1 sample_db sample_bcrypt]
  by (simp add: sample_defs)

text \<open>C25: when bcrypt accepts the password it hashed, a client that registered can log in with the
  same request: without faults, a login that follows a registration answered with 201 is not
  refused but goes on to issue tokens to the registered user.\<close>

theorem register_then_login:
  assumes "quiet w" "decode_body decode_credentials rq = Some req"
    and "normalize_credentials uni req = Some (email, password)"
    and "\<forall>salt pw cost h. bc_generate bc salt pw cost = Some h \<longrightarrow> bc_compare bc h pw"
    and "register uni jwt bc secret en rq w = (rs, w1)" "rs_status rs = 201" "pg_text_ok (w_pg w) email"
  shows "\<exists>u\<in>set (users (w_db w1)). u_email u = email \<and>
    login uni jwt bc secret en2 rq w1 =
      bindW (issue_pair jwt secret en2 u) (\<lambda>t. returnW (respond_tokens 200 t)) (elapse w1)"
proof -
  obtain hash where h: "bc_generate bc (en_salt en) password bcrypt_cost = Some hash"
    using assms(2,3,5,6) by (cases "bc_generate bc (en_salt en) password bcrypt_cost") (auto simp: register_def)
  obtain r w0 where c: "create_user email hash w = (r, w0)" by fastforce
  obtain u where u: "r = Inr u"
    using assms(2,3,5,6) h c by (cases r) (auto simp: register_def bindW_def split: if_splits)
  note cu = create_user_Inr [OF assms(1) c [unfolded u]]
  obtain t w' where p: "issue_pair jwt secret en u w0 = (t, w')" by fastforce
  with assms(2,3,5) h c u have "w' = w1" by (simp add: register_def bindW_def)
  note pu = issue_pair_users [OF cu(5) p, unfolded this]
  have users: "users (w_db w1) = users (w_db w) @ [u]" using pu cu by simp
  then have f: "List.find (\<lambda>u. u_email u = email) (users (w_db w1)) = Some u"
    using cu(1,4) by (auto simp: find_append split: option.splits dest: find_Some_mem)
  have "bc_compare bc (u_password_hash u) password" using assms(4) h cu(2) by blast
  moreover have "user_by_email email w1 = (Inr u, elapse w1)"
    using user_by_email_quiet [OF pu(2), of email] assms(7) pu(3) cu(6) f by simp
  ultimately have "login uni jwt bc secret en2 rq w1 =
      bindW (issue_pair jwt secret en2 u) (\<lambda>t. returnW (respond_tokens 200 t)) (elapse w1)"
    using assms(2,3) by (simp add: login_def bindW_pair)
  with users cu(1) show ?thesis by auto
qed

lemma sample_registered:
  obtains rs w1 where
    "register id any_jwt sample_bcrypt ''k'' sample_entropy credentials_rq (sample_world 1 sample_db) = (rs, w1)"
    "rs_status rs = 201"
proof -
  let ?w = "sample_world 1 sample_db"
  let ?w1 = "(elapse ?w)\<lparr>w_db := (w_db ?w)\<lparr>users := users (w_db ?w) @ [new_user (w_sess ?w) ''new@b'' ''s12345678'']\<rparr>\<rparr>"
  have taken: "\<not> (\<exists>u\<in>set (users (w_db ?w)). u_email u = ''new@b'')" by (simp add: sample_defs)
  have fresh: "sl_uuid (w_slot ?w) \<notin> u_id ` set (users (w_db ?w))" by (simp add: w_slot_def sample_defs)
  have "create_user ''new@b'' ''s12345678'' ?w = (Inr (new_user (w_sess ?w) ''new@b'' ''s12345678''), ?w1)"
    using create_user_quiet [OF sample_world_quiet _ _ fresh, of "''new@b''" "''s12345678''"] taken by simp
  moreover have "can_issue any_jwt ''k'' ''0123456789abcdef'' ?w1 (u_id (new_user (w_sess ?w) ''new@b'' ''s12345678''))
      (u_email (new_user (w_sess ?w) ''new@b'' ''s12345678'')) ''acc''"
    by (rule sample_can_issue) (simp_all add: sample_db_def empty_db_def user_exists_def)
  moreover have "quiet ?w1" by simp
  ultimately show thesis
    using that issue_pair_quiet [of ?w1 sample_entropy "''0123456789abcdef''" any_jwt "''k''"
        "new_user (w_sess ?w) ''new@b'' ''s12345678''" "''acc''"]
    by (simp add: register_def credentials_decoded credentials_normal sample_generate bindW_def respond_tokens_def)
qed

theorem register_then_login_witness:
  "\<exists>rs w1. register id any_jwt sample_bcrypt ''k'' sample_entropy credentials_rq (sample_world 1 sample_db) = (rs, w1)
    \<and> (\<exists>u\<in>set (users (w_db w1)). u_email u = ''new@b'' \<and>
    login id any_jwt sample_bcrypt ''k'' sample_entropy credentials_rq w1 =
      bindW (issue_pair any_jwt ''k'' sample_entropy u) (\<lambda>t. returnW (respond_tokens 200 t)) (elapse w1))"
proof -
  have bc: "\<forall>salt pw cost h. bc_generate sample_bcrypt salt pw cost = Some h \<longrightarrow> bc_compare sample_bcrypt h pw"
    by (auto simp: sample_bcrypt_def suffix_def)
  obtain rs w1 where r:
    "register id any_jwt sample_bcrypt ''k'' sample_entropy credentials_rq (sample_world 1 sample_db) = (rs, w1)"
    "rs_status rs = 201" by (rule sample_registered)
  from register_then_login [OF sample_world_quiet credentials_decoded credentials_normal bc r, of sample_entropy] r(1)
  show ?thesis by simp
qed

end
