(* ===== verification/Api_Properties.thy ===== *)
theory Api_Properties
  imports Server_Samples
begin

text \<open>What the endpoints for rules and events, the health check and the demo endpoint guarantee.\<close>

section \<open>Rules\<close>

lemma validate_name_ok: "validate_name n = None \<Longrightarrow> name_check (trim_space n) \<and> trim_space n \<noteq> []"
  using char_length_le [of "trim_space n"]
  by (auto simp: validate_name_def name_check_def max_name_len_def Let_def split: if_splits)

text \<open>A name that passes validation fits the table's check, so \<open>alert_rules_name_len\<close> never
  fires; the converse fails: the code's limit of 80 "characters" counts bytes.\<close>

theorem validated_names_fit:
  "(validate_name n = None \<longrightarrow> name_check (trim_space n) \<and> trim_space n \<noteq> [])
   \<and> (\<exists>m. char_length m = 27 \<and> trim_space m = m \<and> validate_name m \<noteq> None)"
proof -
  let ?m = "concat (replicate 27 [CHR 0xE6, CHR 0xBC, CHR 0xA2])"
  have "char_length ?m = 27" by code_simp
  moreover have "trim_space ?m = ?m" by code_simp
  moreover have "length ?m > max_name_len" by code_simp
  moreover from this have "?m \<noteq> []" by auto
  ultimately have "\<exists>m. char_length m = 27 \<and> trim_space m = m \<and> validate_name m \<noteq> None"
    by (intro exI [of _ ?m]) (simp add: validate_name_def)
  then show ?thesis using validate_name_ok by blast
qed

theorem validated_names_fit_witness: "name_check (trim_space ''low'') \<and> trim_space ''low'' \<noteq> []"
proof -
  have "validate_name ''low'' = None" by code_simp
  then show ?thesis using validated_names_fit [of "''low''"] by blast
qed

text \<open>The three meanings of \<open>threshold\<close> in a patch: omitted leaves the stored threshold alone,
  null clears it, and a number sets it.\<close>

theorem patch_threshold_three_valued:
  "map_option (\<lambda>r. or_else (patch_threshold (pr_threshold r)) old) (decode_patch_request (JObj [])) = Some old
   \<and> map_option (\<lambda>r. or_else (patch_threshold (pr_threshold r)) old)
       (decode_patch_request (JObj [(''threshold'', JNull)])) = Some None
   \<and> map_option (\<lambda>r. or_else (patch_threshold (pr_threshold r)) old)
       (decode_patch_request (JObj [(''threshold'', JNum n)])) = map_option Some (dec_float (JNum n) 0)"
  by (cases "dec_float (JNum n) 0")
     (simp_all add: decode_patch_request_def dec_struct_def ascii_lower_def byte_of_def dec_optional_float_def
        patch_threshold_def)

text \<open>The stored rule a patch answers with.\<close>

definition patched :: "time \<Rightarrow> patch_request \<Rightarrow> rule \<Rightarrow> rule" where
  "patched now req r =
     r\<lparr>r_name := (case pr_name req of None \<Rightarrow> r_name r | Some n \<Rightarrow> trim_space n),
       r_event_type := (case pr_event_type req of None \<Rightarrow> r_event_type r | Some t \<Rightarrow> trim_space t),
       r_threshold := (if of_set (pr_threshold req)
                       then (if of_null (pr_threshold req) then None else of_value (pr_threshold req))
                       else r_threshold r),
       r_enabled := (case pr_enabled req of None \<Rightarrow> r_enabled r | Some b \<Rightarrow> b),
       r_updated_at := now\<rparr>"

lemma rule_statement_frame:
  "quiet w \<Longrightarrow> (elapse w)\<lparr>w_db := w_db w\<rparr> = elapse w"
  by (simp add: elapse_def quiet_slot)

lemma get_rule_quiet:
  assumes "quiet w" "pg_uuid_in (w_pg w) i = Some j" "pg_uuid_in (w_pg w) uid = Some u"
  shows "get_rule_for_user uid i w =
    (case List.find (owned_rule j u) (alert_rules (w_db w)) of
       None \<Rightarrow> Inl ErrRuleNotFound | Some r \<Rightarrow> Inr r, elapse w)"
  using assms
  by (simp add: get_rule_for_user_def bindW_def sql_rule_for_user_def stmt_query_quiet uuid_arg_def one_row_def
      split: option.split)

lemma update_owned_rule:
  assumes "distinct (map r_id rules)" "List.find (owned_rule j u) rules = Some r"
  shows "update_where (owned_rule j u) f rules = map (\<lambda>x. if x = r then f r else x) rules"
proof -
  have r: "r \<in> set rules" "owned_rule j u r" using find_Some_mem [OF assms(2)] by auto
  have "owned_rule j u x \<longleftrightarrow> x = r" if "x \<in> set rules" for x
    using distinct_map_mem_eq [OF assms(1) that r(1)] r(2) by (auto simp: owned_rule_def)
  then show "update_where (owned_rule j u) f rules = map (\<lambda>x. if x = r then f r else x) rules"
    by (auto simp: update_where_def)
qed

lemma patch_field_valid:
  "(\<forall>t. p = Some t \<longrightarrow> validate (trim_space t) = None) \<Longrightarrow> patch_field validate p = Inr (map_option trim_space p)"
  by (cases p) (simp_all add: patch_field_def)

definition patch_input :: "patch_request \<Rightarrow> rule_update" where
  "patch_input req =
     \<lparr>ru_name = map_option trim_space (pr_name req), ru_event_type = map_option trim_space (pr_event_type req),
      ru_threshold = patch_threshold (pr_threshold req), ru_enabled = pr_enabled req\<rparr>"

lemma patched_eq:
  "updated_rule now (or_else (ru_name (patch_input req)) (r_name r))
      (or_else (ru_event_type (patch_input req)) (r_event_type r))
      (or_else (ru_threshold (patch_input req)) (r_threshold r))
      (or_else (ru_enabled (patch_input req)) (r_enabled r)) r = patched now req r"
  by (simp add: updated_rule_def patched_def patch_input_def patch_threshold_def or_else_def split: option.split)

lemma update_rule_quiet:
  assumes "quiet w" "keys_ok (w_db w)" "pg_uuid_in (w_pg w) i = Some j" "pg_uuid_in (w_pg w) uid = Some u"
    and "\<forall>n. pr_name req = Some n \<longrightarrow> validate_name (trim_space n) = None \<and> pg_text_ok (w_pg w) (trim_space n)"
    and "\<forall>t. pr_event_type req = Some t \<longrightarrow> pg_text_ok (w_pg w) (trim_space t)"
    and "\<forall>r\<in>set (alert_rules (w_db w)).
      name_check (r_name r) \<and> pg_text_ok (w_pg w) (r_name r) \<and> pg_text_ok (w_pg w) (r_event_type r)"
  shows "case update_rule_for_user uid i (patch_input req) w of (res, w') \<Rightarrow>
    (case List.find (owned_rule j u) (alert_rules (w_db w)) of
       None \<Rightarrow> res = Inl ErrRuleNotFound \<and> w_db w' = w_db w
     | Some r \<Rightarrow> res = Inr (patched (w_now w') req r) \<and>
         w_db w' = (w_db w)\<lparr>alert_rules := map (\<lambda>x. if x = r then patched (w_now w') req r else x) (alert_rules (w_db w))\<rparr>)"
proof -
  have db: "w_db (elapse w) = w_db w" "quiet (elapse w)" using assms(1) by (simp_all add: quiet_slot)
  note g = get_rule_quiet [OF assms(1,3,4)]
  show ?thesis
  proof (cases "List.find (owned_rule j u) (alert_rules (w_db w))")
    case None
    then show ?thesis using g by (simp add: update_rule_for_user_def bindW_def quiet_slot [OF assms(1)])
  next
    case (Some r)
    let ?in = "patch_input req" and ?s = "w_sess (elapse w)"
    let ?q = "sql_update_rule i uid (or_else (ru_name ?in) (r_name r)) (or_else (ru_event_type ?in) (r_event_type r))
      (or_else (ru_threshold ?in) (r_threshold r)) (or_else (ru_enabled ?in) (r_enabled r))"
    have "name_check (or_else (ru_name ?in) (r_name r))"
      using assms(5,7) find_Some_mem [OF Some]
      by (cases "pr_name req") (auto simp: patch_input_def dest!: validate_name_ok)
    moreover have "pg_text_ok (w_pg w) (or_else (ru_name ?in) (r_name r))"
      using assms(5,7) find_Some_mem [OF Some] by (cases "pr_name req") (auto simp: patch_input_def)
    moreover have "pg_text_ok (w_pg w) (or_else (ru_event_type ?in) (r_event_type r))"
      using assms(6,7) find_Some_mem [OF Some] by (cases "pr_event_type req") (auto simp: patch_input_def)
    moreover have "distinct (map r_id (alert_rules (w_db w)))" using assms(2) by (simp add: keys_ok_def)
    ultimately have "?q ?s (w_db w) = (Inr (patched (se_now ?s) req r),
        (w_db w)\<lparr>alert_rules := map (\<lambda>x. if x = r then patched (se_now ?s) req r else x) (alert_rules (w_db w))\<rparr>)"
      using assms(3,4) Some update_owned_rule [of "alert_rules (w_db w)" j u r]
      by (simp add: sql_update_rule_def update_def uuid_arg_def text_arg_def patched_eq)
    then show ?thesis
      using g Some stmt_quiet [OF db(2), of ?q] db(1) by (simp add: update_rule_for_user_def bindW_def)
  qed
qed

text \<open>C30: without faults a patch with valid fields answers 404 and changes nothing when the caller
  has no rule with this id; otherwise it rewrites exactly that rule, field by field, and answers
  with it. Nobody else's rule is touched.\<close>

theorem rules_patch_refines:
  assumes "quiet w" "decode_body decode_patch_request rq = Some req" "keys_ok (w_db w)"
    and "pg_uuid_in (w_pg w) (rq_path_id rq) = Some j" "pg_uuid_in (w_pg w) (uc_id c) = Some u"
    and "\<forall>n. pr_name req = Some n \<longrightarrow> validate_name (trim_space n) = None \<and> pg_text_ok (w_pg w) (trim_space n)"
    and "\<forall>t. pr_event_type req = Some t \<longrightarrow> validate_event_type (trim_space t) = None \<and> pg_text_ok (w_pg w) (trim_space t)"
    and "\<forall>r\<in>set (alert_rules (w_db w)).
      name_check (r_name r) \<and> pg_text_ok (w_pg w) (r_name r) \<and> pg_text_ok (w_pg w) (r_event_type r)"
  shows "case rules_patch (Some c) rq w of (rs, w') \<Rightarrow>
    (case List.find (\<lambda>r. r_id r = j \<and> r_user_id r = u) (alert_rules (w_db w)) of
       None \<Rightarrow> rs = write_error 404 ''not_found'' ''alert rule not found'' \<and> w_db w' = w_db w
     | Some r \<Rightarrow>
         rs = write_json 200 (RuleBody (patched (w_now w') req r)) \<and>
         w_db w' = (w_db w)\<lparr>alert_rules := map (\<lambda>x. if x = r then patched (w_now w') req r else x) (alert_rules (w_db w))\<rparr>)"
proof -
  have o: "owned_rule j u = (\<lambda>r. r_id r = j \<and> r_user_id r = u)" by (auto simp: owned_rule_def)
  have h: "rules_patch (Some c) rq = bindW (update_rule_for_user (uc_id c) (rq_path_id rq) (patch_input req)) (\<lambda>r. returnW
      (case r of
         Inl e \<Rightarrow>
           if errors_is e ErrRuleNotFound then write_error 404 ''not_found'' ''alert rule not found''
           else write_error 500 ''internal_error'' ''could not update rule''
       | Inr rule \<Rightarrow> write_json 200 (RuleBody rule)))"
    using assms(2,6,7) patch_field_valid [of "pr_name req" validate_name]
      patch_field_valid [of "pr_event_type req" validate_event_type]
    by (simp add: rules_patch_def patch_input_def)
  show ?thesis
    using update_rule_quiet [OF assms(1,3,4,5,6) _ assms(8)] assms(7) unfolding h o [symmetric]
    by (cases "update_rule_for_user (uc_id c) (rq_path_id rq) (patch_input req) w")
       (auto simp: bindW_def split: option.splits)
qed

definition patch_rq :: request where
  "patch_rq = \<lparr>rq_authorization = [], rq_signature = [], rq_body = ''{\"threshold\":null}'', rq_body_fails = False,
     rq_path_id = ''r1'', rq_status = []\<rparr>"

definition clear_threshold :: patch_request where
  "clear_threshold = \<lparr>pr_name = None, pr_event_type = None,
     pr_threshold = \<lparr>of_set = True, of_null = True, of_value = None\<rparr>, pr_enabled = None\<rparr>"

lemma patch_rq_decoded: "decode_body decode_patch_request patch_rq = Some clear_threshold"
proof -
  have "json_decode ''{\"threshold\":null}'' = Inr (JObj [(''threshold'', JNull)])" by code_simp
  moreover have "decode_patch_request (JObj [(''threshold'', JNull)]) = Some clear_threshold" by code_simp
  ultimately show ?thesis by (simp add: decode_body_def body_value_def patch_rq_def)
qed

abbreviation sample_ctx :: user_ctx where
  "sample_ctx \<equiv> \<lparr>uc_id = ''u1'', uc_email = ''a@b''\<rparr>"

theorem rules_patch_refines_witness:
  "case rules_patch (Some sample_ctx) patch_rq (sample_world 1 sample_db) of (rs, w') \<Rightarrow>
    (case List.find (\<lambda>r. r_id r = ''r1'' \<and> r_user_id r = ''u1'') (alert_rules sample_db) of
       None \<Rightarrow> False
     | Some r \<Rightarrow>
         rs = write_json 200 (RuleBody (patched (w_now w') clear_threshold r)) \<and>
         w_db w' = sample_db\<lparr>alert_rules := map (\<lambda>x. if x = r then patched (w_now w') clear_threshold r else x) (alert_rules sample_db)\<rparr>)"
proof -
  have "List.find (\<lambda>r. r_id r = ''r1'' \<and> r_user_id r = ''u1'') (alert_rules sample_db) = Some sample_rule"
    by (simp add: sample_defs)
  moreover have "keys_ok sample_db" "\<forall>r\<in>set (alert_rules sample_db). name_check (r_name r)"
    using sample_db_ok by (auto simp: db_ok_def refs_ok_def)
  ultimately show ?thesis
    using rules_patch_refines [OF sample_world_quiet patch_rq_decoded, of 1 sample_db "''r1''" sample_ctx "''u1''"]
    by (simp add: patch_rq_def clear_threshold_def split: prod.splits)
qed

lemma remove_one_rule:
  assumes "filter p (alert_rules d) = [r]" "\<And>x. x \<in> set (alert_rules d) \<Longrightarrow> p x = (x = r)"
  shows "remove_rules p d = d\<lparr>alert_rules := filter (\<lambda>x. x \<noteq> r) (alert_rules d),
    events := map (\<lambda>e. if ev_matched_rule_id e = Some (r_id r) then e\<lparr>ev_matched_rule_id := None\<rparr> else e) (events d)\<rparr>"
proof -
  have "delete_where p (alert_rules d) = filter (\<lambda>x. x \<noteq> r) (alert_rules d)"
    unfolding delete_where_def by (rule filter_cong) (simp_all add: assms(2))
  moreover have "update_where (\<lambda>e. case ev_matched_rule_id e of None \<Rightarrow> False | Some m \<Rightarrow> m \<in> set [r_id r]) unmatch_row (events d)
    = map (\<lambda>e. if ev_matched_rule_id e = Some (r_id r) then e\<lparr>ev_matched_rule_id := None\<rparr> else e) (events d)"
    unfolding update_where_def unmatch_row_def by (rule map_cong) (simp_all split: option.split)
  ultimately show ?thesis by (simp add: remove_rules_def Let_def assms(1))
qed

text \<open>C31: without faults a delete answers 404 and changes nothing when the caller has no rule with
  this id; otherwise 204, that rule alone is gone, and the events it had matched stay with their
  match cleared.\<close>

theorem rules_delete_refines:
  assumes "quiet w" "keys_ok (w_db w)"
    and "pg_uuid_in (w_pg w) (rq_path_id rq) = Some j" "pg_uuid_in (w_pg w) (uc_id c) = Some u"
  shows "case rules_delete (Some c) rq w of (rs, w') \<Rightarrow>
    (case List.find (\<lambda>r. r_id r = j \<and> r_user_id r = u) (alert_rules (w_db w)) of
       None \<Rightarrow> rs = write_error 404 ''not_found'' ''alert rule not found'' \<and> w_db w' = w_db w
     | Some r \<Rightarrow>
         rs = write_json 204 NoBody \<and>
         w_db w' = (w_db w)\<lparr>alert_rules := filter (\<lambda>x. x \<noteq> r) (alert_rules (w_db w)),
           events := map (\<lambda>e. if ev_matched_rule_id e = Some j then e\<lparr>ev_matched_rule_id := None\<rparr> else e)
             (events (w_db w))\<rparr>)"
proof -
  let ?rules = "alert_rules (w_db w)"
  have o: "owned_rule j u = (\<lambda>r. r_id r = j \<and> r_user_id r = u)" by (auto simp: owned_rule_def)
  have d: "distinct (map r_id ?rules)" using assms(2) by (simp add: keys_ok_def)
  have q: "sql_delete_rule (rq_path_id rq) (uc_id c) (w_sess w) (w_db w) =
      (Inr (count_where (owned_rule j u) ?rules), remove_rules (owned_rule j u) (w_db w))"
    using assms(3,4) by (simp add: sql_delete_rule_def update_def uuid_arg_def)
  note st = stmt_quiet [OF assms(1), of "sql_delete_rule (rq_path_id rq) (uc_id c)", unfolded q]
  show ?thesis
  proof (cases "List.find (owned_rule j u) ?rules")
    case None
    then have none: "\<forall>r\<in>set ?rules. \<not> owned_rule j u r" by (simp add: find_None_mem)
    then have "count_where (owned_rule j u) ?rules = 0" by (simp add: count_where_0_iff)
    then show ?thesis
      using None st remove_no_rules [OF none] unfolding o [symmetric]
      by (simp add: rules_delete_def delete_rule_for_user_def bindW_def)
  next
    case (Some r)
    have r: "r \<in> set ?rules" "owned_rule j u r" using find_Some_mem [OF Some] by simp_all
    have own: "owned_rule j u x = (x = r)" if "x \<in> set ?rules" for x
      using distinct_map_mem_eq [OF d that r(1)] r(2) by (auto simp: owned_rule_def)
    have "filter (owned_rule j u) ?rules = filter (\<lambda>x. r_id x = r_id r) ?rules"
      by (rule filter_cong) (use own distinct_map_mem_eq [OF d _ r(1)] in auto)
    then have f: "filter (owned_rule j u) ?rules = [r]" using distinct_filter_key [OF d r(1)] by simp
    have "r_id r = j" using r(2) by (simp add: owned_rule_def)
    then show ?thesis
      using Some st remove_one_rule [OF f own] f unfolding o [symmetric]
      by (simp add: rules_delete_def delete_rule_for_user_def bindW_def count_where_def)
  qed
qed

theorem rules_delete_refines_witness:
  "case rules_delete (Some sample_ctx) patch_rq (sample_world 1 sample_db) of (rs, w') \<Rightarrow>
    rs = write_json 204 NoBody \<and> alert_rules (w_db w') = []"
proof -
  have "List.find (\<lambda>r. r_id r = ''r1'' \<and> r_user_id r = ''u1'') (alert_rules sample_db) = Some sample_rule"
    "filter (\<lambda>x. x \<noteq> sample_rule) (alert_rules sample_db) = []"
    by (simp_all add: sample_db_def sample_rule_def)
  then show ?thesis
    using rules_delete_refines [OF sample_world_quiet, of 1 sample_db patch_rq "''r1''" sample_ctx "''u1''"]
      db_ok_keys [OF sample_db_ok]
    by (auto simp: patch_rq_def split: prod.splits)
qed

section \<open>Events\<close>

text \<open>C32: without faults the event list answers 200 with at most 100 of the caller's events of the
  requested status, newest first; it leaves one out only when it is full and the one left out is
  no newer than any it shows.\<close>

theorem events_list_newest:
  assumes "quiet w" "pg_uuid_in (w_pg w) (uc_id c) = Some u" "pg_text_ok (w_pg w) (rq_status rq)"
  shows "\<exists>rows. fst (events_list (Some c) rq w) = write_json 200 (EventsBody (map scan_event rows))
    \<and> length rows \<le> 100 \<and> sorted_wrt (\<lambda>r r'. ev_received_at r \<ge> ev_received_at r') rows
    \<and> set rows \<subseteq> {r \<in> set (events (w_db w)). ev_user_id r = u \<and>
        (rq_status rq = [] \<or> status_text (ev_status r) = rq_status rq)}
    \<and> (\<forall>r\<in>set (events (w_db w)). ev_user_id r = u \<and> (rq_status rq = [] \<or> status_text (ev_status r) = rq_status rq)
        \<longrightarrow> r \<in> set rows \<or> (length rows = 100 \<and> (\<forall>r'\<in>set rows. ev_received_at r \<le> ev_received_at r')))"
proof -
  let ?p = "\<lambda>r. ev_user_id r = u \<and> (rq_status rq = [] \<or> status_text (ev_status r) = rq_status rq)"
  let ?all = "order_desc ev_received_at (filter ?p (events (w_db w)))"
  have q: "sql_list_events (uc_id c) (if rq_status rq = [] then None else Some (rq_status rq)) (w_sess w) (w_db w)
      = (Inr (map scan_event (take 100 ?all)), w_db w)"
    using assms(2,3) by (auto simp: sql_list_events_def query_def uuid_arg_def text_arg_def)
  have sorted: "sorted_wrt (\<lambda>r r'. ev_received_at r \<ge> ev_received_at r') (take 100 ?all @ drop 100 ?all)"
    using sorted_order_desc [of ev_received_at] by simp
  have set: "set (take 100 ?all) \<union> set (drop 100 ?all) = {r \<in> set (events (w_db w)). ?p r}"
    by (metis append_take_drop_id set_append set_order_desc set_filter)
  have "\<forall>r\<in>set (events (w_db w)). ?p r \<longrightarrow> r \<in> set (take 100 ?all)
      \<or> (length (take 100 ?all) = 100 \<and> (\<forall>r'\<in>set (take 100 ?all). ev_received_at r \<le> ev_received_at r'))"
  proof (intro ballI impI)
    fix r assume "r \<in> set (events (w_db w))" "?p r"
    with set consider "r \<in> set (take 100 ?all)" | "r \<in> set (drop 100 ?all)" by blast
    then show "r \<in> set (take 100 ?all)
      \<or> (length (take 100 ?all) = 100 \<and> (\<forall>r'\<in>set (take 100 ?all). ev_received_at r \<le> ev_received_at r'))"
    proof cases
      case 2
      then have "length (take 100 ?all) = 100" by (cases "100 \<le> length ?all") simp_all
      moreover have "\<forall>r'\<in>set (take 100 ?all). ev_received_at r \<le> ev_received_at r'"
        using sorted 2 unfolding sorted_wrt_append by blast
      ultimately show ?thesis by blast
    qed blast
  qed
  moreover have "set (take 100 ?all) \<subseteq> {r \<in> set (events (w_db w)). ?p r}" using set by blast
  moreover have "fst (events_list (Some c) rq w) = write_json 200 (EventsBody (map scan_event (take 100 ?all)))"
    using stmt_quiet [OF assms(1), of "sql_list_events (uc_id c) (if rq_status rq = [] then None else Some (rq_status rq))"]
    unfolding q
    by (simp only: events_list_def list_for_user_def option.case bindW_def prod.case returnW_simps
        wrap_err_simps sum.case fst_conv)
  moreover have "sorted_wrt (\<lambda>r r'. ev_received_at r \<ge> ev_received_at r') (take 100 ?all)"
    using sorted unfolding sorted_wrt_append by blast
  ultimately show ?thesis by (intro exI [of _ "take 100 ?all"]) auto
qed

theorem events_list_newest_witness:
  "\<exists>rows. fst (events_list (Some sample_ctx) patch_rq (sample_world 1 sample_db)) = write_json 200 (EventsBody (map scan_event rows))
    \<and> length rows \<le> 100 \<and> set rows \<subseteq> set (events sample_db)"
  using events_list_newest [OF sample_world_quiet, of 1 sample_db sample_ctx "''u1''" patch_rq] by auto

section \<open>Queue statistics\<close>

definition status_counts :: "event_row list \<Rightarrow> (status \<times> int) list" where
  "status_counts es = filter (\<lambda>(st, n). n \<noteq> 0)
     (map (\<lambda>st. (st, int (count_where (\<lambda>r. ev_status r = st) es))) [Pending, Processing, Processed, Failed])"

lemma status_counts_mem:
  "(st, n) \<in> set (status_counts es) \<longleftrightarrow> n \<noteq> 0 \<and> n = int (length (filter (\<lambda>r. ev_status r = st) es))"
  by (cases st) (auto simp: status_counts_def count_where_def)

lemma sum_nonzero: "sum_list (map snd (filter (\<lambda>(st, n). n \<noteq> (0::int)) xs)) = sum_list (map snd xs)"
  by (induction xs) auto

lemma status_counts_sum: "sum_list (map snd (status_counts es)) = int (length es)"
proof -
  have "int (count_where (\<lambda>r. ev_status r = Pending) es) + int (count_where (\<lambda>r. ev_status r = Processing) es)
      + int (count_where (\<lambda>r. ev_status r = Processed) es) + int (count_where (\<lambda>r. ev_status r = Failed) es)
      = int (length es)"
  proof (induction es)
    case (Cons e es)
    then show ?case by (cases "ev_status e") (simp_all add: count_where_def)
  qed (simp add: count_where_def)
  then show ?thesis by (simp add: status_counts_def sum_nonzero del: filter.simps)
qed

text \<open>An interval between two timestamps of 64 bits is a float.\<close>

lemma round64_interval:
  assumes "\<bar>n\<bar> < 2 ^ 63" shows "round64 (of_int n / 1000000) \<noteq> None"
proof (cases "n = 0")
  case False
  let ?x = "\<bar>of_int n / 1000000\<bar> :: rat"
  have "round64_pos (2 ^ 63) = 2 ^ 63" by code_simp
  then have big: "round64_pos 9223372036854775808 = 9223372036854775808" by simp
  have "of_int \<bar>n\<bar> < (2 ^ 63 :: rat)" using assms by (metis of_int_less_iff of_int_numeral of_int_power)
  then have "?x \<le> 2 ^ 63" by simp
  with False have "round64_pos ?x \<le> 2 ^ 63" using round64_pos_mono [of ?x "2 ^ 63"] by (simp add: big)
  moreover have "0 \<le> round64_pos ?x" by (rule round64_pos_nonneg) simp
  ultimately have "\<bar>sgn (of_int n / 1000000) * round64_pos ?x\<bar> \<le> 2 ^ 63"
    by (simp add: abs_mult abs_sgn_eq)
  then have "\<bar>sgn (of_int n / 1000000) * round64_pos ?x\<bar> < 2 ^ 1024" by (rule le_less_trans) simp
  with False show ?thesis by (simp add: round64_def Let_def del: abs_divide)
qed (simp add: round64_def)

definition pending :: "db \<Rightarrow> event_row set" where
  "pending d = {r \<in> set (events d). ev_status r = Pending}"

lemma oldest_pending_cases:
  assumes "\<forall>r\<in>pending d. \<bar>se_now s - ev_received_at r\<bar> < 2 ^ 63"
  shows "case fst (sql_oldest_pending s d) of
      Inl e \<Rightarrow> e = ErrNoRows \<and> pending d = {}
    | Inr a \<Rightarrow> \<exists>r\<in>pending d. (\<forall>r'\<in>pending d. ev_received_at r \<le> ev_received_at r')
        \<and> round64 (of_int (se_now s - ev_received_at r) / 1000000) = Some a"
proof (cases "order_asc ev_received_at (filter (\<lambda>r. ev_status r = Pending) (events d))")
  case Nil
  then have "filter (\<lambda>r. ev_status r = Pending) (events d) = []"
    by (metis set_order_asc set_empty)
  then have "pending d = {}" by (simp add: pending_def filter_empty_conv)
  with Nil show ?thesis unfolding sql_oldest_pending_def query_simps Nil by simp
next
  case (Cons r rs)
  note r = order_asc_hd [OF Cons]
  then have "r \<in> pending d" by (simp add: pending_def)
  then obtain a where "round64 (of_int (se_now s - ev_received_at r) / 1000000) = Some a"
    using round64_interval [of "se_now s - ev_received_at r"] assms by auto
  with r Cons show ?thesis by (auto simp: sql_oldest_pending_def pending_def intro!: bexI [of _ r])
qed

lemma get_queue_stats_quiet:
  assumes "quiet w" "\<forall>r\<in>pending (w_db w). \<bar>se_now (w_sess (elapse w)) - ev_received_at r\<bar> < 2 ^ 63"
  shows "\<exists>age. fst (get_queue_stats w) = Inr \<lparr>qs_by_status = status_counts (events (w_db w)), qs_oldest_pending_s = age\<rparr>
    \<and> (case age of None \<Rightarrow> pending (w_db w) = {}
       | Some a \<Rightarrow> \<exists>r\<in>pending (w_db w). (\<forall>r'\<in>pending (w_db w). ev_received_at r \<le> ev_received_at r')
           \<and> round64 (of_int (se_now (w_sess (elapse w)) - ev_received_at r) / 1000000) = Some a)"
proof -
  have e: "w_db (elapse w) = w_db w" "quiet (elapse w)" using assms by (simp_all add: quiet_slot)
  have c: "stmt sql_status_counts w = (Inr (status_counts (events (w_db w))), elapse w)"
    unfolding sql_status_counts_def status_counts_def by (rule stmt_query_quiet [OF assms(1)])
  obtain r w2 where o': "stmt sql_oldest_pending (elapse w) = (r, w2)" "r = fst (sql_oldest_pending (w_sess (elapse w)) (w_db w))"
    using stmt_quiet [OF e(2), of sql_oldest_pending] by (simp only: e(1))
  show ?thesis
    using oldest_pending_cases [OF assms(2)] unfolding o'(2) [symmetric]
    by (cases r) (simp_all add: get_queue_stats_def bindW_def c o'(1) del: w_sess_simps)
qed

text \<open>C33: without faults the queue statistics count every event exactly once under its status and
  leave zero counts out; the age is left out exactly when no event is pending, and otherwise that of a pending
  event that no other is older than, in seconds rounded to a float (PostgreSQL's times are microseconds in 64 bits).\<close>

theorem queue_stats_exact:
  assumes "quiet w" "\<forall>r\<in>pending (w_db w). \<bar>se_now (w_sess (elapse w)) - ev_received_at r\<bar> < 2 ^ 63"
  shows "\<exists>qs. fst (get_queue_stats w) = Inr qs
    \<and> (\<forall>st n. (st, n) \<in> set (qs_by_status qs) \<longleftrightarrow>
        n \<noteq> 0 \<and> n = int (length (filter (\<lambda>r. ev_status r = st) (events (w_db w)))))
    \<and> sum_list (map snd (qs_by_status qs)) = int (length (events (w_db w)))
    \<and> (case qs_oldest_pending_s qs of
         None \<Rightarrow> pending (w_db w) = {}
       | Some a \<Rightarrow> \<exists>r\<in>pending (w_db w). (\<forall>r'\<in>pending (w_db w). ev_received_at r \<le> ev_received_at r')
           \<and> round64 (of_int (se_now (w_sess (elapse w)) - ev_received_at r) / 1000000) = Some a)"
proof -
  from get_queue_stats_quiet [OF assms] obtain age where
    g: "fst (get_queue_stats w) = Inr \<lparr>qs_by_status = status_counts (events (w_db w)), qs_oldest_pending_s = age\<rparr>"
    "case age of None \<Rightarrow> pending (w_db w) = {}
       | Some a \<Rightarrow> \<exists>r\<in>pending (w_db w). (\<forall>r'\<in>pending (w_db w). ev_received_at r \<le> ev_received_at r')
           \<and> round64 (of_int (se_now (w_sess (elapse w)) - ev_received_at r) / 1000000) = Some a" by blast
  let ?qs = "\<lparr>qs_by_status = status_counts (events (w_db w)), qs_oldest_pending_s = age\<rparr>"
  show ?thesis
    unfolding g(1)
    by (intro exI [of _ ?qs] conjI)
       (use g(2) in \<open>simp_all add: status_counts_mem status_counts_sum del: w_sess_simps\<close>)
qed

theorem queue_stats_exact_witness:
  "\<exists>qs a. fst (get_queue_stats (sample_world 1 sample_db)) = Inr qs
    \<and> sum_list (map snd (qs_by_status qs)) = int (length (events sample_db)) \<and> qs_oldest_pending_s qs = Some a"
proof -
  have p: "pending sample_db = {sample_event}"
    by (auto simp: pending_def sample_defs new_event_def)
  then have "\<forall>r\<in>pending (w_db (sample_world 1 sample_db)).
      \<bar>se_now (w_sess (elapse (sample_world 1 sample_db))) - ev_received_at r\<bar> < 2 ^ 63"
    by (simp add: w_slot_def) (simp add: sample_defs new_event_def)
  from queue_stats_exact [OF sample_world_quiet this] show ?thesis
    by (auto simp: p split: option.splits)
qed

section \<open>Demo events\<close>

text \<open>\<open>adds_at_most n k m\<close>: alone on the database, but with any messages lost, \<open>m\<close> adds at most
  \<open>n\<close> events and \<open>k\<close> rules.\<close>

definition alone :: "world \<Rightarrow> bool" where
  "alone w \<longleftrightarrow> (\<forall>k. sl_env (w_script w k) = id)"

definition adds_at_most :: "nat \<Rightarrow> nat \<Rightarrow> 'a io \<Rightarrow> bool" where
  "adds_at_most n k m \<longleftrightarrow> (\<forall>w. alone w \<longrightarrow> alone (snd (m w))
     \<and> length (events (w_db (snd (m w)))) \<le> length (events (w_db w)) + n
     \<and> length (alert_rules (w_db (snd (m w)))) \<le> length (alert_rules (w_db w)) + k)"

lemma adds_return: "adds_at_most n k (returnW x)"
  by (simp add: adds_at_most_def)

lemma adds_bind:
  assumes "adds_at_most a b m" "\<And>x. adds_at_most c d (f x)"
  shows "adds_at_most (a + c) (b + d) (bindW m f)"
  unfolding adds_at_most_def
proof (intro allI impI)
  fix w assume "alone w"
  obtain x w' where m: "m w = (x, w')" by fastforce
  with assms(1) \<open>alone w\<close> have "alone w'" "length (events (w_db w')) \<le> length (events (w_db w)) + a"
    "length (alert_rules (w_db w')) \<le> length (alert_rules (w_db w)) + b"
    by (auto simp: adds_at_most_def dest!: spec [of _ w])
  moreover from this(1) assms(2) [of x] have "alone (snd (f x w'))"
    "length (events (w_db (snd (f x w')))) \<le> length (events (w_db w')) + c"
    "length (alert_rules (w_db (snd (f x w')))) \<le> length (alert_rules (w_db w')) + d"
    by (auto simp: adds_at_most_def)
  ultimately show "alone (snd (bindW m f w))
     \<and> length (events (w_db (snd (bindW m f w)))) \<le> length (events (w_db w)) + (a + c)
     \<and> length (alert_rules (w_db (snd (bindW m f w)))) \<le> length (alert_rules (w_db w)) + (b + d)"
    by (simp add: bindW_def m)
qed

lemmas adds_then = adds_bind [where c = 0 and d = 0, simplified]
lemmas adds_before = adds_bind [where a = 0 and b = 0, simplified]

lemma adds_mono: "adds_at_most n k m \<Longrightarrow> n \<le> n' \<Longrightarrow> k \<le> k' \<Longrightarrow> adds_at_most n' k' m"
  unfolding adds_at_most_def by (meson add_left_mono order_trans)

lemma adds_now: "adds_at_most n k nowW" and adds_error_text: "adds_at_most n k (error_textW e)"
  by (simp_all add: adds_at_most_def nowW_def error_textW_def)

lemma adds_stmt:
  assumes "\<And>s d. length (events (snd (q s d))) \<le> length (events d) + n
    \<and> length (alert_rules (snd (q s d))) \<le> length (alert_rules d) + k"
  shows "adds_at_most n k (stmt q)"
  unfolding adds_at_most_def
proof (intro allI impI)
  fix w assume a: "alone w"
  then have "alone (snd (stmt q w))" by (simp add: alone_def stmt_frame)
  moreover have "sl_env (w_slot w) = id" using a by (simp add: alone_def w_slot_def)
  then have "w_db (snd (stmt q w)) = w_db w \<or> w_db (snd (stmt q w)) = snd (q (w_sess w) (w_db w))"
    using transaction_db_cases [of "\<lambda>_. Inl ConnError" q w] by (simp add: stmt_def)
  ultimately show "alone (snd (stmt q w)) \<and> length (events (w_db (snd (stmt q w)))) \<le> length (events (w_db w)) + n
     \<and> length (alert_rules (w_db (snd (stmt q w)))) \<le> length (alert_rules (w_db w)) + k"
    using assms [of "w_sess w" "w_db w"] by auto
qed

lemma adds_query: "adds_at_most 0 0 (stmt (query f))"
  by (rule adds_stmt) simp

lemma adds_sum: "(\<And>e. adds_at_most n k (f e)) \<Longrightarrow> (\<And>x. adds_at_most n k (g x)) \<Longrightarrow> adds_at_most n k (case_sum f g r)"
  by (cases r) auto

lemma adds_if: "adds_at_most n k m \<Longrightarrow> adds_at_most n k m' \<Longrightarrow> adds_at_most n k (if b then m else m')"
  by simp

lemma adds_option: "adds_at_most n k f \<Longrightarrow> (\<And>x. adds_at_most n k (g x)) \<Longrightarrow> adds_at_most n k (case_option f g r)"
  by (cases r) auto

lemma adds_create_pending: "adds_at_most 1 0 (create_pending inp)"
proof -
  have "adds_at_most 1 0 (stmt (sql_insert_event u key t p))" for u key t p
    by (rule adds_stmt)
       (auto simp: sql_insert_event_def update_snd bindE_def text_arg_def split: sum.splits option.splits)
  moreover have "adds_at_most 0 0 (get_by_idempotency u key)" for u key
    unfolding get_by_idempotency_def sql_event_by_key_def
    by (intro adds_then adds_query adds_return)
  ultimately show ?thesis
    unfolding create_pending_def
    by (intro adds_then adds_sum adds_if adds_return)
qed

lemma adds_prod: "(\<And>x y. adds_at_most n k (f x y)) \<Longrightarrow> adds_at_most n k (case_prod f p)"
  by (cases p) auto

lemma adds_inject: "adds_at_most n 0 (inject uid now i n)"
proof (induction n arbitrary: i)
  case (Suc n)
  have "adds_at_most (1 + n) (0 + 0) (inject uid now i (Suc n))"
    unfolding inject.simps Let_def
    by (intro adds_bind [OF adds_create_pending] adds_sum adds_prod adds_return adds_then Suc.IH)
  then show ?case by simp
qed (simp add: adds_return)

lemma adds_ensure_demo_rule: "adds_at_most 0 1 (ensure_demo_rule uid)"
proof -
  have "adds_at_most 0 1 (stmt (sql_insert_rule u n t th en))" for u n t th en
    by (rule adds_stmt)
       (auto simp: sql_insert_rule_def update_snd bindE_def text_arg_def split: sum.splits)
  then have c: "adds_at_most 0 1 (create_rule uid inp)" for inp
    unfolding create_rule_def by (intro adds_then adds_return)
  have l: "adds_at_most 0 0 (list_rules_by_user uid)"
    unfolding list_rules_by_user_def sql_list_rules_def
    by (intro adds_then adds_query adds_return)
  show ?thesis
    unfolding ensure_demo_rule_def
    by (intro adds_before [OF l] adds_sum adds_option adds_return adds_then [OF c])
qed

lemma adds_answer: "n \<le> 5 \<Longrightarrow> adds_at_most 5 0 (inject_and_answer uid n r)"
proof -
  assume n: "n \<le> 5"
  have "adds_at_most n 0 (inject_and_answer uid n r)"
    unfolding inject_and_answer_def
    by (intro adds_before [OF adds_now] adds_then [OF adds_inject] adds_sum adds_return adds_then [OF adds_error_text])
  from adds_mono [OF this n] show ?thesis by simp
qed

lemma adds_simulate: "adds_at_most 5 1 (simulate ctx rq)"
proof -
  have a: "adds_at_most 5 0 (inject_and_answer uid (clamp_count n) r)" for uid n r
    by (rule adds_answer) (use clamp_count_bounds in blast)
  then have "adds_at_most 5 1 (inject_and_answer uid (clamp_count n) r)" for uid n r
    by (rule adds_mono) simp_all
  moreover have "adds_at_most (0 + 5) (1 + 0) (bindW (ensure_demo_rule uid) (\<lambda>r.
      case r of
        Inl e \<Rightarrow> bindW (error_textW e) (\<lambda>msg. returnW (write_error 500 ''rule_error'' msg))
      | Inr rule \<Rightarrow> inject_and_answer uid (clamp_count n) (Some rule)))" for uid n
    by (intro adds_bind [OF adds_ensure_demo_rule] adds_sum a adds_then [OF adds_error_text] adds_return)
  ultimately show ?thesis
    unfolding simulate_def by (intro adds_option adds_if adds_return) simp_all
qed

text \<open>The answer lists as many events as were asked for, under different keys.\<close>

lemma create_pending_key:
  assumes "create_pending inp w = (Inr (ev, b), w')" shows "ev_idempotency_key ev = ci_idempotency_key inp"
proof (cases b)
  case True
  with assms have "create_pending inp w = (Inr (ev, True), w')" by simp
  then show ?thesis by (rule create_pending_created) (simp add: same_key_def)
next
  case False
  with assms have "create_pending inp w = (Inr (ev, False), w')" by simp
  then show ?thesis by (rule create_pending_replayed) (simp add: same_key_def)
qed

lemma inject_Inr:
  assumes "inject uid now i n w = (Inr es, w')"
  shows "map ev_idempotency_key es = map (demo_key now) [i..<i + n]"
  using assms
proof (induction n arbitrary: i es w w')
  case (Suc n)
  let ?spec = "demo_specs ! (i mod length demo_specs)"
  let ?inp = "\<lparr>ci_user_id = uid, ci_idempotency_key = demo_key now i,
               ci_type = ds_event_type ?spec, ci_payload = Some (demo_payload i ?spec)\<rparr>"
  obtain r w1 where c: "create_pending ?inp w = (r, w1)" by fastforce
  with Suc.prems obtain ev b where r: "r = Inr (ev, b)"
    by (cases r) (auto simp: Let_def bindW_def)
  obtain r2 w2 where i2: "inject uid now (Suc i) n w1 = (r2, w2)" by fastforce
  with Suc.prems c r obtain es2 where es: "r2 = Inr es2" "es = ev # es2"
    by (cases r2) (auto simp: Let_def bindW_def)
  have "ev_idempotency_key ev = demo_key now i"
    using create_pending_key [of ?inp w ev b w1] c r by simp
  moreover have "map ev_idempotency_key es2 = map (demo_key now) [Suc i..<Suc i + n]"
    using Suc.IH i2 es(1) by blast
  ultimately show ?case by (simp add: es(2) upt_conv_Cons del: upt_Suc)
qed simp

lemma demo_key_inj: "inj (demo_key now)"
  by (auto simp: inj_on_def demo_key_def dest: show_nat_inj)

text \<open>C34: whatever body it gets and whichever messages are lost, one call of the demo endpoint adds at
  most five events and one rule; when it answers 201 it shows between one and five events, under
  different keys.\<close>

theorem simulate_bounded:
  assumes "simulate (Some c) rq w = (rs, w')" "alone w"
  shows "length (events (w_db w')) \<le> length (events (w_db w)) + 5
    \<and> length (alert_rules (w_db w')) \<le> length (alert_rules (w_db w)) + 1
    \<and> (rs_status rs \<noteq> 201 \<or> (\<exists>s. rs_body rs = SimulateBody s \<and> 1 \<le> length (sr_events s) \<and> length (sr_events s) \<le> 5
         \<and> distinct (map ev_idempotency_key (sr_events s))))"
proof -
  have a: "rs_status (fst (inject_and_answer uid (clamp_count n) r w1)) \<noteq> 201 \<or>
      (\<exists>s. rs_body (fst (inject_and_answer uid (clamp_count n) r w1)) = SimulateBody s
        \<and> 1 \<le> length (sr_events s) \<and> length (sr_events s) \<le> 5 \<and> distinct (map ev_idempotency_key (sr_events s)))"
    for uid n r w1
  proof -
    obtain res w2 where i: "inject uid (w_now w1 * 1000) 0 (clamp_count n) w1 = (res, w2)" by fastforce
    show ?thesis
    proof (cases res)
      case (Inl e)
      with i show ?thesis by (simp add: inject_and_answer_def bindW_def nowW_def error_textW_def)
    next
      case (Inr es)
      from inject_Inr [OF i [unfolded Inr]]
      have "map ev_idempotency_key es = map (demo_key (w_now w1 * 1000)) [0..<clamp_count n]" by simp
      moreover from this have "length es = clamp_count n" by (metis length_map length_upt diff_zero)
      moreover have "distinct (map (demo_key (w_now w1 * 1000)) [0..<clamp_count n])"
        by (simp add: distinct_map inj_on_subset [OF demo_key_inj])
      ultimately show ?thesis
        using i Inr clamp_count_bounds [of n]
        by (simp add: inject_and_answer_def bindW_def nowW_def)
    qed
  qed
  have "rs_status rs \<noteq> 201 \<or> (\<exists>s. rs_body rs = SimulateBody s \<and> 1 \<le> length (sr_events s) \<and> length (sr_events s) \<le> 5
         \<and> distinct (map ev_idempotency_key (sr_events s)))"
  proof (cases "simulate_body rq")
    case None
    with assms(1) show ?thesis by (auto simp: simulate_def)
  next
    case (Some req)
    obtain r w1 where e: "ensure_demo_rule (uc_id c) w = (r, w1)" by fastforce
    show ?thesis
      using assms(1) Some e a [of "uc_id c" "sq_count req" None w]
        a [of "uc_id c" "sq_count req" "Some (projr r)" w1]
      by (cases r) (auto simp: simulate_def bindW_def error_textW_def split: if_splits)
  qed
  then show ?thesis
    using adds_simulate [of "Some c" rq] assms by (auto simp: adds_at_most_def dest!: spec [of _ w])
qed

theorem simulate_bounded_witness:
  "length (events (w_db (snd (simulate (Some sample_ctx) patch_rq (sample_world 1 sample_db))))) \<le> 2 + 5"
proof -
  obtain rs w' where s: "simulate (Some sample_ctx) patch_rq (sample_world 1 sample_db) = (rs, w')" by fastforce
  have "alone (sample_world 1 sample_db)" by (simp add: alone_def)
  from simulate_bounded [OF s this] s show ?thesis by (simp add: sample_defs)
qed

end
