(* ===== verification/Ops_Properties.thy ===== *)
theory Ops_Properties
  imports Server_Samples
begin

text \<open>What configuration and migrations guarantee.\<close>

section \<open>Configuration\<close>

text \<open>The configuration loads exactly when the database URL and both secrets are set, so a
  running server never checks signatures or tokens against an empty secret.\<close>

theorem load_requires_secrets:
  "(\<exists>cfg. load env = Inr cfg \<and> cf_jwt_secret cfg = env ''JWT_SECRET'' \<and> cf_webhook_secret cfg = env ''WEBHOOK_SECRET'')
     \<longleftrightarrow> env ''DATABASE_URL'' \<noteq> [] \<and> env ''JWT_SECRET'' \<noteq> [] \<and> env ''WEBHOOK_SECRET'' \<noteq> []"
  by (auto simp: load_def Let_def)

text \<open>A delay of \<open>n\<close> milliseconds is \<open>n * 10 ^ 6\<close> nanoseconds as long as that fits 64 bits; the
  code does not check that it does, and the first delay that does not fit turns negative.\<close>

theorem delay_in_range:
  assumes "env ''DEMO_PROCESS_DELAY_MS'' = show_nat n" "n \<le> 9223372036854"
  shows "sint (parse_duration_ms env ''DEMO_PROCESS_DELAY_MS'' fallback) = int n * 1000000
    \<and> sint (parse_duration_ms (\<lambda>_. show_nat 9223372036855) ''DEMO_PROCESS_DELAY_MS'' fallback) < 0"
proof -
  have p: "parse_duration_ms e k f = milliseconds (int m)" if "e k = show_nat m" "m < 2 ^ 63" for e k f m
    using that atoi_show_nat [OF that(2)] show_nat_nonempty [of m] by (simp add: parse_duration_ms_def)
  have "sint (milliseconds 9223372036855) < 0" by (simp add: milliseconds_def) 
  then show ?thesis
    using assms sint_milliseconds [of "int n"] p [of env "''DEMO_PROCESS_DELAY_MS''" n fallback]
      p [of "\<lambda>_. show_nat 9223372036855" "''DEMO_PROCESS_DELAY_MS''" 9223372036855 fallback]
    by simp
qed

theorem delay_in_range_witness:
  "sint (parse_duration_ms (\<lambda>_. show_nat 250) ''DEMO_PROCESS_DELAY_MS'' 0) = 250000000"
  using delay_in_range [of "\<lambda>_. show_nat 250" 250 0] by simp

section \<open>Migrations\<close>

text \<open>C20: whatever connection breaks at whatever point and whatever other instances do, the rows of
  \<open>schema_migrations\<close> name without repetition exactly the migrations that built the schema, in the
  order in which they were executed; and when \<open>Migrate\<close> reports success every migration is there.\<close>

theorem migrate_crash_consistent:
  assumes "others_migrate exec fs init w" "migrate exec fs w = (r, w')"
    and "distinct (applied_rows (mw_state w))"
    and "replay exec fs (applied_rows (mw_state w)) init = Some (mg_schema (mw_state w))"
  shows "distinct (applied_rows (mw_state w'))
    \<and> replay exec fs (applied_rows (mw_state w')) init = Some (mg_schema (mw_state w'))
    \<and> set (applied_rows (mw_state w)) \<subseteq> set (applied_rows (mw_state w'))
    \<and> (r = Inr () \<longrightarrow> set (sql_files fs) \<subseteq> set (applied_rows (mw_state w')))"
  using migrate_migrates [OF assms(1,2)] assms(3,4) by (simp add: migrates_def recorded_def)

text \<open>A server that appends the script to a log, two migrations, and a connection that breaks in the
  second transaction.\<close>

definition log_exec :: "string \<Rightarrow> string list \<Rightarrow> error + string list" where
  "log_exec sql s = Inr (s @ [sql])"

definition two_files :: files where
  "two_files = [(''2.sql'', Some ''B''), (''1.sql'', Some ''A''), (''x.txt'', None)]"

definition mig_world :: "(nat \<Rightarrow> fate) \<Rightarrow> string list mworld" where
  "mig_world fates = \<lparr>mw_state = \<lparr>mg_schema = [], mg_applied = None\<rparr>, mw_fate = fates, mw_env = (\<lambda>k. id), mw_pc = 0\<rparr>"

lemma two_sql_files:
  "sql_files two_files = [''1.sql'', ''2.sql'']"
  "read_file two_files ''1.sql'' = Some ''A''" "read_file two_files ''2.sql'' = Some ''B''"
  "up_section ''A'' = ''A''" "up_section ''B'' = ''B''"
  by code_simp+

theorem migrate_crash_consistent_witness:
  "\<exists>r w'. migrate log_exec two_files (mig_world ((\<lambda>_. Fine)(4 := Record_lost))) = (r, w')
    \<and> replay log_exec two_files (applied_rows (mw_state w')) [] = Some (mg_schema (mw_state w'))
    \<and> applied_rows (mw_state w') = [''1.sql''] \<and> r \<noteq> Inr ()"
proof -
  let ?w = "mig_world ((\<lambda>_. Fine)(4 := Record_lost))"
  obtain r w' where m: "migrate log_exec two_files ?w = (r, w')" by fastforce
  have "others_migrate log_exec two_files [] ?w" by (simp add: others_migrate_def mig_world_def)
  from migrate_crash_consistent [OF this m]
  have c: "replay log_exec two_files (applied_rows (mw_state w')) [] = Some (mg_schema (mw_state w'))"
    by (simp add: mig_world_def applied_rows_def)
  have "applied_rows (mw_state w') = [''1.sql''] \<and> r \<noteq> Inr ()"
    using m by (auto simp: migrate_def two_sql_files pool_op_def mig_world_def mw_enter_def sql_create_table_def
        sql_is_applied_def applied_rows_def apply_migration_def log_exec_def sql_record_def)
  with m c show ?thesis by blast
qed

text \<open>C38: on an empty database, undisturbed, \<open>Migrate\<close> succeeds when every script does, executes the
  up sections of the files in the order of their names, and records them in that order; run again it
  succeeds and changes nothing.\<close>

theorem migrate_fresh_then_idle:
  assumes "undisturbed w" "mg_applied (mw_state w) = None" "distinct (map fst fs)"
    and "replay exec fs (sql_files fs) (mg_schema (mw_state w)) = Some s"
  shows "\<exists>w1 w2. migrate exec fs w = (Inr (), w1)
    \<and> mw_state w1 = \<lparr>mg_schema = s, mg_applied = Some (sql_files fs)\<rparr>
    \<and> sorted (sql_files fs) \<and> migrate exec fs w1 = (Inr (), w2) \<and> mw_state w2 = mw_state w1"
proof -
  have d: "distinct (sql_files fs)" using assms(3) by (simp add: sql_files_def)
  let ?w0 = "w\<lparr>mw_state := (mw_state w)\<lparr>mg_applied := Some []\<rparr>, mw_pc := Suc (mw_pc w)\<rparr>"
  have c: "pool_op sql_create_table w = (Inr (), ?w0)"
    using assms(1,2) by (simp add: undisturbed_pool_op sql_create_table_def applied_rows_def)
  obtain k where l: "migrate_loop exec fs (sql_files fs) ?w0 =
      (Inr (), ?w0\<lparr>mw_state := \<lparr>mg_schema = s, mg_applied = Some ([] @ sql_files fs)\<rparr>, mw_pc := k\<rparr>)"
    using migrate_loop_fresh [of ?w0 "[]" "sql_files fs" exec fs s] assms(1,4) d by auto
  define w1 where "w1 = ?w0\<lparr>mw_state := \<lparr>mg_schema = s, mg_applied = Some (sql_files fs)\<rparr>, mw_pc := k\<rparr>"
  have m1: "migrate exec fs w = (Inr (), w1)" using c l by (simp add: migrate_def w1_def)
  have u: "undisturbed w1" using assms(1) by (simp add: w1_def undisturbed_def)
  let ?w2 = "w1\<lparr>mw_pc := Suc (mw_pc w1)\<rparr>"
  have c2: "pool_op sql_create_table w1 = (Inr (), ?w2)"
    using u by (simp add: undisturbed_pool_op sql_create_table_def applied_rows_def w1_def)
  obtain k2 where "migrate_loop exec fs (sql_files fs) ?w2 = (Inr (), ?w2\<lparr>mw_pc := k2\<rparr>)"
    using migrate_loop_idle [of ?w2 "sql_files fs" "sql_files fs" exec fs] u by (auto simp: w1_def)
  then have "migrate exec fs w1 = (Inr (), ?w2\<lparr>mw_pc := k2\<rparr>)" using c2 by (simp add: migrate_def)
  with m1 show ?thesis
    by (intro exI [of _ w1] exI [of _ "?w2\<lparr>mw_pc := k2\<rparr>"]) (simp add: w1_def sql_files_def)
qed

theorem migrate_fresh_then_idle_witness:
  "\<exists>w1 w2. migrate log_exec two_files (mig_world (\<lambda>_. Fine)) = (Inr (), w1)
    \<and> mw_state w1 = \<lparr>mg_schema = [''A'', ''B''], mg_applied = Some [''1.sql'', ''2.sql'']\<rparr>
    \<and> migrate log_exec two_files w1 = (Inr (), w2) \<and> mw_state w2 = mw_state w1"
proof -
  have "replay log_exec two_files (sql_files two_files) (mg_schema (mw_state (mig_world (\<lambda>_. Fine)))) = Some [''A'', ''B'']"
    by (simp add: two_sql_files log_exec_def mig_world_def)
  moreover have "undisturbed (mig_world (\<lambda>_. Fine))" "mg_applied (mw_state (mig_world (\<lambda>_. Fine))) = None"
    by (simp_all add: undisturbed_def mig_world_def)
  moreover have "distinct (map fst two_files)" by code_simp
  ultimately show ?thesis
    using migrate_fresh_then_idle [of "mig_world (\<lambda>_. Fine)" two_files log_exec] by (auto simp: two_sql_files)
qed

text \<open>The up section of a migration file with an up marker never contains the marker of the
  down section, so \<open>Migrate\<close> never runs a down script.\<close>

theorem up_section_without_down:
  assumes "sublist ''-- +goose Up'' sql"
  shows "\<not> sublist ''-- +goose Down'' (up_section sql)"
proof -
  obtain i where i: "str_index sql up_marker = Some i"
    using assms str_index_None_iff [of sql up_marker] by (auto simp: up_marker_def)
  let ?rest = "drop (i + length up_marker) sql"
  have "\<not> sublist down_marker (up_section sql)"
  proof (cases "str_index ?rest down_marker")
    case None
    then have "\<not> sublist down_marker ?rest" by (simp add: str_index_None_iff)
    then have "\<not> sublist down_marker (trim_space ?rest)"
      using trim_space_sublist [of ?rest] sublist_order.order_trans by blast
    with i None show ?thesis by (simp add: up_section_def Let_def)
  next
    case (Some n)
    then have "\<not> sublist down_marker (take n ?rest)" by (intro str_index_first) (simp_all add: down_marker_def)
    then have "\<not> sublist down_marker (trim_space (take n ?rest))"
      using trim_space_sublist [of "take n ?rest"] sublist_order.order_trans by blast
    with i Some show ?thesis by (simp add: up_section_def Let_def)
  qed
  then show ?thesis by (simp add: down_marker_def)
qed

theorem up_section_without_down_witness:
  "\<not> sublist ''-- +goose Down'' (up_section ''-- +goose Up A -- +goose Down B'')"
proof (rule up_section_without_down)
  have "''-- +goose Up A -- +goose Down B'' = [] @ ''-- +goose Up'' @ '' A -- +goose Down B''" by simp
  then show "sublist ''-- +goose Up'' ''-- +goose Up A -- +goose Down B''" unfolding sublist_def by blast
qed

end
