(* ===== verification/Ai_Properties.thy ===== *)
theory Ai_Properties
  imports Server_Samples
begin

text \<open>What the summary endpoint guarantees: the prompt has one line per event whatever the events
  hold, an answer is a summary that passes the schema and is stored for the caller, and with the
  mock provider the caller's own events are always summarised, in the order asked for.\<close>

section \<open>Prompt\<close>

lemma join_printable:
  assumes "list_all printable sep" "list_all (list_all printable) ss" shows "list_all printable (join ss sep)"
  using assms by (induction ss sep rule: join.induct) auto

lemma fact_line_printable: "list_all printable (fact_line f)"
  unfolding fact_line_def
  by (auto simp: printable_def byte_of_def json_quote_printable float_text_printable
      intro!: join_printable split: option.split)

lemma printable_no_newline: "list_all printable s \<Longrightarrow> count_list s (CHR 0x0A) = 0"
  by (auto simp: count_list_0_iff list_all_iff printable_def byte_of_def)

lemma prompt_lines_count: "count_list (prompt_lines i fs) (CHR 0x0A) = length fs"
  by (induction fs arbitrary: i)
     (simp_all add: printable_no_newline fact_line_printable show_nat_printable newline_def)

text \<open>C39: however type, status and rule names were chosen, also with quotes, line breaks and invalid
  UTF-8 in them, the prompt is its fixed head followed by one line per event: nothing that a user
  wrote can add a line to it.\<close>

theorem prompt_injection_free:
  "\<exists>rest. build_prompt facts = prompt_head @ rest
    \<and> count_list rest (CHR 0x0A) = length facts
    \<and> list_all (\<lambda>c. printable c \<or> c = CHR 0x0A) rest"
proof -
  have "list_all (\<lambda>c. printable c \<or> c = CHR 0x0A) s" if "list_all printable s" for s
    using that by (simp add: list_all_iff)
  note lines = this [OF fact_line_printable] this [OF show_nat_printable]
  have "list_all (\<lambda>c. printable c \<or> c = CHR 0x0A) (prompt_lines i fs)" for i fs
    by (induction fs arbitrary: i) (simp_all add: lines newline_def, simp_all add: printable_def byte_of_def)
  then show ?thesis by (simp add: build_prompt_def prompt_lines_count)
qed

section \<open>Schema\<close>

lemma summarize_events_200:
  assumes "summarize_events provider uid ids evs names w = (resp, w')" "rs_status resp = 200"
  obtains s hash w1 where "rs_body resp = SummaryBody s" "validate_summary s = None"
    "length (s_event_ids s) = length ids"
    "save_summary uid hash (s_event_ids s) s w1 = (Inr (), w')"
proof -
  let ?ordered = "map event_id_of (map (map_of evs) ids)"
  let ?prompt = "build_prompt (map (event_fact_of names) (map (map_of evs) ids))"
  obtain r w1 where p: "provider ?prompt ?ordered w = (r, w1)" by fastforce
  with assms obtain s where s: "r = Inr s"
    by (cases r) (auto simp: summarize_events_def Let_def bindW_def simp del: map_map)
  have ok: "validate_summary s = None" "same_ids (s_event_ids s) ?ordered"
    using assms p s by (auto simp: summarize_events_def Let_def bindW_def simp del: map_map split: if_splits)
  let ?s = "s\<lparr>s_event_ids := ?ordered\<rparr>"
  obtain r2 w2 where save: "save_summary uid (request_hash ?ordered ?prompt) ?ordered ?s w1 = (r2, w2)"
    by fastforce
  have r2: "(case r2 of Inl e \<Rightarrow> write_error 500 ''internal_error'' ''could not persist summary''
      | Inr _ \<Rightarrow> write_json 200 (SummaryBody ?s)) = resp" "w2 = w'"
    using assms(1) p s ok save by (auto simp: summarize_events_def Let_def bindW_def simp del: map_map)
  with assms(2) have "r2 = Inr ()" "rs_body resp = SummaryBody ?s" by (cases r2; auto)+
  moreover have "validate_summary ?s = None"
    using ok by (auto simp: validate_summary_def same_ids_def split: if_splits)
  ultimately show thesis
    using that [of ?s "request_hash ?ordered ?prompt" w1] save r2(2) by (simp del: map_map)
qed

lemma save_summary_stores:
  assumes "save_summary uid hash ids s w = (Inr (), w')"
  shows "\<exists>row\<in>set (ai_summaries (w_db w')). pg_uuid_in (w_pg w') uid = Some (sm_user_id row)
    \<and> pg_jsonb_in (w_pg w') (summary_json s) = Some (sm_response row) \<and> sm_request_hash row = hash"
proof -
  let ?q = "sql_insert_summary uid hash ids (summary_json s)"
  have st: "stmt ?q w = (Inr (), w')"
    using assms by (auto simp: save_summary_def bindW_def split: prod.splits)
  then have "w_pg w' = w_pg w" using stmt_frame(2) [of ?q w] by simp
  with stmt_InrD [OF st] show ?thesis
    by (auto simp: sql_insert_summary_def update_Inr_iff bindE_Inr_iff uuid_arg_def text_arg_def jsonb_arg_def
        split: option.splits if_splits dest!: sym [of _ "w_db w'"])
qed

text \<open>C22: whichever provider answers and whatever happens meanwhile, a 200 answer of the endpoint is a
  summary that passes the schema check, for an authenticated caller and as many events as the
  request names without repetition, at most twenty, and the row with this summary is in the
  caller's \<open>ai_summaries\<close>.\<close>

theorem summarize_sound:
  assumes "summarize provider ctx rq w = (resp, w')" "rs_status resp = 200"
  shows "\<exists>user raw s. ctx = Some user \<and> decode_body decode_summarize_request rq = Some raw
    \<and> rs_body resp = SummaryBody s \<and> validate_summary s = None
    \<and> length (s_event_ids s) = card (trim_space ` set raw - {[]}) \<and> length (s_event_ids s) \<in> {1..20}
    \<and> (\<exists>row\<in>set (ai_summaries (w_db w')). pg_uuid_in (w_pg w') (uc_id user) = Some (sm_user_id row)
         \<and> pg_jsonb_in (w_pg w') (summary_json s) = Some (sm_response row))"
proof -
  from assms obtain user raw where u: "ctx = Some user" "decode_body decode_summarize_request rq = Some raw"
    by (auto simp: summarize_def split: option.splits)
  let ?ids = "normalize_ids raw"
  have n: "length ?ids \<in> {1..20}"
    using assms u by (cases ?ids) (auto simp: summarize_def Let_def max_events_def split: if_splits)
  have c: "length ?ids = card (trim_space ` set raw - {[]})"
    using normalize_ids_spec [of raw] distinct_card [of ?ids] by simp
  obtain r w1 where g: "get_for_user_ids (uc_id user) ?ids w = (r, w1)" by fastforce
  with assms u n obtain evs where r: "r = Inr evs" "length evs = length ?ids"
    by (cases r) (auto simp: summarize_def Let_def max_events_def bindW_def split: if_splits)
  obtain r2 w2 where n2: "names_by_ids (matched_rule_ids (map snd evs)) w1 = (r2, w2)" by fastforce
  with assms u n g r obtain names where "r2 = Inr names"
    by (cases r2) (auto simp: summarize_def Let_def max_events_def bindW_def split: if_splits)
  with assms u n g r n2 have "summarize_events provider (uc_id user) ?ids evs names w2 = (resp, w')"
    by (auto simp: summarize_def Let_def max_events_def bindW_def split: if_splits)
  from summarize_events_200 [OF this assms(2)] obtain s hash w3 where s: "rs_body resp = SummaryBody s"
    "validate_summary s = None" "length (s_event_ids s) = length ?ids"
    "save_summary (uc_id user) hash (s_event_ids s) s w3 = (Inr (), w')" .
  from save_summary_stores [OF s(4)] s(1-3) u n c show ?thesis by auto
qed

section \<open>With the mock provider\<close>

lemma hex_encode_digits: "set (hex_encode s) \<subseteq> set ''0123456789abcdef''"
proof (induction s)
  case (Cons c cs)
  have "hex_digit n \<in> set ''0123456789abcdef''" for n
    unfolding hex_digit_def by (rule nth_mem) simp
  with Cons show ?case by (auto simp only: hex_encode.simps list.set(2) insert_subset)
qed simp

lemma uuid_args_known:
  "\<forall>t\<in>set ts. pg_uuid_in (se_pg s) t = Some t \<Longrightarrow> uuid_args s ts = Inr ts"
  by (induction ts) (simp_all add: uuid_arg_def)

text \<open>The Go map filled row by row holds each row under its key.\<close>

lemma fold_update_keys:
  assumes "distinct (map fst m)"
  shows "distinct (map fst (fold (\<lambda>e m. AList.update (f e) e m) es m))
    \<and> fst ` set (fold (\<lambda>e m. AList.update (f e) e m) es m) = fst ` set m \<union> f ` set es"
  using assms by (induction es arbitrary: m) (auto simp: distinct_update dom_update)

lemma map_of_fold_update:
  "map_of (fold (\<lambda>e m. AList.update (f e) e m) es m) i =
     (case List.find (\<lambda>e. f e = i) (rev es) of None \<Rightarrow> map_of m i | Some e \<Rightarrow> Some e)"
  by (induction es rule: rev_induct) (auto simp: update_conv')

lemma fold_update_values:
  assumes "(i, e) \<in> set (fold (\<lambda>e m. AList.update (f e) e m) es [])" shows "e \<in> set es"
proof -
  let ?m = "fold (\<lambda>e m. AList.update (f e) e m) es []"
  have "distinct (map fst ?m)" using fold_update_keys [of "[]" f es] by simp
  then have "map_of ?m i = Some e" using assms by simp
  then show ?thesis by (auto simp: map_of_fold_update dest!: find_Some_mem split: option.splits)
qed

lemma fold_update_ids:
  assumes "ev_id ` set es = set ids" "distinct ids" "m = fold (\<lambda>e m. AList.update (ev_id e) e m) es []"
  shows "length m = length ids" "map event_id_of (map (map_of m) ids) = ids"
proof -
  have "distinct (map fst m)" "set (map fst m) = set ids"
    using fold_update_keys [of "[]" ev_id es] assms(1,3) by simp_all
  then show "length m = length ids" using assms(2) distinct_card [of "map fst m"] distinct_card [of ids] by simp
  have "event_id_of (map_of m i) = i" if i: "i \<in> set ids" for i
  proof -
    from i assms(1) have "i \<in> ev_id ` set es" by simp
    then have "List.find (\<lambda>e. ev_id e = i) (rev es) \<noteq> None" by (auto simp: find_None_iff)
    then obtain e where e: "List.find (\<lambda>e. ev_id e = i) (rev es) = Some e" by blast
    then have "map_of m i = Some e" by (simp add: assms(3) map_of_fold_update)
    with find_Some_mem [OF e] show ?thesis by (simp add: event_id_of_def)
  qed
  then show "map event_id_of (map (map_of m) ids) = ids" by (simp add: map_idI)
qed

lemma get_for_user_ids_own:
  assumes "quiet w" "readable (w_pg w) (w_db w)" "pg_uuid_in (w_pg w) uid = Some u" "ids \<noteq> []" "distinct ids"
    and own: "set ids \<subseteq> ev_id ` {e \<in> set (events (w_db w)). ev_user_id e = u}"
  obtains evs where "get_for_user_ids uid ids w = (Inr evs, elapse w)" "length evs = length ids"
    "map event_id_of (map (map_of evs) ids) = ids"
    "\<forall>x\<in>set (matched_rule_ids (map snd evs)). \<exists>r\<in>set (events (w_db w)). ev_matched_rule_id r = Some x"
proof -
  define rows where "rows = map scan_event (filter (\<lambda>r. ev_user_id r = u \<and> ev_id r \<in> set ids) (events (w_db w)))"
  define evs where "evs = fold (\<lambda>e m. AList.update (ev_id e) e m) rows []"
  have "\<forall>i\<in>set ids. pg_uuid_in (w_pg w) i = Some i" using own assms(2) by (auto simp: readable_def)
  then have "sql_events_by_ids uid ids (w_sess w) (w_db w) = (Inr rows, w_db w)"
    using assms(3) by (simp add: sql_events_by_ids_def query_def uuid_args_known uuid_arg_def rows_def)
  then have g: "get_for_user_ids uid ids w = (Inr evs, elapse w)"
    using assms(1,4) by (simp add: get_for_user_ids_def bindW_def stmt_quiet evs_def) (simp add: elapse_def quiet_slot)
  have "ev_id ` set rows \<subseteq> set ids" by (auto simp: rows_def)
  moreover have "set ids \<subseteq> ev_id ` set rows"
  proof
    fix i assume i: "i \<in> set ids"
    with own obtain e where "e \<in> set (events (w_db w))" "ev_user_id e = u" "ev_id e = i" by blast
    with i show "i \<in> ev_id ` set rows" by (intro image_eqI [of _ _ "scan_event e"]) (simp_all add: rows_def)
  qed
  ultimately have "ev_id ` set rows = set ids" by (rule equalityI)
  note ids = fold_update_ids [OF this assms(5) evs_def]
  have "\<exists>r\<in>set (events (w_db w)). ev_matched_rule_id r = Some x"
    if "x \<in> set (matched_rule_ids (map snd evs))" for x
  proof -
    from that obtain i e where "(i, e) \<in> set evs" and x: "ev_matched_rule_id e = Some x"
      by (auto simp: matched_rule_ids_def List.map_filter_def)
    then have "e \<in> set rows" using fold_update_values [of i e ev_id rows] by (simp add: evs_def)
    with x show ?thesis by (auto simp: rows_def)
  qed
  with that [OF g ids] show thesis by blast
qed

lemma names_by_ids_quiet:
  assumes "quiet w" "\<forall>i\<in>set ids. pg_uuid_in (w_pg w) i = Some i"
  obtains names w' where "names_by_ids ids w = (Inr names, w')" "quiet w'" "w_db w' = w_db w"
    "w_pg w' = w_pg w" "w_script w' = w_script w"
proof (cases "ids = []")
  case True
  with assms that show thesis by (simp add: names_by_ids_def)
next
  case False
  with assms that [of _ "elapse w"] show thesis
    by (simp add: names_by_ids_def bindW_def sql_rule_names_def stmt_query_quiet uuid_args_known quiet_slot)
qed

lemma save_summary_quiet:
  assumes "quiet w" "pg_uuid_in (w_pg w) uid = Some u" "user_exists (w_db w) u" "pg_text_ok (w_pg w) hash"
    "\<forall>i\<in>set ids. pg_uuid_in (w_pg w) i = Some i" "pg_jsonb_in (w_pg w) (summary_json s) = Some j"
    "sl_uuid (w_slot w) \<notin> sm_id ` set (ai_summaries (w_db w))"
  obtains row w' where "save_summary uid hash ids s w = (Inr (), w')"
    "w_db w' = (w_db w)\<lparr>ai_summaries := ai_summaries (w_db w) @ [row]\<rparr>"
    "sm_user_id row = u" "sm_event_ids row = ids" "sm_response row = j" "w_pg w' = w_pg w"
proof -
  let ?row = "\<lparr>sm_id = sl_uuid (w_slot w), sm_user_id = u, sm_request_hash = hash, sm_event_ids = ids,
    sm_response = j, sm_created_at = w_now w + sl_elapsed (w_slot w)\<rparr>"
  let ?d = "(w_db w)\<lparr>ai_summaries := ai_summaries (w_db w) @ [?row]\<rparr>"
  have "\<not> (\<exists>x\<in>set (ai_summaries (w_db w)). sm_id x = sl_uuid (w_slot w))" using assms(7) by force
  then have "sql_insert_summary uid hash ids (summary_json s) (w_sess w) (w_db w) = (Inr (), ?d)"
    using assms(2-6)
    by (simp add: sql_insert_summary_def update_def uuid_arg_def text_arg_def jsonb_arg_def uuid_args_known)
  then have "save_summary uid hash ids s w = (Inr (), (elapse w)\<lparr>w_db := ?d\<rparr>)"
    using assms(1) by (simp add: save_summary_def bindW_def stmt_quiet)
  with that [of "(elapse w)\<lparr>w_db := ?d\<rparr>" ?row] show thesis by simp
qed

lemma mock_summary_ids:
  "s_event_ids (mock_summary ids) = ids" "mock_summary ids\<lparr>s_event_ids := ids\<rparr> = mock_summary ids"
  by (simp_all add: mock_summary_def Let_def)

lemma summarize_mock_quiet:
  assumes "quiet w" "db_ok (w_db w)" "readable (w_pg w) (w_db w)"
    and "\<And>h. set h \<subseteq> set ''0123456789abcdef'' \<Longrightarrow> pg_text_ok (w_pg w) h"
    and "\<And>k. sl_uuid (w_script w k) \<notin> sm_id ` set (ai_summaries (w_db w))"
    and "decode_body decode_summarize_request rq = Some raw" "ids = normalize_ids raw" "length ids \<in> {1..20}"
    and "pg_uuid_in (w_pg w) (uc_id user) = Some u"
    and own: "set ids \<subseteq> ev_id ` {e \<in> set (events (w_db w)). ev_user_id e = u}"
    and "pg_jsonb_in (w_pg w) (summary_json (mock_summary ids)) = Some j"
  shows "\<exists>row w'. summarize mock_provider (Some user) rq w = (write_json 200 (SummaryBody (mock_summary ids)), w')
    \<and> w_db w' = (w_db w)\<lparr>ai_summaries := ai_summaries (w_db w) @ [row]\<rparr>
    \<and> sm_user_id row = u \<and> sm_event_ids row = ids \<and> sm_response row = j \<and> w_pg w' = w_pg w"
proof -
  have ne: "ids \<noteq> []" using assms(8) by auto
  have d: "distinct ids" by (simp add: assms(7) normalize_ids_spec)
  from get_for_user_ids_own [OF assms(1,3,9) ne d own] obtain evs where
    g: "get_for_user_ids (uc_id user) ids w = (Inr evs, elapse w)" "length evs = length ids"
       "map event_id_of (map (map_of evs) ids) = ids"
    and m: "\<forall>x\<in>set (matched_rule_ids (map snd evs)). \<exists>r\<in>set (events (w_db w)). ev_matched_rule_id r = Some x" .
  have "pg_uuid_in (w_pg w) x = Some x" if x: "x \<in> set (matched_rule_ids (map snd evs))" for x
  proof -
    from bspec [OF m x] obtain r where "r \<in> set (events (w_db w))" "ev_matched_rule_id r = Some x" by blast
    moreover have "refs_ok (w_db w)" using assms(2) by (simp add: db_ok_def)
    ultimately have "rule_exists (w_db w) x" using refs_ok_matched by blast
    with assms(3) show ?thesis by (auto simp: readable_def rule_exists_def)
  qed
  then have "\<forall>x\<in>set (matched_rule_ids (map snd evs)). pg_uuid_in (w_pg (elapse w)) x = Some x" by simp
  moreover have "quiet (elapse w)" using assms(1) by simp
  ultimately obtain names w2 where n: "names_by_ids (matched_rule_ids (map snd evs)) (elapse w) = (Inr names, w2)"
    and w2: "quiet w2" "w_db w2 = w_db w" "w_pg w2 = w_pg w" "w_script w2 = w_script w"
    using names_by_ids_quiet [of "elapse w"] quiet_elapse_db [OF assms(1)]
    by (metis elapse_simps(3,4))
  have run: "summarize mock_provider (Some user) rq w
      = summarize_events mock_provider (uc_id user) ids evs names w2"
    using g(1,2) n assms(6,7,8) ne
    by (simp add: summarize_def Let_def max_events_def bindW_def)
  from mock.summarize_events_saves [OF ne, of "uc_id user" evs w2 names, unfolded g(3)] obtain hash r w3 where
    sv: "save_summary (uc_id user) (hex_encode hash) ids (mock_summary ids) w2 = (r, w3)"
    and res: "summarize_events mock_provider (uc_id user) ids evs names w2 =
      (case r of Inl e \<Rightarrow> write_error 500 ''internal_error'' ''could not persist summary''
       | Inr _ \<Rightarrow> write_json 200 (SummaryBody (mock_summary ids)), w3)"
    by (auto simp: mock_provider_def mock_summary_ids)
  have known: "\<forall>i\<in>set ids. pg_uuid_in (w_pg w2) i = Some i"
    using own assms(3) by (auto simp: w2 readable_def)
  have "refs_ok (w_db w)" using assms(2) by (simp add: db_ok_def)
  moreover obtain i where "i \<in> set ids" using ne by (cases ids) auto
  ultimately have u: "user_exists (w_db w2) u" using own by (auto simp: w2 refs_ok_def)
  have uid: "pg_uuid_in (w_pg w2) (uc_id user) = Some u" and h: "pg_text_ok (w_pg w2) (hex_encode hash)"
    and js: "pg_jsonb_in (w_pg w2) (summary_json (mock_summary ids)) = Some j"
    and new: "sl_uuid (w_slot w2) \<notin> sm_id ` set (ai_summaries (w_db w2))"
    using assms(4) [OF hex_encode_digits] assms(5,9,11) by (simp_all add: w2 w_slot_def)
  obtain row w4 where "save_summary (uc_id user) (hex_encode hash) ids (mock_summary ids) w2 = (Inr (), w4)"
    "w_db w4 = (w_db w2)\<lparr>ai_summaries := ai_summaries (w_db w2) @ [row]\<rparr>"
    "sm_user_id row = u" "sm_event_ids row = ids" "sm_response row = j" "w_pg w4 = w_pg w2"
    by (rule save_summary_quiet [OF w2(1) uid u h known js new])
  then show ?thesis
    using sv res run
    by (intro exI [of _ row] exI [of _ w4]) (simp add: w2 mock_summary_ids)
qed

text \<open>C23: with the mock provider, an undisturbed request of the owner for at most twenty of its events
  is answered with a valid summary of exactly these events in the order of the request, and adds one
  row with this summary and nothing else to the database.\<close>

theorem mock_summarizes_own_events:
  assumes "quiet w" "db_ok (w_db w)" "readable (w_pg w) (w_db w)"
    and "\<And>h. set h \<subseteq> set ''0123456789abcdef'' \<Longrightarrow> pg_text_ok (w_pg w) h"
    and "\<And>k. sl_uuid (w_script w k) \<notin> sm_id ` set (ai_summaries (w_db w))"
    and "decode_body decode_summarize_request rq = Some raw" "ids = normalize_ids raw" "length ids \<in> {1..20}"
    and "pg_uuid_in (w_pg w) (uc_id user) = Some u"
    and own: "set ids \<subseteq> ev_id ` {e \<in> set (events (w_db w)). ev_user_id e = u}"
    and "pg_jsonb_in (w_pg w) (summary_json (mock_summary ids)) = Some j"
  shows "\<exists>row w'. summarize mock_provider (Some user) rq w = (write_json 200 (SummaryBody (mock_summary ids)), w')
    \<and> validate_summary (mock_summary ids) = None \<and> s_event_ids (mock_summary ids) = ids
    \<and> w_db w' = (w_db w)\<lparr>ai_summaries := ai_summaries (w_db w) @ [row]\<rparr>
    \<and> sm_user_id row = u \<and> sm_event_ids row = ids \<and> sm_response row = j"
proof -
  have "ids \<noteq> []" using assms(8) by auto
  with summarize_mock_quiet [OF assms] show ?thesis by (simp add: mock_valid mock_summary_ids) blast
qed

text \<open>A request for the event \<open>e1\<close> of the sample database.\<close>

lemma sample_summarize_request:
  "decode_body decode_summarize_request (request.truncate (sample_http m p t ''{\"event_ids\":[\" e1\",\"e1\"]}''))
     = Some ['' e1'', ''e1'']"
  "normalize_ids ['' e1'', ''e1''] = [''e1'']"
  by code_simp+

lemma sample_owner: "set [''e1''] \<subseteq> ev_id ` {e \<in> set (events (w_db (sample_world dt sample_db))). ev_user_id e = ''u1''}"
  by (auto simp: sample_db_def sample_user_def sample_event_def new_event_def
      intro!: image_eqI [of _ _ sample_event])

theorem mock_summarizes_own_events_witness:
  "\<exists>row w'. summarize mock_provider (Some \<lparr>uc_id = ''u1'', uc_email = ''a@b''\<rparr>)
        (request.truncate (sample_http ''POST'' [] ''tok'' ''{\"event_ids\":[\" e1\",\"e1\"]}'')) (sample_world 1 sample_db)
      = (write_json 200 (SummaryBody (mock_summary [''e1''])), w')
    \<and> w_db w' = sample_db\<lparr>ai_summaries := [row]\<rparr> \<and> sm_user_id row = ''u1'' \<and> sm_event_ids row = [''e1'']"
proof -
  let ?w = "sample_world 1 sample_db" and ?user = "\<lparr>uc_id = ''u1'', uc_email = ''a@b''\<rparr>"
  have "db_ok (w_db ?w)" "readable (w_pg ?w) (w_db ?w)" by (simp_all add: sample_db_ok sample_readable)
  moreover have "sl_uuid (w_script ?w k) \<notin> sm_id ` set (ai_summaries (w_db ?w))" for k
    by (simp add: sample_db_def empty_db_def)
  ultimately show ?thesis
    using mock_summarizes_own_events [OF sample_world_quiet _ _ _ _ sample_summarize_request(1)
        sample_summarize_request(2) [symmetric] _ _ sample_owner, of 1 ?user
        "summary_json (mock_summary [''e1''])" "''POST''" "[]" "''tok''"]
    by (simp add: sample_db_def empty_db_def) blast
qed

lemma sample_summary:
  "\<exists>w'. summarize mock_provider (Some \<lparr>uc_id = ''u1'', uc_email = ''a@b''\<rparr>)
        (request.truncate (sample_http m p t ''{\"event_ids\":[\" e1\",\"e1\"]}'')) (sample_world 1 sample_db)
      = (write_json 200 (SummaryBody (mock_summary [''e1''])), w') \<and> w_pg w' = sample_pg"
  using summarize_mock_quiet [OF sample_world_quiet _ _ _ _ sample_summarize_request(1)
      sample_summarize_request(2) [symmetric] _ _ sample_owner, of 1 "\<lparr>uc_id = ''u1'', uc_email = ''a@b''\<rparr>" 
      "summary_json (mock_summary [''e1''])" m p t] sample_db_ok sample_readable
  by (simp add: sample_db_def empty_db_def) blast

theorem summarize_sound_witness:
  "\<exists>w'. \<exists>row\<in>set (ai_summaries (w_db w')). sm_user_id row = ''u1''
    \<and> summarize mock_provider (Some \<lparr>uc_id = ''u1'', uc_email = ''a@b''\<rparr>)
        (request.truncate (sample_http ''POST'' [] ''tok'' ''{\"event_ids\":[\" e1\",\"e1\"]}'')) (sample_world 1 sample_db)
      = (write_json 200 (SummaryBody (mock_summary [''e1''])), w')"
proof -
  let ?user = "\<lparr>uc_id = ''u1'', uc_email = ''a@b''\<rparr>"
  let ?rq = "request.truncate (sample_http ''POST'' [] ''tok'' ''{\"event_ids\":[\" e1\",\"e1\"]}'')"
  obtain w' where w': "summarize mock_provider (Some ?user) ?rq (sample_world 1 sample_db)
      = (write_json 200 (SummaryBody (mock_summary [''e1''])), w')" "w_pg w' = sample_pg"
    using sample_summary [of "''POST''" "[]" "''tok''"] by blast
  from summarize_sound [OF w'(1)] obtain row where "row \<in> set (ai_summaries (w_db w'))"
    "pg_uuid_in (w_pg w') ''u1'' = Some (sm_user_id row)" by auto
  then show ?thesis using w' by auto
qed

end
