(* ===== verification/Api_Contract.thy ===== *)
theory Api_Contract
  imports Server
begin

text \<open>
  The contract of the HTTP interface as a type system: for each endpoint the status codes with the
  type of body each one carries, and the refusals by status and error code. Every answer of every
  endpoint is shown to be typed, under every interleaving and loss of messages.
\<close>

section \<open>The contract\<close>

fun success :: "endpoint \<Rightarrow> response \<Rightarrow> bool" where
  "success Health rs = (rs_status rs = 200 \<and> is_HealthBody (rs_body rs) \<or>
                        rs_status rs = 503 \<and> is_UnavailableBody (rs_body rs))"
| "success Register rs = (rs_status rs = 201 \<and> is_TokensBody (rs_body rs))"
| "success Login rs = (rs_status rs = 200 \<and> is_TokensBody (rs_body rs))"
| "success Refresh rs = (rs_status rs = 200 \<and> is_TokensBody (rs_body rs))"
| "success Me rs = (rs_status rs = 200 \<and> is_MeBody (rs_body rs))"
| "success Rules_List rs = (rs_status rs = 200 \<and> is_RulesBody (rs_body rs))"
| "success Rules_Create rs = (rs_status rs = 201 \<and> is_RuleBody (rs_body rs))"
| "success Rules_Get rs = (rs_status rs = 200 \<and> is_RuleBody (rs_body rs))"
| "success Rules_Patch rs = (rs_status rs = 200 \<and> is_RuleBody (rs_body rs))"
| "success Rules_Delete rs = (rs_status rs = 204 \<and> rs_body rs = NoBody)"
| "success Ingest rs = (rs_status rs \<in> {200, 202} \<and> is_EventBody (rs_body rs))"
| "success Events_List rs = (rs_status rs = 200 \<and> is_EventsBody (rs_body rs))"
| "success Events_Get rs = (rs_status rs = 200 \<and> is_EventBody (rs_body rs))"
| "success Simulate rs = (rs_status rs = 201 \<and> is_SimulateBody (rs_body rs))"
| "success Summarize rs = (rs_status rs = 200 \<and> is_SummaryBody (rs_body rs))"

abbreviation unauthorized :: "int \<times> string" where
  "unauthorized \<equiv> (401, ''unauthorized'')"

abbreviation internal :: "int \<times> string" where
  "internal \<equiv> (500, ''internal_error'')"

fun refusals_of :: "endpoint \<Rightarrow> (int \<times> string) list" where
  "refusals_of Health = []"
| "refusals_of Register =
     [(400, ''bad_request''), (400, ''validation_error''), (409, ''email_taken''), internal]"
| "refusals_of Login =
     [(400, ''bad_request''), (400, ''validation_error''), (401, ''invalid_credentials''), internal]"
| "refusals_of Refresh =
     [(400, ''bad_request''), (400, ''validation_error''), (401, ''invalid_refresh''), internal]"
| "refusals_of Me = [unauthorized, internal]"
| "refusals_of Rules_List = [unauthorized, internal]"
| "refusals_of Rules_Create =
     [unauthorized, (400, ''bad_request''), (400, ''validation_error''), internal]"
| "refusals_of Rules_Get = [unauthorized, (404, ''not_found''), internal]"
| "refusals_of Rules_Patch =
     [unauthorized, (400, ''bad_request''), (400, ''validation_error''), (404, ''not_found''), internal]"
| "refusals_of Rules_Delete = [unauthorized, (404, ''not_found''), internal]"
| "refusals_of Ingest =
     [(400, ''bad_request''), (401, ''invalid_signature''), (400, ''validation_error''),
      (404, ''unknown_user_ref''), internal]"
| "refusals_of Events_List = [unauthorized, internal]"
| "refusals_of Events_Get = [unauthorized, (404, ''not_found''), internal]"
| "refusals_of Simulate = [unauthorized, (400, ''invalid_json''), (500, ''rule_error''), (500, ''create_failed'')]"
| "refusals_of Summarize =
     [unauthorized, (400, ''bad_request''), (400, ''validation_error''), (404, ''not_found''), internal,
      (502, ''ai_error''), (502, ''ai_schema_error'')]"

definition refused :: "(int \<times> string) list \<Rightarrow> response \<Rightarrow> bool" where
  "refused table rs \<longleftrightarrow> is_ErrorBody (rs_body rs) \<and> (rs_status rs, eb_code (rs_body rs)) \<in> set table"

definition typed :: "endpoint \<Rightarrow> response \<Rightarrow> bool" where
  "typed ep rs \<longleftrightarrow> success ep rs \<or> refused (refusals_of ep) rs"

lemma typed_error [simp]: "typed ep (write_error st c m) \<longleftrightarrow> success ep (write_error st c m) \<or> (st, c) \<in> set (refusals_of ep)"
  by (simp add: typed_def refused_def)

lemma typed_json: "success ep (write_json st b) \<Longrightarrow> typed ep (write_json st b)"
  by (simp add: typed_def)

section \<open>What an operation always answers\<close>

definition always :: "('a \<Rightarrow> bool) \<Rightarrow> 'a io \<Rightarrow> bool" where
  "always P m \<longleftrightarrow> (\<forall>w. P (fst (m w)))"

lemma always_return: "P x \<Longrightarrow> always P (returnW x)"
  by (simp add: always_def)

lemma always_bind: "(\<And>x. always P (f x)) \<Longrightarrow> always P (bindW m f)"
  by (simp add: always_def bindW_def split: prod.split)

lemma always_if: "(b \<Longrightarrow> always P m) \<Longrightarrow> (\<not> b \<Longrightarrow> always P n) \<Longrightarrow> always P (if b then m else n)"
  by simp

lemma always_sum:
  "(\<And>e. always P (f e)) \<Longrightarrow> (\<And>x. always P (g x)) \<Longrightarrow> always P (case_sum f g r)"
  by (cases r) auto

lemma always_option: "always P f \<Longrightarrow> (\<And>x. always P (g x)) \<Longrightarrow> always P (case_option f g r)"
  by (cases r) auto

lemma always_prod: "(\<And>x y. always P (f x y)) \<Longrightarrow> always P (case_prod f p)"
  by (cases p) auto

lemma always_list: "always P f \<Longrightarrow> (\<And>x xs. always P (g x xs)) \<Longrightarrow> always P (case_list f g r)"
  by (cases r) auto

lemmas always_rules = always_bind always_if always_sum always_option always_prod always_list always_return

lemma always_require_auth:
  assumes "\<And>ctx. always (typed ep) (h ctx rq)" "unauthorized \<in> set (refusals_of ep)"
  shows "always (typed ep) (protected sv h rq)"
  unfolding protected_def require_auth_def Let_def
  by (intro always_rules assms(1)) (use assms(2) in simp_all)

section \<open>The handlers\<close>

text \<open>A pure end of a handler: each of its branches is typed.\<close>

lemma typed_sum: "(\<And>e. typed ep (f e)) \<Longrightarrow> (\<And>x. typed ep (g x)) \<Longrightarrow> typed ep (case_sum f g r)"
  by (cases r) auto

lemma typed_if: "(b \<Longrightarrow> typed ep x) \<Longrightarrow> (\<not> b \<Longrightarrow> typed ep y) \<Longrightarrow> typed ep (if b then x else y)"
  by simp

lemma typed_prod: "(\<And>x y. typed ep (f x y)) \<Longrightarrow> typed ep (case_prod f p)"
  by (cases p) auto

lemmas typed_rules = always_rules typed_sum typed_if typed_prod typed_json

lemma typed_health: "always (typed Health) (health s q)"
  unfolding health_def by (intro typed_rules) simp_all

lemma typed_register: "always (typed Register) (register uni jwt bc secret en rq)"
  unfolding register_def respond_tokens_def Let_def by (intro typed_rules) simp_all

lemma typed_login: "always (typed Login) (login uni jwt bc secret en rq)"
  unfolding login_def respond_tokens_def Let_def by (intro typed_rules) simp_all

lemma typed_refresh: "always (typed Refresh) (refresh_handler jwt secret en rq)"
  unfolding refresh_handler_def respond_tokens_def Let_def by (intro typed_rules) simp_all

lemma typed_me: "always (typed Me) (me ctx rq)"
  unfolding me_def by (intro typed_rules) simp_all

lemma typed_rules_list: "always (typed Rules_List) (rules_list ctx rq)"
  unfolding rules_list_def by (intro typed_rules) simp_all

lemma typed_rules_create: "always (typed Rules_Create) (rules_create ctx rq)"
  unfolding rules_create_def Let_def by (intro typed_rules) simp_all

lemma typed_rules_get: "always (typed Rules_Get) (rules_get ctx rq)"
  unfolding rules_get_def by (intro typed_rules) simp_all

lemma typed_rules_patch: "always (typed Rules_Patch) (rules_patch ctx rq)"
  unfolding rules_patch_def by (intro typed_rules) simp_all

lemma typed_rules_delete: "always (typed Rules_Delete) (rules_delete ctx rq)"
  unfolding rules_delete_def by (intro typed_rules) simp_all

lemma typed_ingest: "always (typed Ingest) (ingest secret time_ok rq)"
  unfolding ingest_def Let_def by (intro typed_rules) simp_all

lemma typed_events_list: "always (typed Events_List) (events_list ctx rq)"
  unfolding events_list_def by (intro typed_rules) simp_all

lemma typed_events_get: "always (typed Events_Get) (events_get ctx rq)"
  unfolding events_get_def by (intro typed_rules) simp_all

lemma typed_simulate: "always (typed Simulate) (simulate ctx rq)"
  unfolding simulate_def inject_and_answer_def Let_def by (intro typed_rules) simp_all

lemma typed_summarize: "always (typed Summarize) (summarize provider ctx rq)"
  unfolding summarize_def summarize_events_def Let_def by (intro typed_rules) simp_all

lemmas typed_handlers = typed_health typed_register typed_login typed_refresh typed_me typed_rules_list
  typed_rules_create typed_rules_get typed_rules_patch typed_rules_delete typed_ingest typed_events_list
  typed_events_get typed_simulate typed_summarize

lemma typed_handle: "always (typed ep) (handle sv st en ep rq)"
  by (cases ep) (simp_all add: typed_handlers always_require_auth)

end
