(* ===== verification/Effects.thy ===== *)
theory Effects
  imports Api_Contract
begin

text \<open>
  What a request leaves behind: the methods that only read, and the answers that say that nothing was
  done. Both are stated for a world without interference, where every change is the request's own.
\<close>

section \<open>Operations that only read\<close>

text \<open>The rules for relations on databases, for equality.\<close>

interpretation unchanged: db_relation "(=) :: db \<Rightarrow> db \<Rightarrow> bool"
  by unfold_locales simp_all

abbreviation reads :: "'a io \<Rightarrow> bool" where
  "reads \<equiv> keeps (=)"

lemmas reads_rules = unchanged.keeps_rules keeps_Let

lemma quiet_env_equal: "quiet w \<Longrightarrow> env_ok (=) w"
  by (simp add: quiet_def env_ok_def)

lemma readsD: "reads m \<Longrightarrow> quiet w \<Longrightarrow> w_db (snd (m w)) = w_db w \<and> quiet (snd (m w))"
  using keepsD(1) [of "(=)" m w] quiet_env_equal [of w] by (auto simp: keeps_def quiet_def)

lemmas query_defs = sql_user_by_ref_def sql_event_by_key_def sql_list_events_def sql_events_by_ids_def
  sql_event_for_user_def sql_event_by_id_def sql_status_counts_def sql_oldest_pending_def sql_rule_names_def
  sql_enabled_rules_def sql_list_rules_def sql_rule_for_user_def sql_user_by_email_def sql_user_by_id_def
  sql_ping_def

lemma reads_store:
  "reads (user_id_by_ref ref)" "reads (get_by_idempotency uid key)" "reads (list_for_user uid st)"
  "reads (get_for_user_ids uid ids)" "reads (get_for_user uid i)" "reads (get_by_id i)"
  "reads get_queue_stats" "reads (names_by_ids ids)" "reads (enabled_by_user_and_type uid ty)"
  "reads (list_rules_by_user uid)" "reads (get_rule_for_user uid i)" "reads (user_by_email email)"
  "reads (user_by_id uid)"
  unfolding events_store_defs rules_store_defs user_by_email_def user_by_id_def query_defs
  by (intro reads_rules)+

lemma reads_require_auth:
  "(\<And>ctx. reads (h ctx rq)) \<Longrightarrow> reads (protected sv h rq)"
  unfolding protected_def require_auth_def parse_access_def by (intro reads_rules)

lemma reads_handlers:
  "reads (health s (Some get_queue_stats))" "reads (me ctx rq)" "reads (rules_list ctx rq)"
  "reads (rules_get ctx rq)" "reads (events_list ctx rq)" "reads (events_get ctx rq)"
  unfolding health_def me_def rules_list_def rules_get_def events_list_def events_get_def option.case sql_ping_def
  by (intro reads_rules reads_store)+

lemma reads_handle:
  "ep \<in> {Health, Me, Rules_List, Rules_Get, Events_List, Events_Get} \<Longrightarrow> reads (handle sv st en ep rq)"
  by (auto simp: reads_handlers reads_require_auth)

section \<open>Refusals\<close>

text \<open>An error is certain when it does not come from a lost connection, after which the server may have
  committed. A chain of wrapped errors ends in one cause.\<close>

definition certain :: "error \<Rightarrow> bool" where
  "certain e \<longleftrightarrow> \<not> errors_is e ConnError"

lemma errors_is_one_cause:
  "errors_is e s \<Longrightarrow> s \<noteq> ConnError \<Longrightarrow> \<forall>m e'. s \<noteq> Wrap m e' \<Longrightarrow> certain e"
  unfolding certain_def by (induction e s rule: errors_is.induct) auto

lemma errors_is_certain:
  "errors_is e ErrEmailTaken \<Longrightarrow> certain e" "errors_is e ErrRuleNotFound \<Longrightarrow> certain e"
  "errors_is e ErrNoRows \<Longrightarrow> certain e"
  by (simp_all add: errors_is_one_cause)

definition client_error :: "response \<Rightarrow> bool" where
  "client_error rs \<longleftrightarrow> 400 \<le> rs_status rs \<and> rs_status rs < 500"

text \<open>\<open>clean B m\<close>: when nobody else writes and the result of \<open>m\<close> is in \<open>B\<close>, the database is as before.\<close>

definition clean :: "('a \<Rightarrow> bool) \<Rightarrow> 'a io \<Rightarrow> bool" where
  "clean B m \<longleftrightarrow> (\<forall>w. env_ok (=) w \<longrightarrow> env_ok (=) (snd (m w)) \<and> (B (fst (m w)) \<longrightarrow> w_db (snd (m w)) = w_db w))"

lemma cleanD: "clean B m \<Longrightarrow> env_ok (=) w \<Longrightarrow> m w = (x, w') \<Longrightarrow> env_ok (=) w' \<and> (B x \<longrightarrow> w_db w' = w_db w)"
  by (metis clean_def fst_conv snd_conv)

lemma clean_reads: "reads m \<Longrightarrow> clean B m"
  unfolding clean_def using keepsD [of "(=)" m] by (metis (no_types))

lemma clean_after_reads:
  assumes "reads m" "\<And>x. clean B (f x)" shows "clean B (bindW m f)"
  unfolding clean_def
proof (intro allI impI)
  fix w assume w: "env_ok (=) w"
  obtain x w1 where m: "m w = (x, w1)" by fastforce
  obtain y w2 where f: "f x w1 = (y, w2)" by fastforce
  from keepsD [OF assms(1) w] m have "w_db w1 = w_db w" "env_ok (=) w1" by simp_all
  with cleanD [OF assms(2) _ f] m f
  show "env_ok (=) (snd (bindW m f w)) \<and> (B (fst (bindW m f w)) \<longrightarrow> w_db (snd (bindW m f w)) = w_db w)"
    by (simp add: bindW_def)
qed

text \<open>A write that can be refused: afterwards only an answer to a refusal may be in \<open>B\<close>.\<close>

lemma clean_after_write:
  assumes "clean A m" "\<And>x. clean (\<lambda>_. False) (f x)" "\<And>x. A x \<Longrightarrow> reads (f x)" "\<And>x. \<not> A x \<Longrightarrow> always (\<lambda>y. \<not> B y) (f x)"
  shows "clean B (bindW m f)"
  unfolding clean_def
proof (intro allI impI)
  fix w assume w: "env_ok (=) w"
  obtain x w1 where m: "m w = (x, w1)" by fastforce
  obtain y w2 where f: "f x w1 = (y, w2)" by fastforce
  from cleanD [OF assms(1) w m] have w1: "env_ok (=) w1" "A x \<longrightarrow> w_db w1 = w_db w" by auto
  from cleanD [OF assms(2) w1(1) f] have "env_ok (=) w2" by simp
  moreover have "w_db w2 = w_db w" if "B y"
  proof -
    have "A x" using assms(4) [of x] f that by (metis always_def fst_conv)
    with keepsD(1) [OF assms(3) w1(1)] w1(2) f show ?thesis by (metis snd_conv)
  qed
  ultimately show "env_ok (=) (snd (bindW m f w)) \<and> (B (fst (bindW m f w)) \<longrightarrow> w_db (snd (bindW m f w)) = w_db w)"
    using m f by (simp add: bindW_def)
qed

lemma clean_if: "(b \<Longrightarrow> clean B m) \<Longrightarrow> (\<not> b \<Longrightarrow> clean B n) \<Longrightarrow> clean B (if b then m else n)"
  by simp

lemma clean_sum: "(\<And>e. r = Inl e \<Longrightarrow> clean B (f e)) \<Longrightarrow> (\<And>x. r = Inr x \<Longrightarrow> clean B (g x)) \<Longrightarrow> clean B (case_sum f g r)"
  by (cases r) auto

lemma clean_option: "(r = None \<Longrightarrow> clean B f) \<Longrightarrow> (\<And>x. r = Some x \<Longrightarrow> clean B (g x)) \<Longrightarrow> clean B (case_option f g r)"
  by (cases r) auto

lemma clean_prod: "(\<And>x y. clean B (f x y)) \<Longrightarrow> clean B (case_prod f p)"
  by (cases p) auto

text \<open>An operation none of whose answers is in \<open>B\<close> is clean as long as it leaves the script alone.\<close>

lemma clean_never:
  assumes "keeps (\<lambda>_ _. True) m" "always (\<lambda>x. \<not> B x) m" shows "clean B m"
  using assms unfolding clean_def keeps_def always_def env_ok_def by simp

lemma clean_return: "clean B (returnW x)"
  by (rule clean_reads) (rule unchanged.keeps_return)

lemmas clean_rules = clean_return clean_if clean_sum clean_option clean_prod

text \<open>Every operation leaves the script of the other sessions alone: the contract for the relation that
  holds of any two databases.\<close>

interpretation anything: db_contract "\<lambda>_ _ :: db. True"
  by unfold_locales simp_all

lemma clean_frame: "keeps (\<lambda>_ _. True) m \<Longrightarrow> clean (\<lambda>_. False) m"
  by (rule clean_never) (simp_all add: always_def)

section \<open>Refused writes\<close>

abbreviation refusal :: "error + 'a \<Rightarrow> bool" where
  "refusal r \<equiv> \<exists>e. r = Inl e \<and> certain e"

lemma clean_update: "clean refusal (stmt (update f))"
  unfolding clean_def
proof (intro allI impI)
  fix w assume w: "env_ok (=) w"
  have same: "sl_env (w_slot w) (w_db w) = w_db w" using w by (simp add: env_ok_def w_slot_def)
  have "env_ok (=) (snd (stmt (update f) w))" using w by (simp add: env_ok_def stmt_frame)
  moreover have "w_db (snd (stmt (update f) w)) = w_db w" if "refusal (fst (stmt (update f) w))"
    using that same
    by (auto simp: stmt_def transaction_def Let_def update_def certain_def split: fault.splits sum.splits prod.splits)
  ultimately show "env_ok (=) (snd (stmt (update f) w)) \<and>
      (refusal (fst (stmt (update f) w)) \<longrightarrow> w_db (snd (stmt (update f) w)) = w_db w)" by blast
qed

lemma clean_map:
  assumes "clean A m" "\<And>x. B (f x) \<Longrightarrow> A x" shows "clean B (bindW m (\<lambda>x. returnW (f x)))"
  using assms unfolding clean_def bindW_def by (auto split: prod.splits; metis fst_conv snd_conv)

lemma pg_code_certain: "pg_code e = Some c \<Longrightarrow> certain e"
  unfolding certain_def by (induction e rule: pg_code.induct) auto

lemma clean_create_user: "clean refusal (create_user email hash)"
  unfolding create_user_def sql_insert_user_def
  by (rule clean_map [OF clean_update]) (auto dest: pg_code_certain simp: certain_def split: sum.splits if_splits)

lemma clean_update_rule: "clean refusal (update_rule_for_user uid i inp)"
  unfolding update_rule_for_user_def sql_update_rule_def
  by (rule clean_after_reads [OF reads_store(11)], intro clean_rules clean_map [OF clean_update])
     (auto simp: certain_def scan_err_def errors_is_certain(3) [unfolded certain_def] split: sum.splits if_splits)

lemma clean_delete_stmt: "clean (\<lambda>r. refusal r \<or> r = Inr 0) (stmt (sql_delete_rule i uid))"
  unfolding clean_def
proof (intro allI impI)
  fix w assume w: "env_ok (=) w"
  have same: "sl_env (w_slot w) (w_db w) = w_db w" using w by (simp add: env_ok_def w_slot_def)
  have c: "clean refusal (stmt (sql_delete_rule i uid))" unfolding sql_delete_rule_def by (rule clean_update)
  have "w_db (snd (stmt (sql_delete_rule i uid) w)) = w_db w" if z: "fst (stmt (sql_delete_rule i uid) w) = Inr 0"
  proof -
    obtain w' where "stmt (sql_delete_rule i uid) w = (Inr 0, w')" using z by (metis prod.collapse)
    with stmt_InrD [OF this] show ?thesis
      by (auto simp: same sql_delete_rule_def update_Inr_iff bindE_Inr_iff count_where_0_iff remove_no_rules)
  qed
  with c w show "env_ok (=) (snd (stmt (sql_delete_rule i uid) w)) \<and>
      (refusal (fst (stmt (sql_delete_rule i uid) w)) \<or> fst (stmt (sql_delete_rule i uid) w) = Inr 0 \<longrightarrow>
       w_db (snd (stmt (sql_delete_rule i uid) w)) = w_db w)"
    unfolding clean_def by blast
qed

lemma clean_delete_rule: "clean refusal (delete_rule_for_user uid i)"
  unfolding delete_rule_for_user_def
  by (rule clean_map [OF clean_delete_stmt]) (auto simp: certain_def split: sum.splits if_splits)

lemma clean_after_refusal:
  assumes "clean refusal m" "\<And>e. reads (f e)" "\<And>e. \<not> certain e \<Longrightarrow> always (\<lambda>y. \<not> B y) (f e)"
    and "\<And>x. keeps (\<lambda>_ _. True) (g x)" "\<And>x. always (\<lambda>y. \<not> B y) (g x)"
  shows "clean B (bindW m (case_sum f g))"
proof (rule clean_after_write [OF assms(1)])
  show "clean (\<lambda>_. False) (case_sum f g r)" for r
    using clean_reads [OF assms(2)] clean_frame [OF assms(4)] by (cases r) simp_all
  show "reads (case_sum f g r)" if "refusal r" for r using that assms(2) by auto
  show "always (\<lambda>y. \<not> B y) (case_sum f g r)" if "\<not> refusal r" for r
    using that assms(3,5) by (cases r) auto
qed

section \<open>The handlers that write\<close>

lemma always_tokens: "st < 400 \<Longrightarrow> always (\<lambda>y. \<not> client_error y) (bindW m (\<lambda>t. returnW (respond_tokens st t)))"
  by (intro always_rules) (simp add: respond_tokens_def client_error_def split: sum.split)

lemma clean_register: "clean client_error (register uni jwt bc secret en rq)"
  unfolding register_def
proof (intro clean_rules clean_after_refusal [OF clean_create_user])
  fix e assume "\<not> certain e"
  then have "\<not> errors_is e ErrEmailTaken" using errors_is_certain(1) by blast
  then show "always (\<lambda>y. \<not> client_error y) (returnW (if errors_is e ErrEmailTaken
      then write_error 409 ''email_taken'' ''email already registered''
      else write_error 500 ''internal_error'' ''could not create user''))"
    by (simp add: always_def client_error_def)
qed (simp_all add: always_tokens anything.keeps_rules anything.keeps_issue_pair unchanged.keeps_return)

lemma clean_login: "clean client_error (login uni jwt bc secret en rq)"
  unfolding login_def
  by (intro clean_rules clean_after_reads reads_store clean_never [OF _ always_tokens]
      anything.keeps_rules anything.keeps_issue_pair) simp

lemma clean_ingest: "clean client_error (ingest secret time_ok rq)"
  unfolding ingest_def Let_def
  by (intro clean_rules clean_after_reads reads_store clean_never anything.keeps_rules anything.keeps_create_pending
      always_rules) (simp add: client_error_def split: sum.split)

lemma clean_rules_create: "clean client_error (rules_create ctx rq)"
  unfolding rules_create_def Let_def
  by (intro clean_rules clean_never anything.keeps_rules anything.keeps_create_rule always_rules)
     (simp add: client_error_def split: sum.split)

lemma clean_rules_patch: "clean client_error (rules_patch ctx rq)"
  unfolding rules_patch_def
  by (intro clean_rules clean_map [OF clean_update_rule])
     (auto simp: client_error_def errors_is_certain split: sum.splits if_splits)

lemma clean_rules_delete: "clean client_error (rules_delete ctx rq)"
  unfolding rules_delete_def
  by (intro clean_rules clean_map [OF clean_delete_rule])
     (auto simp: client_error_def errors_is_certain split: sum.splits if_splits)

lemma clean_simulate: "clean client_error (simulate ctx rq)"
  unfolding simulate_def inject_and_answer_def
  by (intro clean_rules clean_never anything.keeps_rules anything.keeps_ensure_demo_rule anything.keeps_inject
      always_rules) (simp_all add: client_error_def)

lemma clean_summarize:
  assumes "\<And>prompt ids. reads (provider prompt ids)"
  shows "clean client_error (summarize provider ctx rq)"
  unfolding summarize_def summarize_events_def Let_def
  by (intro clean_rules clean_after_reads assms reads_store clean_never anything.keeps_rules anything.keeps_save_summary
      always_rules) (simp add: client_error_def split: sum.split)

lemma clean_protected:
  assumes "\<And>ctx. clean client_error (h ctx rq)" shows "clean client_error (protected sv h rq)"
  unfolding protected_def require_auth_def parse_access_def Let_def
  by (intro clean_rules clean_after_reads unchanged.keeps_rules assms)

lemmas clean_handlers = clean_register clean_login clean_ingest clean_rules_create clean_rules_patch
  clean_rules_delete clean_simulate

lemma clean_handle:
  assumes "ep \<noteq> Refresh" "\<And>prompt ids. reads (sv_provider sv prompt ids)"
  shows "clean client_error (handle sv st en ep rq)"
proof (cases "ep \<in> {Health, Me, Rules_List, Rules_Get, Events_List, Events_Get}")
  case True
  then show ?thesis by (intro clean_reads reads_handle)
next
  case False
  with assms(1) show ?thesis
    by (cases ep) (simp_all add: clean_handlers clean_protected clean_summarize assms(2))
qed

end
