(* ===== verification/Http_Properties.thy ===== *)
theory Http_Properties
  imports Server_Samples Effects
begin

text \<open>What a client may rely on whatever it asks: the type of every answer, the requests that only
  read, and the answers that say that nothing was done.\<close>

section \<open>Types\<close>

text \<open>C12: every answer to every request, under every interleaving and loss of messages, is one of its
  endpoint's: a success status with the body that belongs to it, or an error body whose status and
  code are in the endpoint's table. Outside the routing table the answer is 404 or 405 and the
  world is as before.\<close>

theorem answers_typed:
  assumes "serve sv st en hx w = (rs, w')"
  shows "case route (hx_method hx) (hx_path hx) of
      Found ep i \<Rightarrow> typed ep rs
    | Method_not_allowed \<Rightarrow> rs_status rs = 405 \<and> is_TextBody (rs_body rs) \<and> w' = w
    | Path_not_found \<Rightarrow> rs_status rs = 404 \<and> is_TextBody (rs_body rs) \<and> w' = w"
proof (cases "route (hx_method hx) (hx_path hx)")
  case (Found ep i)
  with typed_handle [of ep sv st en] assms show ?thesis
    by (simp add: serve_def always_def) (metis fst_conv)
qed (use assms in \<open>auto simp: serve_def returnW_def\<close>)

theorem answers_typed_witness:
  "typed Rules_Delete (fst (serve sample_services new_stats sample_entropy
     (sample_http ''DELETE'' [''v1'', ''alert-rules'', ''r1''] ''tok'' []) (sample_world 1 sample_db)))"
  using answers_typed [OF prod.collapse [symmetric], of sample_services new_stats sample_entropy
      "sample_http ''DELETE'' [''v1'', ''alert-rules'', ''r1''] ''tok'' []" "sample_world 1 sample_db"]
  by (simp add: route_def routes_def match_method_def)

section \<open>Reads\<close>

lemma route_member:
  assumes "route m path = Found ep i"
  shows "\<exists>pm ps. (pm, ps, ep) \<in> set routes \<and> match_method pm m"
proof -
  let ?hits = "filter (\<lambda>(pm, ps, ep). match_method pm m) (filter (\<lambda>(pm, ps, ep). match_path ps path \<noteq> None) routes)"
  from assms obtain pm ps rest where "?hits = (pm, ps, ep) # rest"
    unfolding route_def Let_def by (auto split: list.splits if_splits)
  then have "(pm, ps, ep) \<in> set ?hits" by (metis list.set_intros(1))
  then show ?thesis by auto
qed

lemma get_endpoints:
  "route m path = Found ep i \<Longrightarrow> m \<in> {''GET'', ''HEAD''} \<Longrightarrow>
   ep \<in> {Health, Me, Rules_List, Rules_Get, Events_List, Events_Get}"
  using route_member [of m path ep i] by (auto simp: routes_def match_method_def)

text \<open>C16: \<open>GET\<close> and \<open>HEAD\<close> are safe: whatever is asked with them and whichever messages are lost, the
  database is as before when nobody else writes.\<close>

theorem safe_methods_read:
  assumes "hx_method hx \<in> {''GET'', ''HEAD''}" "env_ok (=) w"
  shows "w_db (snd (serve sv st en hx w)) = w_db w"
proof (cases "route (hx_method hx) (hx_path hx)")
  case (Found ep i)
  with get_endpoints assms(1) have "reads (handle sv st en ep rq)" for rq by (intro reads_handle) blast
  from keepsD(1) [OF this assms(2)] Found show ?thesis by (simp add: serve_def)
qed (simp_all add: serve_def returnW_def)

theorem safe_methods_read_witness:
  "w_db (snd (serve sample_services new_stats sample_entropy (sample_http ''GET'' [''v1'', ''events''] ''tok'' [])
     (sample_world 1 sample_db))) = sample_db"
  using safe_methods_read [of "sample_http ''GET'' [''v1'', ''events''] ''tok'' []" "sample_world 1 sample_db"]
  by (simp add: env_ok_def)

section \<open>Refusals\<close>

text \<open>C15: a 4xx answer of any endpoint but refresh says that nothing was done: with any provider that
  start-up accepts and whichever messages are lost, the database is as before when nobody else
  writes. (A refused refresh may have consumed its token.)\<close>

theorem client_errors_change_nothing:
  assumes "new_provider client cfg = Inr (sv_provider sv)" "\<And>c. reads (client c)"
    and "\<forall>i. route (hx_method hx) (hx_path hx) \<noteq> Found Refresh i" "env_ok (=) w"
    and "serve sv st en hx w = (rs, w')" "400 \<le> rs_status rs" "rs_status rs < 500"
  shows "w_db w' = w_db w"
proof (cases "route (hx_method hx) (hx_path hx)")
  case (Found ep i)
  with assms(3) have "ep \<noteq> Refresh" by auto
  from clean_handle [OF this unchanged.keeps_new_provider [OF assms(1,2)]]
  have "clean client_error (handle sv st en ep rq)" for rq .
  from cleanD [OF this assms(4)] assms(5-7) Found show ?thesis
    by (auto simp: serve_def client_error_def)
qed (use assms(5) in \<open>auto simp: serve_def returnW_def\<close>)

theorem client_errors_change_nothing_witness:
  "w_db (snd (serve sample_services new_stats sample_entropy
     (sample_http ''DELETE'' [''v1'', ''alert-rules'', ''r1''] ''bad'' []) (sample_world 1 sample_db))) = sample_db"
proof -
  let ?hx = "sample_http ''DELETE'' [''v1'', ''alert-rules'', ''r1''] ''bad'' []" and ?w = "sample_world 1 sample_db"
  have r: "route (hx_method ?hx) (hx_path ?hx) = Found Rules_Delete ''r1''"
    by (simp add: route_def routes_def match_method_def)
  then obtain msg where s: "serve sample_services new_stats sample_entropy ?hx ?w = (write_error 401 ''unauthorized'' msg, ?w)"
    by (simp add: serve_def protected_def require_auth_cases sample_no_identity)
  have p: "new_provider (\<lambda>c. returnW (Inl ConnError)) sample_config = Inr (sv_provider sample_services)"
    by (simp add: new_provider_def sample_config_def)
  show ?thesis
    using client_errors_change_nothing [OF p unchanged.keeps_return, where hx = ?hx and w = ?w] s r
    by (simp add: env_ok_def)
qed

end
