(* ===== verification/Delivery_Properties.thy ===== *)
theory Delivery_Properties
  imports Ingest_Properties Events_Handler
begin

text \<open>The way of an event through the whole service: a delivery is stored, the worker completes
  it with the verdict its payload and the user's rules give, and its owner reads the result.\<close>

section \<open>What a run of the worker does to one event\<close>


text \<open>What identifies the event and decides its verdict.\<close>

definition same_content :: "event_row \<Rightarrow> event_row \<Rightarrow> bool" where
  "same_content r r' \<longleftrightarrow> ev_id r' = ev_id r \<and> ev_user_id r' = ev_user_id r \<and> ev_type r' = ev_type r
     \<and> ev_payload r' = ev_payload r \<and> ev_idempotency_key r' = ev_idempotency_key r"


lemma same_content_simps [simp]:
  "same_content r r" "same_content r (claim_row t x) = same_content r x"
  "same_content r (completed t v x) = same_content r x"
  by (simp_all add: same_content_def) (cases v; simp)





section \<open>From the delivery to the worker\<close>


section \<open>From the worker to the owner\<close>


section \<open>The whole way\<close>








end
