(* ===== verification/Lifecycle.thy ===== *)
theory Lifecycle
  imports Server_Samples
begin

text \<open>
  The process after start-up, \<open>api/cmd/server/main.go\<close> from \<open>go wrk.Run(ctx)\<close> to the end: the
  listener, the connections and requests, the worker, the signals, and the shutdown, as steps of goroutines
  that interleave freely. What the Go library documents is in the steps: of \<open>net/http\<close> that
  \<open>Shutdown\<close> closes the listener at once, closes idle connections, waits for the busy ones and returns when none
  is left or its context has expired, and that a listener that opens late is refused; of \<open>os/signal\<close> that
  \<open>stop()\<close> of \<open>NotifyContext\<close> ends the context and the handling of the signals, so that the next one
  kills the process; and of \<open>pgxpool\<close> that \<open>Close\<close> waits until every connection has been given
  back, and hands out no more.
\<close>

section \<open>The process\<close>

text \<open>How far \<open>main\<close> is: blocked at \<open><-ctx.Done()\<close>, inside \<open>Shutdown\<close> with the deadline of its
  context, running the deferred calls, and gone with an exit status; or the process was killed by a signal.\<close>

datatype phase = Serving | Draining time | Closing | Exited int | Killed

text \<open>\<open>Failed_open\<close>: \<open>ListenAndServe\<close> has returned an error and \<open>stop()\<close> is to be called.\<close>

datatype listener = Unopened | Listening | Failed_open | Shut

text \<open>\<open>ps_stopped\<close> says whether \<open>ctx\<close> is done, \<open>ps_handled\<close> whether signals are caught,
  \<open>ps_idle\<close> counts the open connections without a request, \<open>ps_inflight\<close> holds the requests of the busy
  ones, and \<open>ps_working\<close> says whether \<open>wrk.Run\<close> has not returned. A statement that runs holds a
  connection of the pool: \<open>ps_queries\<close> counts those of the handlers, \<open>ps_work_query\<close> is the worker's.
  (What statements do to the world is in the steps that answer and work.)\<close>

record main_state =
  ps_phase :: phase
  ps_stopped :: bool
  ps_handled :: bool
  ps_listener :: listener
  ps_idle :: nat
  ps_inflight :: "http_request list"
  ps_working :: bool
  ps_queries :: nat
  ps_work_query :: bool
  ps_worker :: worker
  ps_world :: world

definition launch :: "worker \<Rightarrow> world \<Rightarrow> main_state" where
  "launch wk w =
     \<lparr>ps_phase = Serving, ps_stopped = False, ps_handled = True, ps_listener = Unopened, ps_idle = 0,
      ps_inflight = [], ps_working = True, ps_queries = 0, ps_work_query = False, ps_worker = wk, ps_world = w\<rparr>"

definition shutdown_timeout :: int where
  "shutdown_timeout = secs 10"

text \<open>Every statement between two worlds ran under a context that was done.\<close>

definition cancelled_between :: "world \<Rightarrow> world \<Rightarrow> bool" where
  "cancelled_between w w' \<longleftrightarrow>
     (\<forall>k. w_pc w \<le> k \<and> k < w_pc w' \<longrightarrow> sl_cancel (w_script w k) \<and> sl_fault (w_script w k) \<noteq> Deliver)"

section \<open>Steps\<close>

datatype label =
    Listen | Listen_fails | Stop_called | Listen_late | Signal
  | Connect | Hang_up | Accept http_request | Answer http_request response | Work | Work_ends
  | Query | Query_done | Work_query | Work_query_done
  | Shut_down (shut_time: time) | Drained | Expired time | Exit | Pass int

abbreviation running :: "main_state \<Rightarrow> bool" where
  "running p \<equiv> ps_phase p \<noteq> Killed \<and> (\<forall>st. ps_phase p \<noteq> Exited st)"

text \<open>A connection that has been answered is kept open until the shutdown begins, unless the client or
  the server closes it; an idle connection may still bring a request before the shutdown closes it.\<close>

inductive life :: "services \<Rightarrow> main_state \<Rightarrow> label \<Rightarrow> main_state \<Rightarrow> bool" for sv where
  listen: "ps_phase p = Serving \<Longrightarrow> ps_listener p = Unopened \<Longrightarrow>
     life sv p Listen (p\<lparr>ps_listener := Listening\<rparr>)"
| listen_fails: "running p \<Longrightarrow> ps_listener p = Unopened \<or> ps_listener p = Listening \<Longrightarrow>
     life sv p Listen_fails (p\<lparr>ps_listener := Failed_open\<rparr>)"
| stop_called: "running p \<Longrightarrow> ps_listener p = Failed_open \<Longrightarrow>
     life sv p Stop_called (p\<lparr>ps_listener := Shut, ps_stopped := True, ps_handled := False\<rparr>)"
| listen_late: "ps_phase p \<noteq> Serving \<Longrightarrow> running p \<Longrightarrow> ps_listener p = Unopened \<Longrightarrow>
     life sv p Listen_late (p\<lparr>ps_listener := Shut\<rparr>)"
| signal: "running p \<Longrightarrow> ps_handled p \<Longrightarrow> life sv p Signal (p\<lparr>ps_stopped := True\<rparr>)"
| killed: "running p \<Longrightarrow> \<not> ps_handled p \<Longrightarrow> life sv p Signal (p\<lparr>ps_phase := Killed\<rparr>)"
| connect: "running p \<Longrightarrow> ps_listener p = Listening \<Longrightarrow> life sv p Connect (p\<lparr>ps_idle := ps_idle p + 1\<rparr>)"
| hang_up: "running p \<Longrightarrow> 0 < ps_idle p \<Longrightarrow> life sv p Hang_up (p\<lparr>ps_idle := ps_idle p - 1\<rparr>)"
| accept: "running p \<Longrightarrow> 0 < ps_idle p \<Longrightarrow>
     life sv p (Accept hx) (p\<lparr>ps_idle := ps_idle p - 1, ps_inflight := ps_inflight p @ [hx]\<rparr>)"
| query: "running p \<Longrightarrow> ps_phase p \<noteq> Closing \<Longrightarrow> ps_queries p < length (ps_inflight p) \<Longrightarrow>
     life sv p Query (p\<lparr>ps_queries := ps_queries p + 1\<rparr>)"
| query_done: "running p \<Longrightarrow> 0 < ps_queries p \<Longrightarrow>
     life sv p Query_done (p\<lparr>ps_queries := ps_queries p - 1\<rparr>)"
| answer: "running p \<Longrightarrow> ps_inflight p = xs @ hx # ys \<Longrightarrow> ps_queries p < length (ps_inflight p) \<Longrightarrow>
     serve sv (wk_stats (ps_worker p)) en hx (ps_world p) = (rs, w') \<Longrightarrow> (keep \<Longrightarrow> ps_phase p = Serving) \<Longrightarrow>
     life sv p (Answer hx rs)
       (p\<lparr>ps_idle := ps_idle p + (if keep then 1 else 0), ps_inflight := xs @ ys, ps_world := w'\<rparr>)"
| work_query: "running p \<Longrightarrow> ps_phase p \<noteq> Closing \<Longrightarrow> ps_working p \<Longrightarrow> \<not> ps_stopped p \<Longrightarrow> \<not> ps_work_query p \<Longrightarrow>
     life sv p Work_query (p\<lparr>ps_work_query := True\<rparr>)"
| work_query_done: "running p \<Longrightarrow> ps_work_query p \<Longrightarrow>
     life sv p Work_query_done (p\<lparr>ps_work_query := False\<rparr>)"
| work: "running p \<Longrightarrow> ps_working p \<Longrightarrow> \<not> ps_work_query p \<Longrightarrow> tick (ps_worker p) (ps_world p) = (wk', w') \<Longrightarrow>
     (ps_stopped p \<Longrightarrow> cancelled_between (ps_world p) w') \<Longrightarrow>
     life sv p Work (p\<lparr>ps_worker := wk', ps_world := w'\<rparr>)"
| work_ends: "running p \<Longrightarrow> ps_working p \<Longrightarrow> ps_stopped p \<Longrightarrow> \<not> ps_work_query p \<Longrightarrow>
     life sv p Work_ends (p\<lparr>ps_working := False\<rparr>)"
| shut_down: "ps_phase p = Serving \<Longrightarrow> ps_stopped p \<Longrightarrow>
     life sv p (Shut_down (w_now (ps_world p)))
       (p\<lparr>ps_phase := Draining (w_now (ps_world p) + shutdown_timeout),
          ps_listener := (if ps_listener p = Listening then Shut else ps_listener p)\<rparr>)"
| drained: "ps_phase p = Draining t \<Longrightarrow> ps_inflight p = [] \<Longrightarrow> ps_idle p = 0 \<Longrightarrow>
     life sv p Drained (p\<lparr>ps_phase := Closing\<rparr>)"
| expired: "ps_phase p = Draining t \<Longrightarrow> t \<le> w_now (ps_world p) \<Longrightarrow>
     life sv p (Expired (w_now (ps_world p))) (p\<lparr>ps_phase := Closing\<rparr>)"
| exit: "ps_phase p = Closing \<Longrightarrow> ps_queries p = 0 \<Longrightarrow> \<not> ps_work_query p \<Longrightarrow>
     life sv p Exit (p\<lparr>ps_phase := Exited 0\<rparr>)"
| pass: "running p \<Longrightarrow> 0 \<le> dt \<Longrightarrow>
     life sv p (Pass dt) (p\<lparr>ps_world := (ps_world p)\<lparr>w_now := w_now (ps_world p) + dt\<rparr>\<rparr>)"

inductive_simps life_simps:
  "life sv p Signal p'" "life sv p Drained p'" "life sv p (Shut_down t) p'" "life sv p (Expired t) p'"
  "life sv p Exit p'" "life sv p Query_done p'" "life sv p Work_query_done p'" "life sv p (Pass dt) p'"
  "life sv p Listen p'" "life sv p Connect p'" "life sv p (Accept hx) p'"

inductive lives :: "services \<Rightarrow> main_state \<Rightarrow> label list \<Rightarrow> main_state \<Rightarrow> bool" for sv p where
  start: "lives sv p [] p"
| step: "lives sv p tr p' \<Longrightarrow> life sv p' l p'' \<Longrightarrow> lives sv p (tr @ [l]) p''"

text \<open>Nothing happens after the end.\<close>

lemma exited_stays: "life sv p l p' \<Longrightarrow> running p"
  by (cases rule: life.cases) auto

section \<open>Databases\<close>

context db_contract
begin

lemma keeps_life:
  assumes "\<And>prompt ids. keeps G (sv_provider sv prompt ids)"
    and "life sv p l p'" "env_ok G (ps_world p)"
  shows "G (w_db (ps_world p)) (w_db (ps_world p')) \<and> env_ok G (ps_world p')"
  using assms(2,3)
proof cases
  case (answer xs hx ys en rs w' keep)
  then show ?thesis using keepsD [OF keeps_serve [OF assms(1)] assms(3)] by (simp, metis snd_conv)
next
  case (work wk' w')
  then show ?thesis using keepsD [OF keeps_tick assms(3)] by (simp, metis snd_conv)
qed (simp_all add: G_refl env_ok_def)

lemma keeps_lives:
  assumes "\<And>prompt ids. keeps G (sv_provider sv prompt ids)"
    and "lives sv p tr p'" "env_ok G (ps_world p)"
  shows "G (w_db (ps_world p)) (w_db (ps_world p')) \<and> env_ok G (ps_world p')"
  using assms(2)
proof induction
  case (step tr p' l p'')
  with keeps_life [OF assms(1) step.hyps(2)] show ?case by (blast intro: G_trans)
qed (simp add: G_refl assms(3))

end

section \<open>Traces\<close>

fun accepted :: "label list \<Rightarrow> http_request list" where
  "accepted [] = []"
| "accepted (Accept hx # tr) = hx # accepted tr"
| "accepted (_ # tr) = accepted tr"

fun answered :: "label list \<Rightarrow> http_request list" where
  "answered [] = []"
| "answered (Answer hx rs # tr) = hx # answered tr"
| "answered (_ # tr) = answered tr"

lemma accepted_append [simp]: "accepted (tr @ tr') = accepted tr @ accepted tr'"
  by (induction tr rule: accepted.induct) auto

lemma answered_append [simp]: "answered (tr @ tr') = answered tr @ answered tr'"
  by (induction tr rule: answered.induct) auto








section \<open>How main ends\<close>

text \<open>The steps of \<open>main\<close> itself, and how many are left.\<close>

fun main_step :: "label \<Rightarrow> bool" where
  "main_step (Shut_down t) = True"
| "main_step Drained = True"
| "main_step (Expired t) = True"
| "main_step Exit = True"
| "main_step _ = False"

fun steps_left :: "phase \<Rightarrow> nat" where
  "steps_left Serving = 3"
| "steps_left (Draining d) = 2"
| "steps_left Closing = 1"
| "steps_left (Exited st) = 0"
| "steps_left Killed = 0"

lemma steps_left_step:
  "life sv p l p' \<Longrightarrow> ps_phase p' \<noteq> Killed \<Longrightarrow>
     steps_left (ps_phase p) = steps_left (ps_phase p') + (if main_step l then 1 else 0)"
  by (cases rule: life.cases) auto

lemma stopped_step: "life sv p l p' \<Longrightarrow> ps_stopped p \<Longrightarrow> ps_stopped p'"
  by (erule life.cases) auto

lemma main_progress:
  assumes "ps_stopped p"
  shows "\<not> running p \<or> (\<exists>l p'. main_step l \<and> life sv p l p') \<or>
         (\<exists>d. ps_phase p = Draining d \<and> (ps_inflight p \<noteq> [] \<or> 0 < ps_idle p) \<and> w_now (ps_world p) < d) \<or>
         ps_phase p = Closing \<and> (0 < ps_queries p \<or> ps_work_query p)"
proof (cases "ps_phase p")
  case Serving
  then show ?thesis using life.shut_down [OF Serving assms] by force
next
  case (Draining d)
  then show ?thesis using life.drained [of p d] life.expired [of p d] by force
next
  case Closing
  then show ?thesis using life.exit [OF Closing] by force
qed auto

lemma lives_append: "lives sv p tr q \<Longrightarrow> lives sv q tr' r \<Longrightarrow> lives sv p (tr @ tr') r"
  by (rotate_tac, induction rule: lives.induct) (auto intro: lives.step simp flip: append_assoc)

lemma lives_one: "life sv p l q \<Longrightarrow> lives sv p [l] q"
  using lives.step [OF lives.start] by force

lemma lives_Cons: "life sv p l q \<Longrightarrow> lives sv q tr r \<Longrightarrow> lives sv p (l # tr) r"
  using lives_append [OF lives_one] by force

text \<open>From the shutdown on, \<open>main\<close>, the clock and the return of the statements that run are enough.\<close>

fun main_clock_or_return :: "label \<Rightarrow> bool" where
  "main_clock_or_return (Pass dt) = True"
| "main_clock_or_return Query_done = True"
| "main_clock_or_return Work_query_done = True"
| "main_clock_or_return l = main_step l"

definition can_end :: "services \<Rightarrow> main_state \<Rightarrow> bool" where
  "can_end sv p \<longleftrightarrow> (\<exists>tr q. lives sv p tr q \<and> \<not> running q \<and> list_all main_clock_or_return tr)"

lemma can_end_step: "life sv p l q \<Longrightarrow> main_clock_or_return l \<Longrightarrow> can_end sv q \<Longrightarrow> can_end sv p"
  unfolding can_end_def using lives_Cons by (metis list.pred_inject(2))

lemma exited_can_end: "\<not> running p \<Longrightarrow> can_end sv p"
  unfolding can_end_def using lives.start by (metis list.pred_inject(1))

lemma idle_can_end:
  assumes "ps_phase p = Closing" "ps_queries p = 0" "\<not> ps_work_query p" shows "can_end sv p"
  by (rule can_end_step [OF life.exit [OF assms] _ exited_can_end]) simp_all

lemma closing_can_end: "ps_phase p = Closing \<Longrightarrow> can_end sv p"
proof (induction "ps_queries p" arbitrary: p)
  case 0
  show ?case
  proof (cases "ps_work_query p")
    case True
    then have "life sv p Work_query_done (p\<lparr>ps_work_query := False\<rparr>)"
      using 0 by (intro life.work_query_done) auto
    moreover have "can_end sv (p\<lparr>ps_work_query := False\<rparr>)" using 0 by (intro idle_can_end) simp_all
    ultimately show ?thesis using can_end_step [of sv p Work_query_done] by simp
  qed (use 0 in \<open>simp add: idle_can_end\<close>)
next
  case (Suc n)
  have "n = ps_queries (p\<lparr>ps_queries := ps_queries p - 1\<rparr>)" using Suc.hyps(2) by simp
  from Suc.hyps(1) [OF this] Suc.prems have c: "can_end sv (p\<lparr>ps_queries := ps_queries p - 1\<rparr>)" by simp
  have "life sv p Query_done (p\<lparr>ps_queries := ps_queries p - 1\<rparr>)"
    using Suc.prems Suc.hyps(2) by (intro life.query_done) auto
  from can_end_step [OF this _ c] show ?case by simp
qed

lemma draining_can_end:
  assumes "ps_phase p = Draining d" shows "can_end sv p"
proof -
  define dt where "dt = max 0 (d - w_now (ps_world p))"
  define q where "q = p\<lparr>ps_world := (ps_world p)\<lparr>w_now := w_now (ps_world p) + dt\<rparr>\<rparr>"
  have 1: "life sv p (Pass dt) q" unfolding q_def using assms by (intro life.pass) (auto simp: dt_def)
  have 2: "life sv q (Expired (w_now (ps_world q))) (q\<lparr>ps_phase := Closing\<rparr>)"
    by (rule life.expired [of _ d]) (auto simp: q_def assms dt_def)
  have "can_end sv (q\<lparr>ps_phase := Closing\<rparr>)" by (rule closing_can_end) simp
  from can_end_step [OF 1 _ can_end_step [OF 2 _ this]] show ?thesis by simp
qed

lemma stopped_can_end:
  assumes "ps_stopped p" shows "can_end sv p"
proof (cases "ps_phase p")
  case Serving
  show ?thesis
    by (rule can_end_step [OF life.shut_down [OF Serving assms] _ draining_can_end]) simp_all
qed (simp_all add: draining_can_end closing_can_end exited_can_end)

section \<open>Properties\<close>

text \<open>A life: a delivery gets in before the signal and is answered during the shutdown.\<close>

definition serving_trace :: "label list" where
  "serving_trace = [Listen, Connect, Connect, Accept delivery_http, Signal, Shut_down 0]"

lemma two_lives:
  "\<exists>rs rs' p q. lives sample_services (launch new_worker (sample_world 1 sample_db)) serving_trace p
     \<and> lives sample_services p [Accept delivery_http, Answer delivery_http rs, Answer delivery_http rs', Drained, Exit] q
     \<and> ps_phase p \<noteq> Serving \<and> ps_idle p = 1 \<and> ps_phase q = Exited 0"
proof -
  let ?w = "sample_world 1 sample_db" and ?sv = sample_services and ?hx = delivery_http
  obtain rs w1 where s: "serve ?sv (wk_stats new_worker) sample_entropy ?hx ?w = (rs, w1)" by fastforce
  obtain rs' w2 where s': "serve ?sv (wk_stats new_worker) sample_entropy ?hx w1 = (rs', w2)" by fastforce
  let ?p = "\<lambda>ph stop l n fl w. \<lparr>ps_phase = ph, ps_stopped = stop, ps_handled = True, ps_listener = l, ps_idle = n,
      ps_inflight = fl, ps_working = True, ps_queries = 0, ps_work_query = False, ps_worker = new_worker, ps_world = w\<rparr>"
  let ?d = "Draining shutdown_timeout"
  have a: "life ?sv (?p Serving False Unopened 0 [] ?w) Listen (?p Serving False Listening 0 [] ?w)"
    "life ?sv (?p Serving False Listening 0 [] ?w) Connect (?p Serving False Listening 1 [] ?w)"
    "life ?sv (?p Serving False Listening 1 [] ?w) Connect (?p Serving False Listening 2 [] ?w)"
    "life ?sv (?p Serving False Listening 2 [] ?w) (Accept ?hx) (?p Serving False Listening 1 [?hx] ?w)"
    "life ?sv (?p Serving False Listening 1 [?hx] ?w) Signal (?p Serving True Listening 1 [?hx] ?w)"
    "life ?sv (?p Serving True Listening 1 [?hx] ?w) (Shut_down 0) (?p ?d True Shut 1 [?hx] ?w)"
    by (simp_all add: life_simps)
  then have p: "lives ?sv (?p Serving False Unopened 0 [] ?w) serving_trace (?p ?d True Shut 1 [?hx] ?w)"
    unfolding serving_trace_def by (blast intro: lives_Cons lives.start)
  have "life ?sv (?p ?d True Shut 1 [?hx] ?w) (Accept ?hx) (?p ?d True Shut 0 [?hx, ?hx] ?w)"
    "life ?sv (?p ?d True Shut 0 [] w2) Drained (?p Closing True Shut 0 [] w2)"
    "life ?sv (?p Closing True Shut 0 [] w2) Exit (?p (Exited 0) True Shut 0 [] w2)"
    by (simp_all add: life_simps)
  moreover have "life ?sv (?p ?d True Shut 0 [?hx, ?hx] ?w) (Answer ?hx rs) (?p ?d True Shut 0 [?hx] w1)"
    using life.answer [where p = "?p ?d True Shut 0 [?hx, ?hx] ?w" and xs = "[]" and ys = "[?hx]"
        and hx = ?hx and sv = ?sv and rs = rs and w' = w1 and en = sample_entropy and keep = False] s by simp
  moreover have "life ?sv (?p ?d True Shut 0 [?hx] w1) (Answer ?hx rs') (?p ?d True Shut 0 [] w2)"
    using life.answer [where p = "?p ?d True Shut 0 [?hx] w1" and xs = "[]" and ys = "[]"
        and hx = ?hx and sv = ?sv and rs = rs' and w' = w2 and en = sample_entropy and keep = False] s' by simp
  ultimately have "lives ?sv (?p ?d True Shut 1 [?hx] ?w) [Accept ?hx, Answer ?hx rs, Answer ?hx rs', Drained, Exit]
      (?p (Exited 0) True Shut 0 [] w2)"
    by (blast intro: lives_Cons lives.start)
  with p show ?thesis unfolding launch_def
    by (intro exI [of _ rs] exI [of _ rs'] exI [of _ "?p ?d True Shut 1 [?hx] ?w"]
        exI [of _ "?p (Exited 0) True Shut 0 [] w2"]) simp
qed



text \<open>C11: the shutdown ends once the database has let go. When the process is told to stop, \<open>main\<close> has at most three steps
  left and takes them in order, unless a signal kills it; nothing can make it wait but open connections before
  the deadline and then, in \<open>pool.Close\<close>, statements that still run, for which there is no limit; and from
  every state it can reach its end by its own steps, the clock, and the return of the statements that run then,
  whatever handlers, worker and clients do.\<close>

theorem shutdown_ends:
  assumes "lives sv p tr q" "ps_stopped p"
  shows "(ps_phase q = Killed \<or> length (filter main_step tr) + steps_left (ps_phase q) = steps_left (ps_phase p))
    \<and> (\<not> running q \<or> (\<exists>l r. main_step l \<and> life sv q l r) \<or>
       (\<exists>d. ps_phase q = Draining d \<and> (ps_inflight q \<noteq> [] \<or> 0 < ps_idle q) \<and> w_now (ps_world q) < d) \<or>
       ps_phase q = Closing \<and> (0 < ps_queries q \<or> ps_work_query q))
    \<and> (\<exists>tr' r. lives sv q tr' r \<and> \<not> running r \<and> list_all main_clock_or_return tr')"
proof -
  have "(ps_phase q = Killed \<or> length (filter main_step tr) + steps_left (ps_phase q) = steps_left (ps_phase p))
    \<and> ps_stopped q"
    using assms
  proof induction
    case (step tr q l r)
    with steps_left_step [OF step.hyps(2)] stopped_step [OF step.hyps(2)] exited_stays [OF step.hyps(2)]
    show ?case by (cases "ps_phase r = Killed") auto
  qed simp
  with main_progress [of q sv] stopped_can_end [of q sv] show ?thesis by (auto simp: can_end_def)
qed

theorem shutdown_ends_witness:
  "\<exists>tr r. lives sample_services ((launch new_worker (sample_world 1 sample_db))\<lparr>ps_stopped := True\<rparr>) tr r \<and> \<not> running r"
  using shutdown_ends [OF lives.start, of "(launch new_worker (sample_world 1 sample_db))\<lparr>ps_stopped := True\<rparr>" sample_services]
  by auto

text \<open>C9: in every life of the process, with any provider that start-up accepts and whatever other
  sessions do and messages are lost, the database keeps its invariants and its history, during
  the shutdown and at the exit as well.\<close>

theorem process_keeps_database:
  assumes "new_provider client cfg = Inr (sv_provider sv)" "\<And>c. keeps safe_change (client c)"
    and "db_ok (w_db w)" "env_ok server_step\<^sup>*\<^sup>* w" "lives sv (launch wk w) tr p"
  shows "db_ok (w_db (ps_world p)) \<and> history (w_db w) (w_db (ps_world p))"
  using safe.keeps_lives [OF safe.keeps_accepted_provider [OF assms(1,2)] assms(5)] env_safe [OF assms(4)] assms(3)
  by (auto simp: launch_def safe_change_def)

theorem process_keeps_database_witness:
  "\<exists>p. lives sample_services (launch new_worker (sample_world 1 sample_db)) serving_trace p
     \<and> db_ok (w_db (ps_world p)) \<and> history sample_db (w_db (ps_world p))"
proof -
  have c: "new_provider (\<lambda>c. returnW (Inl ConnError)) sample_config = Inr (sv_provider sample_services)"
    by (simp add: new_provider_def sample_config_def)
  obtain p where p: "lives sample_services (launch new_worker (sample_world 1 sample_db)) serving_trace p"
    using two_lives by blast
  from process_keeps_database [OF c safe.keeps_return _ _ p] p show ?thesis
    by (auto simp: sample_db_ok sample_env_ok)
qed

end
