(* ===== verification/Float_Text.thy ===== *)
theory Float_Text
  imports Json_Encode
begin

text \<open>
  The decimal text of a \<open>float64\<close> reads back as the same number: seventeen digits are enough to
  tell two neighbours apart, and the literal that \<open>encoding/json\<close> writes has the value of the
  digits chosen.
\<close>

section \<open>Seventeen digits are enough\<close>

lemma ulp64_bound:
  assumes "0 < x" shows "x < 2 ^ 53 * ulp64 x"
proof -
  have "x < 2 powi (ilog2 x + 1)" by (rule ilog2_bounds(2) [OF assms])
  also have "\<dots> \<le> 2 powi (max (- 1074) (ilog2 x - 52) + 53)" by (intro power_int_increasing) auto
  also have "\<dots> = 2 ^ 53 * ulp64 x" by (simp add: ulp64_def power_int_add)
  finally show ?thesis .
qed

lemma powi_2_multiple:
  assumes "a \<le> b" obtains k :: int where "(2::rat) powi b = of_int k * 2 powi a"
proof
  have "(2::rat) powi b = 2 powi (b - a) * 2 powi a" by (simp flip: power_int_add)
  then show "(2::rat) powi b = of_int (2 ^ nat (b - a)) * 2 powi a"
    using assms by (simp add: power_int_def)
qed

text \<open>A float is a multiple of the unit of any number close to it.\<close>

lemma close_multiple:
  assumes x: "0 < x" "x = of_int n * ulp64 x" and y: "0 < y" "\<bar>y - x\<bar> < ulp64 x"
  obtains k :: int where "x = of_int k * ulp64 y"
proof (cases "max (- 1074) (ilog2 y - 52) \<le> max (- 1074) (ilog2 x - 52)")
  case True
  from powi_2_multiple [OF this] obtain k where "ulp64 x = of_int k * ulp64 y"
    unfolding ulp64_def by blast
  with x(2) have "x = of_int (n * k) * ulp64 y" by simp
  then show thesis by (rule that)
next
  case False
  then have e: "ilog2 x + 1 \<le> ilog2 y" "max (- 1074) (ilog2 x - 52) \<le> ilog2 y" by linarith+
  from powi_2_multiple [OF e(2)] obtain b where b: "2 powi (ilog2 y) = of_int b * ulp64 x"
    unfolding ulp64_def by blast
  have "x < 2 powi (ilog2 x + 1)" by (rule ilog2_bounds(2) [OF x(1)])
  also have "\<dots> \<le> 2 powi (ilog2 y)" using e(1) by (intro power_int_increasing) auto
  finally have "of_int n * ulp64 x < of_int b * ulp64 x" using x(2) b by simp
  then have "n + 1 \<le> b" by simp
  then have "of_int (n + 1) * ulp64 x \<le> of_int b * ulp64 x"
    by (intro mult_right_mono) (simp_all only: of_int_le_iff order_less_imp_le ulp64_pos)
  then have "x + ulp64 x \<le> 2 powi (ilog2 y)" using x(2) b by (simp add: distrib_right)
  also have "\<dots> \<le> y" by (rule ilog2_bounds(1) [OF y(1)])
  finally show thesis using y(2) by linarith
qed

lemma near_bounds:
  fixes x y :: rat
  assumes "0 < x" "\<bar>y - x\<bar> \<le> x / (2 * 10 ^ 16)"
  shows "0 < y" "x \<le> y * (1 + 1 / 10 ^ 16)"
proof -
  have "x - y \<le> \<bar>y - x\<bar>" by simp
  also note assms(2)
  finally have "19999999999999999 * x \<le> 20000000000000000 * y" by simp
  with assms(1) show "0 < y" "x \<le> y * (1 + 1 / 10 ^ 16)" by simp_all
qed

lemma round64_pos_near:
  assumes x: "0 < x" "round64_pos x = x" and near: "\<bar>y - x\<bar> \<le> x / (2 * 10 ^ 16)"
  shows "round64_pos y = x"
proof -
  note y = near_bounds(1) [OF x(1) near]
  have "x / (2 * 10 ^ 16) < ulp64 x" using ulp64_bound [OF x(1)] ulp64_pos [of x] by (simp del: ulp64_pos)
  with near have "\<bar>y - x\<bar> < ulp64 x" by (rule order_le_less_trans)
  then obtain k where k: "x = of_int k * ulp64 y"
    using close_multiple [OF x(1) _ y] x(2) unfolding round64_pos_def by metis
  have "x / (2 * 10 ^ 16) < ulp64 y / 2"
    using near_bounds(2) [OF x(1) near] ulp64_bound [OF y] ulp64_pos [of y] by (simp del: ulp64_pos)
  with near have "\<bar>y - x\<bar> < ulp64 y / 2" by (rule order_le_less_trans)
  then have "\<bar>y / ulp64 y - of_int k\<bar> < 1 / 2"
  proof -
    have "y / ulp64 y - of_int k = (y - x) / ulp64 y" by (simp add: k diff_divide_distrib)
    then show ?thesis using \<open>\<bar>y - x\<bar> < ulp64 y / 2\<close> by (simp add: field_simps)
  qed
  with round_even_bounds [of "y / ulp64 y"] have "round_even (y / ulp64 y) = k" by linarith
  then show ?thesis using k by (simp add: round64_pos_def)
qed

lemma show_nat_length: "0 < n \<Longrightarrow> 10 ^ (length (show_nat n) - 1) \<le> n \<and> n < 10 ^ length (show_nat n)"
proof (induction n rule: show_nat.induct)
  case (1 n)
  show ?case
  proof (cases "n < 10")
    case True
    with 1 show ?thesis by (subst (1 2) show_nat.simps) simp
  next
    case False
    define l where "l = length (show_nat (n div 10))"
    have "0 < l" using show_nat_nonempty by (simp add: l_def)
    moreover have "10 ^ (l - 1) \<le> n div 10" "n div 10 < 10 ^ l" using 1 False by (simp_all add: l_def)
    ultimately have "10 ^ l \<le> n" "n < 10 ^ Suc l" by (cases l; simp)+
    then show ?thesis using False by (subst (1 2) show_nat.simps) (simp add: l_def)
  qed
qed

lemma dec_exponent_le:
  assumes "0 < x" shows "10 powi (dec_exponent x) \<le> x"
proof (cases "1 \<le> x")
  case True
  define n where "n = nat \<lfloor>x\<rfloor>"
  have "1 \<le> \<lfloor>x\<rfloor>" using True by simp
  then have n: "0 < n" "of_nat n \<le> x" by (simp_all add: n_def)
  have "(10::rat) ^ (length (show_nat n) - 1) \<le> of_nat n"
    using show_nat_length [OF n(1)] by (simp flip: of_nat_le_iff)
  moreover have "dec_exponent x = int (length (show_nat n) - 1)"
    using True show_nat_nonempty [of n] by (simp add: dec_exponent_def n_def Suc_leI of_nat_diff)
  ultimately show ?thesis using n(2) by (metis order_trans power_int_of_nat)
next
  case False
  define n where "n = nat (\<lceil>1 / x\<rceil> - 1)"
  have "1 < 1 / x" using False assms by simp
  then have c: "1 < \<lceil>1 / x\<rceil>" by linarith
  then have "0 < n" by (simp add: n_def)
  from show_nat_length [OF this] have "int n < int (10 ^ length (show_nat n))" by (simp only: of_nat_less_iff)
  moreover have "int n = \<lceil>1 / x\<rceil> - 1" unfolding n_def using c by (intro nat_0_le) linarith
  ultimately have "\<lceil>1 / x\<rceil> \<le> 10 ^ length (show_nat n)" by simp
  then have "1 / x \<le> of_int (10 ^ length (show_nat n))" by (simp only: ceiling_le_iff)
  then have "inverse (10 ^ length (show_nat n)) \<le> x" using assms by (simp add: field_simps)
  then show ?thesis using False by (simp add: dec_exponent_def n_def power_int_minus)
qed

lemma round64_pos_of: "0 < x \<Longrightarrow> round64 x = Some x \<Longrightarrow> round64_pos x = x"
  by (simp add: round64_def Let_def split: if_splits)

lemma nearest_integer:
  "\<bar>of_int (if a - of_int \<lfloor>a\<rfloor> \<le> of_int \<lceil>a\<rceil> - a then \<lfloor>a\<rfloor> else \<lceil>a\<rceil>) - a\<bar> \<le> 1 / 2" for a :: rat
proof -
  have "(of_int \<lceil>a\<rceil> :: rat) \<le> of_int (\<lfloor>a\<rfloor> + 1)"
    using ceiling_diff_floor_le_1 [of a] by (simp only: of_int_le_iff)
  then have "(of_int \<lceil>a\<rceil> :: rat) \<le> of_int \<lfloor>a\<rfloor> + 1" by simp
  with floor_correct [of a] ceiling_correct [of a] show ?thesis by (cases "a - of_int \<lfloor>a\<rfloor> \<le> of_int \<lceil>a\<rceil> - a") auto
qed

lemma n_digits_17:
  assumes x: "0 < x" "round64 x = Some x" shows "n_digits x 17 \<noteq> None"
proof -
  define u where "u = (10::rat) powi (dec_exponent x - 16)"
  define m where "m = (if x / u - of_int \<lfloor>x / u\<rfloor> \<le> of_int \<lceil>x / u\<rceil> - x / u then \<lfloor>x / u\<rfloor> else \<lceil>x / u\<rceil>)"
  have u: "0 < u" "u \<le> x / 10 ^ 16"
    using dec_exponent_le [OF x(1)] by (simp_all add: u_def power_int_diff)
  have "\<bar>of_int m - x / u\<bar> \<le> 1 / 2"
    using nearest_integer [of "x / u"] by (simp only: m_def)
  then have "\<bar>of_int m - x / u\<bar> * u \<le> 1 / 2 * u" using u(1) by (intro mult_right_mono) auto
  moreover have "\<bar>of_int m - x / u\<bar> * u = \<bar>of_int m * u - x\<bar>"
    using u(1) abs_mult [of "of_int m - x / u" u] by (simp add: left_diff_distrib)
  ultimately have near: "\<bar>of_int m * u - x\<bar> \<le> x / (2 * 10 ^ 16)" using u(2) by simp
  then have "0 < of_int m * u" by (rule near_bounds(1) [OF x(1)])
  then have "round64 (of_int m * u) = Some x"
    using round64_pos_near [OF x(1) round64_pos_of [OF x] near] round64_bound [OF x(2)] x(1)
    by (simp only: round64_def Let_def abs_of_pos sgn_pos if_False less_irrefl mult_1 if_True) auto
  then show ?thesis
    unfolding n_digits_def Let_def by (simp add: m_def u_def split: if_splits)
qed

lemma n_digits_reads:
  assumes "n_digits x n = Some m" "0 < x"
  shows "0 < m \<and> round64 (of_nat m * 10 powi (dec_exponent x - int n + 1)) = Some x"
proof -
  define u where "u = (10::rat) powi (dec_exponent x - int n + 1)"
  have "0 < u" by (simp add: u_def)
  obtain k where k: "m = nat k" "k = \<lfloor>x / u\<rfloor> \<or> k = \<lceil>x / u\<rceil>" "round64 (of_int k * u) = Some x"
    using assms(1) unfolding n_digits_def Let_def u_def [symmetric]
    by (auto split: if_splits dest!: find_Some_mem)
  have "0 < x / u" using \<open>0 < u\<close> assms(2) by simp
  then have "0 \<le> k" using k(2) by (auto simp: le_ceiling_iff)
  moreover have "k \<noteq> 0" using k(3) assms(2) by auto
  ultimately show ?thesis using k(1,3) by (simp add: u_def)
qed

lemma shortest_from_reads:
  "n \<le> p \<Longrightarrow> p < n + k \<Longrightarrow> n_digits x p \<noteq> None \<Longrightarrow> shortest_from x n k = (m, q) \<Longrightarrow> n_digits x q = Some m"
proof (induction k arbitrary: n)
  case (Suc k)
  show ?case
  proof (cases "n_digits x n")
    case None
    with Suc.prems have "Suc n \<le> p" by (cases "n = p") auto
    with Suc.IH [of "Suc n"] Suc.prems None show ?thesis by simp
  qed (use Suc.prems in simp)
qed simp

lemma shortest_reads:
  assumes "0 < x" "round64 x = Some x" "shortest x = (m, n)"
  shows "0 < m" "round64 (of_nat m * 10 powi (dec_exponent x - int n + 1)) = Some x"
  using n_digits_reads [OF shortest_from_reads [OF _ _ n_digits_17 [OF assms(1,2)] assms(3) [unfolded shortest_def]] assms(1)]
  by simp_all

section \<open>The literal\<close>

text \<open>The parts of what \<open>format_f\<close> and \<open>format_e\<close> write.\<close>

definition lit_f :: "bool \<Rightarrow> string \<Rightarrow> int \<Rightarrow> num_lit" where
  "lit_f neg ds e =
     (if e < 0 then Num neg ''0'' (zeros (- e - 1) @ ds) None
      else if int (length ds) \<le> e + 1 then Num neg (ds @ zeros (e + 1 - int (length ds))) [] None
      else Num neg (take (nat (e + 1)) ds) (drop (nat (e + 1)) ds) None)"

definition lit_e :: "bool \<Rightarrow> string \<Rightarrow> int \<Rightarrow> num_lit" where
  "lit_e neg ds e =
     Num neg (take 1 ds) (drop 1 ds)
       (Some (if e < 0 then (True, show_nat (nat (- e)))
              else (False, (if e < 10 then ''0'' else []) @ show_nat (nat e))))"

definition float_lit_pos :: "bool \<Rightarrow> rat \<Rightarrow> num_lit" where
  "float_lit_pos neg x =
     (let (m, n) = shortest x; ds = show_nat m;
          e = dec_exponent x + (int (length ds) - int n)
      in if x < 1 / 10 ^ 6 \<or> x \<ge> 10 ^ 21 then lit_e neg ds e else lit_f neg ds e)"

definition float_lit :: "float64 \<Rightarrow> num_lit" where
  "float_lit x =
     (if x = 0 then Num False ''0'' [] None
      else if x < 0 then float_lit_pos True (- x)
      else float_lit_pos False x)"

definition num_text :: "num_lit \<Rightarrow> string" where
  "num_text n =
     (case n of Num s i f e \<Rightarrow>
        (if s then ''-'' else []) @ i @ (if f = [] then [] else CHR ''.'' # f) @
        (case e of None \<Rightarrow> [] | Some (es, ed) \<Rightarrow> CHR ''e'' # (if es then CHR ''-'' else CHR ''+'') # ed))"

lemma num_text_f: "ds \<noteq> [] \<Longrightarrow> num_text (lit_f neg ds e) = (if neg then ''-'' else []) @ format_f ds e"
  by (auto simp: num_text_def lit_f_def format_f_def)

lemma num_text_e: "num_text (lit_e neg ds e) = (if neg then ''-'' else []) @ format_e ds e"
  by (auto simp: num_text_def lit_e_def format_e_def)

theorem float_text_lit: "float_text x = num_text (float_lit x)"
proof -
  have "num_text (float_lit_pos neg y) = (if neg then ''-'' else []) @ float_text_pos y" for neg y
    by (simp add: float_lit_pos_def float_text_pos_def Let_def num_text_f num_text_e show_nat_nonempty split: prod.split)
  then show ?thesis by (simp add: float_text_def float_lit_def) (simp add: num_text_def)
qed

section \<open>Its value\<close>

lemma read_zeros: "read_nat_from acc (zeros n) = acc * 10 ^ nat n"
proof -
  have "read_nat_from acc (replicate k (CHR ''0'')) = acc * 10 ^ k" for k
    by (induction k arbitrary: acc) (simp_all add: byte_of_def)
  then show ?thesis by (simp add: zeros_def)
qed

lemma zeros_length: "length (zeros n) = nat n"
  by (simp add: zeros_def)

lemma lit_f_value:
  "num_value (lit_f neg ds e) =
     (if neg then - 1 else 1) * (of_nat (read_nat_from 0 ds) * 10 powi (e - int (length ds) + 1))"
proof -
  consider (neg) "e < 0" | (long) "\<not> e < 0" "int (length ds) \<le> e + 1" | (point) "\<not> e < 0" "\<not> int (length ds) \<le> e + 1"
    by blast
  then show ?thesis
  proof cases
    case neg
    then show ?thesis
      by (simp add: num_value_def lit_f_def read_nat_from_append read_zeros zeros_length byte_of_def algebra_simps)
  next
    case long
    then have "(10::rat) ^ nat (e + 1 - int (length ds)) = 10 powi (e + 1 - int (length ds))" by (simp add: power_int_def)
    with long show ?thesis
      by (simp add: num_value_def lit_f_def read_nat_from_append read_zeros algebra_simps)
  next
    case point
    then show ?thesis by (simp add: num_value_def lit_f_def of_nat_diff algebra_simps)
  qed
qed

lemma lit_e_value:
  assumes "ds \<noteq> []"
  shows "num_value (lit_e neg ds e) =
     (if neg then - 1 else 1) * (of_nat (read_nat_from 0 ds) * 10 powi (e - int (length ds) + 1))"
proof -
  obtain c cs where "ds = c # cs" using assms by (cases ds) auto
  then show ?thesis
    by (auto simp: num_value_def lit_e_def read_show_nat byte_of_def)
qed

lemma float_lit_pos_reads:
  assumes "0 < x" "round64 x = Some x"
  shows "round64 (num_value (float_lit_pos neg x)) = Some (if neg then - x else x)"
proof -
  obtain m n where mn: "shortest x = (m, n)" by fastforce
  define v where "v = of_nat m * (10::rat) powi (dec_exponent x - int n + 1)"
  note r = shortest_reads [OF assms mn]
  have v: "0 < v" "round64 v = Some x" using r by (simp_all add: v_def)
  have "num_value (float_lit_pos neg x) = (if neg then - 1 else 1) * v"
    by (simp add: float_lit_pos_def mn lit_e_value lit_f_value show_nat_nonempty read_show_nat v_def Let_def)
  moreover have "round64 (- v) = Some (- x)"
    using v by (auto simp: round64_def Let_def split: if_splits)
  ultimately show ?thesis using v by simp
qed

theorem float_lit_reads: "round64 x = Some x \<Longrightarrow> round64 (num_value (float_lit x)) = Some x"
proof (cases x "0 :: rat" rule: linorder_cases)
  case less
  assume "round64 x = Some x"
  then have "round64 (- x) = Some (- x)" using less by (auto simp: round64_def Let_def split: if_splits)
  with less show ?thesis using float_lit_pos_reads [of "- x" True] by (simp add: float_lit_def)
next
  case greater
  assume "round64 x = Some x"
  with greater show ?thesis using float_lit_pos_reads [of x False] by (simp add: float_lit_def)
qed (simp add: float_lit_def num_value_def byte_of_def)

text \<open>What a decoder returns is a float, so writing it and reading it again changes nothing.\<close>

lemma round64_pos_idem:
  assumes "0 < x" shows "round64_pos x = 0 \<or> 0 < round64_pos x \<and> round64_pos (round64_pos x) = round64_pos x"
proof -
  define n e where "n = round_even (x / ulp64 x)" and "e = max (- 1074) (ilog2 x - 52)"
  have r: "round64_pos x = of_int n * 2 powi e" by (simp add: round64_pos_def n_def e_def ulp64_def)
  have "x / ulp64 x < 2 ^ 53" using ulp64_bound [OF assms] ulp64_pos [of x] by (simp add: field_simps)
  then have "round_even (x / ulp64 x) \<le> round_even (of_int (2 ^ 53))" by (intro round_even_mono) simp
  then have hi: "n \<le> 2 ^ 53" by (simp only: n_def round_even_int)
  have "0 \<le> round64_pos x" using assms by (intro round64_pos_nonneg) simp
  then have lo: "0 \<le> n" using powi_2_pos [of e] by (auto simp: r zero_le_mult_iff simp del: powi_2_pos)
  consider "n = 0" | "0 < n" "n < 2 ^ 53" | "n = 2 ^ 53" using lo hi by linarith
  then show ?thesis
  proof cases
    case 2
    then show ?thesis using round64_pos_exact [of n e] by (simp add: r e_def)
  next
    case 3
    then have "round64_pos x = of_int (2 ^ 52) * 2 powi (e + 1)" by (simp add: r power_int_add)
    then show ?thesis using round64_pos_exact [of "2 ^ 52" "e + 1"] by (simp add: e_def)
  qed (simp add: r)
qed

theorem round64_idem: "round64 x = Some v \<Longrightarrow> round64 v = Some v"
proof -
  assume v: "round64 x = Some v"
  then have b: "\<bar>v\<bar> < 2 ^ 1024" by (rule round64_bound)
  consider "x = 0" | "0 < x" | "x < 0" by linarith
  then show ?thesis
  proof cases
    case 2
    with v have "v = round64_pos x" by (auto simp: round64_def Let_def split: if_splits)
    with round64_pos_idem [OF 2] b show ?thesis by (auto simp: round64_def)
  next
    case 3
    with v have "v = - round64_pos (- x)" by (auto simp: round64_def Let_def split: if_splits)
    with round64_pos_idem [of "- x"] 3 b show ?thesis by (auto simp: round64_def)
  qed (use v in simp)
qed

section \<open>Lexing\<close>

definition num_ok :: "num_lit \<Rightarrow> bool" where
  "num_ok n \<longleftrightarrow>
     (case n of Num s i f e \<Rightarrow>
        i \<noteq> [] \<and> list_all is_digit (i @ f) \<and> (hd i = CHR ''0'' \<longrightarrow> tl i = []) \<and>
        (case e of None \<Rightarrow> True | Some (es, ed) \<Rightarrow> ed \<noteq> [] \<and> list_all is_digit ed))"

text \<open>What may follow a number.\<close>

definition ends :: "string \<Rightarrow> bool" where
  "ends r \<longleftrightarrow> (case r of [] \<Rightarrow> True | c # _ \<Rightarrow> \<not> is_digit c \<and> c \<notin> {CHR ''.'', CHR ''e'', CHR ''E''})"

lemma span_digits:
  "list_all is_digit ds \<Longrightarrow> (case r of [] \<Rightarrow> True | c # _ \<Rightarrow> \<not> is_digit c) \<Longrightarrow>
   takeWhile is_digit (ds @ r) = ds \<and> dropWhile is_digit (ds @ r) = r"
  by (induction ds) (auto split: list.splits)

lemma not_digits [simp]: "\<not> is_digit (CHR ''-'')" "\<not> is_digit (CHR ''.'')" "\<not> is_digit (CHR ''e'')" "\<not> is_digit (CHR ''+'')"
  by (simp_all add: is_digit_def byte_of_def)

lemma lex_digits_span:
  "ds \<noteq> [] \<Longrightarrow> list_all is_digit ds \<Longrightarrow> (case r of [] \<Rightarrow> True | c # _ \<Rightarrow> \<not> is_digit c) \<Longrightarrow>
   lex_digits (ds @ r) = Some (ds, r)"
  using span_digits [of ds r] by (simp add: lex_digits_def)

lemma lex_int_span:
  assumes "i \<noteq> []" "list_all is_digit i" "hd i = CHR ''0'' \<longrightarrow> tl i = []"
    and "case r of [] \<Rightarrow> True | c # _ \<Rightarrow> \<not> is_digit c"
  shows "lex_int (i @ r) = Some (i, r)"
proof (cases i)
  case (Cons c cs)
  with assms span_digits [of cs r] show ?thesis by (auto simp: lex_int_def)
qed (use assms in simp)

lemma lex_exp_text:
  assumes "case e of None \<Rightarrow> True | Some (es, ed) \<Rightarrow> ed \<noteq> [] \<and> list_all is_digit ed" "ends r"
  shows "lex_exp ((case e of None \<Rightarrow> [] | Some (es, ed) \<Rightarrow> CHR ''e'' # (if es then CHR ''-'' else CHR ''+'') # ed) @ r)
    = Some (e, r)"
proof (cases e)
  case None
  with assms(2) show ?thesis by (auto simp: lex_exp_def ends_def split: list.splits)
next
  case (Some p)
  obtain es ed where p: "p = (es, ed)" by fastforce
  have "case r of [] \<Rightarrow> True | c # _ \<Rightarrow> \<not> is_digit c" using assms(2) by (auto simp: ends_def split: list.splits)
  with assms(1) Some p show ?thesis by (auto simp: lex_exp_def lex_digits_span)
qed

theorem lex_num_text:
  assumes "num_ok n" "ends r" shows "lex_num (num_text n @ r) = Some (n, r)"
proof -
  obtain s i f e where n: "n = Num s i f e" by (cases n)
  define et where "et = (case e of None \<Rightarrow> [] | Some (es, ed) \<Rightarrow> CHR ''e'' # (if es then CHR ''-'' else CHR ''+'') # ed)"
  have i: "i \<noteq> []" "list_all is_digit i" "hd i = CHR ''0'' \<longrightarrow> tl i = []" and f: "list_all is_digit f"
    and e: "case e of None \<Rightarrow> True | Some (es, ed) \<Rightarrow> ed \<noteq> [] \<and> list_all is_digit ed"
    using assms(1) by (simp_all add: num_ok_def n)
  have nd: "case et @ r of [] \<Rightarrow> True | c # _ \<Rightarrow> \<not> is_digit c"
    using assms(2) by (auto simp: et_def ends_def split: option.splits list.splits)
  have x: "lex_exp (et @ r) = Some (e, r)" unfolding et_def by (rule lex_exp_text [OF e assms(2)])
  have fr: "lex_frac ((if f = [] then [] else CHR ''.'' # f) @ et @ r) = Some (f, et @ r)"
  proof (cases f)
    case Nil
    with assms(2) show ?thesis
      by (cases e) (auto simp: lex_frac_def et_def ends_def split: list.splits)
  next
    case Cons
    with f nd show ?thesis using lex_digits_span [of f "et @ r"] by (simp add: lex_frac_def)
  qed
  have "case (if f = [] then [] else CHR ''.'' # f) @ et @ r of [] \<Rightarrow> True | c # _ \<Rightarrow> \<not> is_digit c"
    using nd by simp
  from lex_int_span [OF i this] have li: "lex_int (i @ (if f = [] then [] else CHR ''.'' # f) @ et @ r)
      = Some (i, (if f = [] then [] else CHR ''.'' # f) @ et @ r)" .
  obtain c cs where c: "i = c # cs" using i(1) by (cases i) auto
  then have "c \<noteq> CHR ''-''" using i(2) by auto
  with li fr x show ?thesis
    unfolding n num_text_def num_lit.case et_def [symmetric]
    by (cases s) (simp_all add: lex_num_def c)
qed

lemma show_nat_head: "0 < n \<Longrightarrow> hd (show_nat n) \<noteq> CHR ''0''"
proof (induction n rule: show_nat.induct)
  case (1 n)
  show ?case
  proof (cases "n < 10")
    case True
    have "char_of (48 + n) \<noteq> CHR ''0''"
    proof
      assume "char_of (48 + n) = CHR ''0''"
      then have "byte_of (char_of (48 + n)) = 48" by (simp add: byte_of_def)
      with True 1 show False by (simp add: byte_of_char_of)
    qed
    with True show ?thesis by (subst show_nat.simps) simp
  next
    case False
    with 1 show ?thesis using show_nat_nonempty [of "n div 10"] by (subst show_nat.simps) simp
  qed
qed

lemma zeros_digits: "list_all is_digit (zeros n)"
  by (simp add: zeros_def list_all_iff is_digit_def byte_of_def)

lemma list_all_digits_show [simp]: "list_all is_digit (show_nat n)"
  by (rule show_nat_digits)

definition int_lit :: "int \<Rightarrow> num_lit" where
  "int_lit i = Num (i < 0) (show_nat (nat \<bar>i\<bar>)) [] None"

lemma int_lit_ok: "num_ok (int_lit i)"
proof (cases "i = 0")
  case True
  have "show_nat 0 = ''0''" by code_simp
  with True show ?thesis by (simp add: num_ok_def int_lit_def is_digit_def byte_of_def)
next
  case False
  then show ?thesis using show_nat_head [of "nat \<bar>i\<bar>"]
    by (simp add: num_ok_def int_lit_def show_nat_nonempty)
qed

lemma int_lit_reads: "- (2 ^ 63) \<le> i \<Longrightarrow> i < 2 ^ 63 \<Longrightarrow> dec_int (JNum (int_lit i)) old = Some i"
  by (simp add: dec_int_def int_lit_def read_show_nat)

lemma float_lit_ok: "round64 x = Some x \<Longrightarrow> num_ok (float_lit x)"
proof -
  have f: "num_ok (lit_f neg (show_nat m) e)" if "0 < m" for neg m e
    using show_nat_digits [of m] show_nat_nonempty [of m] show_nat_head [OF that] zeros_digits
    by (cases "show_nat m") (auto simp: num_ok_def lit_f_def is_digit_def byte_of_def list_all_take_drop)
  have e: "num_ok (lit_e neg (show_nat m) e)" for neg m e
    using show_nat_digits [of m] show_nat_digits [of "nat e"] show_nat_digits [of "nat (- e)"] show_nat_nonempty
    by (cases "show_nat m") (auto simp: num_ok_def lit_e_def is_digit_def byte_of_def)
  have "num_ok (float_lit_pos neg y)" if "0 < y" "round64 y = Some y" for neg y
    using shortest_reads(1) [OF that] f e by (simp add: float_lit_pos_def Let_def split: prod.split)
  moreover assume "round64 x = Some x"
  moreover from this have "round64 (- x) = Some (- x)" if "x < 0"
    using that by (auto simp: round64_def Let_def split: if_splits)
  ultimately show ?thesis
    by (auto simp: float_lit_def) (simp add: num_ok_def is_digit_def byte_of_def)
qed

end
