(* ===== verification/Json_Text.thy ===== *)
theory Json_Text
  imports Float_Text
begin

text \<open>
  \<open>json.Encoder.Encode\<close> as \<open>WriteJSON\<close> uses it: the text of a value without white space, and
  a proof that the decoder of \<open>Json\<close> reads every text it writes back as the same value.
\<close>

section \<open>Text\<close>

fun json_text :: "json \<Rightarrow> string" where
  "json_text JNull = ''null''"
| "json_text (JBool b) = (if b then ''true'' else ''false'')"
| "json_text (JNum n) = num_text n"
| "json_text (JStr s) = json_quote s"
| "json_text (JArr vs) = ''['' @ join (map json_text vs) '','' @ '']''"
| "json_text (JObj ms) = ''{'' @ join (map (\<lambda>(k, v). json_quote k @ '':'' @ json_text v) ms) '','' @ ''}''"

section \<open>Strings\<close>

text \<open>Valid UTF-8, which is what a column of type \<open>text\<close> or \<open>jsonb\<close> holds.\<close>

function utf8_ok :: "string \<Rightarrow> bool" where
  "utf8_ok s =
     (if s = [] then True else if utf8_width s = 0 then False else utf8_ok (drop (utf8_width s) s))"
  by pat_completeness auto
termination by (relation "measure length") auto

declare utf8_ok.simps [simp del]

lemma utf8_ok_Nil [simp]: "utf8_ok []"
  by (subst utf8_ok.simps) simp

lemma utf8_width_ascii: "is_ascii c \<Longrightarrow> utf8_width (c # s) = 1"
  by (simp add: utf8_width_def byte_in_def is_ascii_def Let_def)

lemma utf8_ok_ascii: "list_all is_ascii s \<Longrightarrow> utf8_ok s"
proof (induction s)
  case (Cons c s)
  then show ?case by (subst utf8_ok.simps) (simp add: utf8_width_ascii)
qed simp

text \<open>The width is decided by the bytes it spans.\<close>

abbreviation cont :: "string \<Rightarrow> nat \<Rightarrow> bool" where
  "cont \<equiv> byte_in 0x80 0xBF"

definition lead2 :: "string \<Rightarrow> bool" where
  "lead2 s \<longleftrightarrow> byte_in 0xC2 0xDF s 0 \<and> cont s 1"

definition lead3 :: "string \<Rightarrow> bool" where
  "lead3 s \<longleftrightarrow>
     byte_in 0xE0 0xE0 s 0 \<and> byte_in 0xA0 0xBF s 1 \<and> cont s 2 \<or>
     (byte_in 0xE1 0xEC s 0 \<or> byte_in 0xEE 0xEF s 0) \<and> cont s 1 \<and> cont s 2 \<or>
     byte_in 0xED 0xED s 0 \<and> byte_in 0x80 0x9F s 1 \<and> cont s 2"

definition lead4 :: "string \<Rightarrow> bool" where
  "lead4 s \<longleftrightarrow>
     byte_in 0xF0 0xF0 s 0 \<and> byte_in 0x90 0xBF s 1 \<and> cont s 2 \<and> cont s 3 \<or>
     byte_in 0xF1 0xF3 s 0 \<and> cont s 1 \<and> cont s 2 \<and> cont s 3 \<or>
     byte_in 0xF4 0xF4 s 0 \<and> byte_in 0x80 0x8F s 1 \<and> cont s 2 \<and> cont s 3"

lemma if_merge: "(if a then x else if b then x else c) = (if a \<or> b then x else c)"
  by simp

lemma utf8_width_leads:
  "utf8_width s =
     (if byte_in 0 0x7F s 0 then 1 else if lead2 s then 2 else if lead3 s then 3 else if lead4 s then 4 else 0)"
  by (simp only: utf8_width_def lead2_def lead3_def lead4_def Let_def if_merge)

lemma leads_exclusive:
  "lead2 s \<Longrightarrow> \<not> byte_in 0 0x7F s 0" "lead3 s \<Longrightarrow> \<not> byte_in 0 0x7F s 0 \<and> \<not> lead2 s"
  "lead4 s \<Longrightarrow> \<not> byte_in 0 0x7F s 0 \<and> \<not> lead2 s \<and> \<not> lead3 s"
  by (auto simp: lead2_def lead3_def lead4_def byte_in_def)

lemma byte_in_take: "i < n \<Longrightarrow> n \<le> length s \<Longrightarrow> byte_in lo hi (take n s @ r) i = byte_in lo hi s i"
  by (simp add: byte_in_def nth_append)

lemma lead_length: "lead2 s \<Longrightarrow> 2 \<le> length s" "lead3 s \<Longrightarrow> 3 \<le> length s" "lead4 s \<Longrightarrow> 4 \<le> length s"
  by (auto simp: lead2_def lead3_def lead4_def byte_in_def)

lemma utf8_width_length: "utf8_width s \<le> length s"
  using lead_length [of s] by (auto simp: utf8_width_leads byte_in_def Suc_leI)

lemma utf8_width_local:
  assumes "utf8_width s \<noteq> 0" shows "utf8_width (take (utf8_width s) s @ r) = utf8_width s"
proof -
  consider (1) "byte_in 0 0x7F s 0" | (2) "lead2 s" | (3) "lead3 s" | (4) "lead4 s"
    using assms by (auto simp: utf8_width_leads split: if_splits)
  then show ?thesis
  proof cases
    case 1
    then have "utf8_width s = 1" "1 \<le> length s" by (simp_all add: utf8_width_leads byte_in_def Suc_leI)
    with 1 show ?thesis by (simp add: utf8_width_leads [of "_ @ r"] byte_in_take)
  next
    case 2
    then have w: "utf8_width s = 2" by (simp add: utf8_width_leads leads_exclusive)
    have "lead2 (take 2 s @ r)" using 2 lead_length(1) [OF 2] by (simp add: lead2_def byte_in_take)
    then show ?thesis by (simp add: w utf8_width_leads [of "_ @ r"] leads_exclusive)
  next
    case 3
    then have w: "utf8_width s = 3" by (simp add: utf8_width_leads leads_exclusive)
    have "lead3 (take 3 s @ r)" using 3 lead_length(2) [OF 3] by (simp add: lead3_def byte_in_take)
    then show ?thesis by (simp add: w utf8_width_leads [of "_ @ r"] leads_exclusive)
  next
    case 4
    then have w: "utf8_width s = 4" by (simp add: utf8_width_leads leads_exclusive)
    have "lead4 (take 4 s @ r)" using 4 lead_length(3) [OF 4] by (simp add: lead4_def byte_in_take)
    then show ?thesis by (simp add: w utf8_width_leads [of "_ @ r"] leads_exclusive)
  qed
qed

text \<open>What the encoder writes for one character, the decoder reads as that character.\<close>

lemma hex_value_mod: "hex_value (hex_digit n) = Some (n mod 16)"
  using hex_value_digit [of "n mod 16"] by (simp add: hex_digit_def)

lemma hex4_u_escape:
  assumes "n < 0x10000"
  shows "hex4 (hex_digit (n div 4096) # hex_digit (n div 256) # hex_digit (n div 16) # hex_digit n # r) = Some (n, r)"
proof -
  define a b c where "a = n div 16" and "b = a div 16" and "c = b div 16"
  have "n = 16 * a + n mod 16" "a = 16 * b + a mod 16" "b = 16 * c + b mod 16"
    by (simp_all add: a_def b_def c_def)
  moreover have d: "n div 256 = b" "n div 4096 = c" by (simp_all add: a_def b_def c_def flip: div_mult2_eq)
  moreover from this have "c mod 16 = c" using assms by simp
  ultimately have "c mod 16 * 4096 + b mod 16 * 256 + a mod 16 * 16 + n mod 16 = n" by linarith
  then show ?thesis by (simp only: hex4.simps hex_value_mod d prod.case option.case flip: a_def)
qed

lemma escape_u_escape:
  assumes "n < 0xD800" shows "parse_chars (u_escape n @ r) = map_option (\<lambda>(u, r'). (utf8_encode n @ u, r')) (parse_chars r)"
  using assms hex4_u_escape [of n]
  by (subst parse_chars.simps) (simp add: u_escape_def escape_def unicode_escape_def del: hex4.simps)

lemma parse_ascii:
  assumes "is_ascii c" "c \<noteq> CHR 0x22" "c \<noteq> CHR 0x5C" "0x20 \<le> byte_of c"
  shows "parse_chars (c # r) = map_option (\<lambda>(u, r'). (c # u, r')) (parse_chars r)"
  using assms by (subst parse_chars.simps) (simp add: utf8_width_ascii)

lemma parse_backslash:
  "escape (c # r) = Some (t, r) \<Longrightarrow> parse_chars (CHR 0x5C # c # r) = map_option (\<lambda>(u, r'). (t @ u, r')) (parse_chars r)"
  by (subst parse_chars.simps) simp

lemma parse_escape_byte:
  assumes "is_ascii c"
  shows "parse_chars (escape_byte c @ r) = map_option (\<lambda>(u, r'). (c # u, r')) (parse_chars r)"
proof (cases "byte_of c < 0x20 \<or> c = CHR ''<'' \<or> c = CHR ''>'' \<or> c = CHR ''&''")
  case True
  have "byte_of c < 0x80" using assms by (simp add: is_ascii_def)
  then have "utf8_encode (byte_of c) = [c]" "byte_of c < 0xD800" by (simp_all add: utf8_encode_def byte_of_def)
  with True show ?thesis
    using escape_u_escape [of "byte_of c" r]
    by (auto simp: escape_byte_def parse_backslash escape_def)
next
  case False
  then show ?thesis using assms by (auto simp: escape_byte_def parse_backslash escape_def parse_ascii not_less)
qed

lemma parse_escape_next:
  assumes "s \<noteq> []" "utf8_width s \<noteq> 0"
  shows "snd (escape_next s) = utf8_width s \<and>
    parse_chars (fst (escape_next s) @ r) = map_option (\<lambda>(u, r'). (take (utf8_width s) s @ u, r')) (parse_chars r)"
proof (cases "is_ascii (hd s)")
  case True
  then show ?thesis using assms(1) utf8_width_ascii [of "hd s" "tl s"]
    by (cases s) (simp_all add: escape_next_def parse_escape_byte)
next
  case False
  obtain c cs where s: "s = c # cs" using assms(1) by (cases s) auto
  obtain k where k: "utf8_width s = Suc k" using assms(2) by (cases "utf8_width s") auto
  define t where "t = take (utf8_width s) s"
  have t: "t = c # take k cs" by (simp only: t_def k) (simp add: s)
  have "c \<noteq> CHR 0x22" "c \<noteq> CHR 0x5C" "\<not> byte_of c < 0x20"
    using False by (auto simp: s is_ascii_def byte_of_def)
  moreover have "utf8_width (t @ r) = Suc k" "length (take k cs) = k"
    using utf8_width_local [OF assms(2)] utf8_width_length [of s] unfolding t_def k by (simp_all add: s)
  ultimately have raw: "parse_chars (t @ r) = map_option (\<lambda>(u, r'). (t @ u, r')) (parse_chars r)"
    by (subst parse_chars.simps) (simp add: t)
  have sep: "utf8_encode 0x2028 = line_separators ! 0" "utf8_encode 0x2029 = line_separators ! 1"
    by (simp_all add: utf8_encode_def line_separators_def byte_of_char_of flip: byte_of_inject) (simp_all add: byte_of_def)
  have e: "escape_next s = (if t = line_separators ! 0 then u_escape 0x2028 else if t = line_separators ! 1 then u_escape 0x2029 else t,
      utf8_width s)"
    using False assms(2) unfolding escape_next_def Let_def t_def by simp
  show ?thesis
    using raw escape_u_escape [of "0x2028" r] escape_u_escape [of "0x2029" r]
    unfolding e sep t_def [symmetric] fst_conv snd_conv by (simp split: if_split)
qed

theorem parse_escape_chars:
  "utf8_ok s \<Longrightarrow> parse_chars (escape_chars s @ CHR 0x22 # r) = Some (s, r)"
proof (induction s rule: utf8_ok.induct)
  case (1 s)
  show ?case
  proof (cases "s = []")
    case True
    then show ?thesis by (subst escape_chars.simps, subst parse_chars.simps) simp
  next
    case False
    with "1.prems" have w: "utf8_width s \<noteq> 0" "utf8_ok (drop (utf8_width s) s)"
      by (subst (asm) utf8_ok.simps; simp split: if_splits)+
    note n = parse_escape_next [OF False w(1)]
    have "escape_chars s = fst (escape_next s) @ escape_chars (drop (utf8_width s) s)"
      using False n [of r] by (subst escape_chars.simps) simp
    then show ?thesis using n "1.IH" [OF False w] by simp
  qed
qed

section \<open>Values\<close>

text \<open>What can be written so that it reads back: valid strings and numbers, within the nesting the
  reader allows.\<close>

fun writable :: "nat \<Rightarrow> json \<Rightarrow> bool" where
  "writable d JNull = True"
| "writable d (JBool b) = True"
| "writable d (JNum n) = num_ok n"
| "writable d (JStr s) = utf8_ok s"
| "writable d (JArr vs) = (0 < d \<and> list_all (writable (d - 1)) vs)"
| "writable d (JObj ms) = (0 < d \<and> list_all (\<lambda>(k, v). utf8_ok k \<and> writable (d - 1) v) ms)"

lemma json_space_not [simp]:
  "\<not> json_space (CHR ''n'')" "\<not> json_space (CHR ''t'')" "\<not> json_space (CHR ''f'')" "\<not> json_space (CHR 0x22)"
  "\<not> json_space (CHR 0x5B)" "\<not> json_space (CHR 0x5D)" "\<not> json_space (CHR 0x7B)" "\<not> json_space (CHR 0x7D)"
  "\<not> json_space (CHR 0x2C)" "\<not> json_space (CHR 0x3A)"
  by (simp_all add: json_space_def)

lemma skip_ws_Cons [simp]: "\<not> json_space c \<Longrightarrow> skip_ws (c # s) = c # s"
  by (simp add: skip_ws_def)

lemma ends_simps [simp]: "ends []" "ends (CHR 0x2C # r)" "ends (CHR 0x5D # r)" "ends (CHR 0x7D # r)" "ends (CHR 0x0A # r)"
  by (simp_all add: ends_def is_digit_def byte_of_def)

text \<open>The first character of a value's text.\<close>

definition starts :: "char \<Rightarrow> bool" where
  "starts c \<longleftrightarrow> \<not> json_space c \<and> c \<noteq> CHR 0x5D \<and> c \<noteq> CHR 0x7D"

lemma num_text_start:
  assumes "num_ok n" obtains c cs where "num_text n = c # cs" "c = CHR ''-'' \<or> is_digit c"
proof -
  obtain s i f e where n: "n = Num s i f e" by (cases n)
  with assms obtain c cs where "i = c # cs" "is_digit c" by (cases i) (auto simp: num_ok_def)
  with n show thesis by (cases s) (auto simp: num_text_def intro: that)
qed

lemma json_text_start:
  assumes "writable d v" obtains c cs where "json_text v = c # cs" "starts c"
proof (cases v)
  case (JNum n)
  with assms obtain c cs where "num_text n = c # cs" "c = CHR ''-'' \<or> is_digit c"
    by (auto elim: num_text_start)
  moreover from this(2) have "starts c" by (auto simp: starts_def json_space_def is_digit_def byte_of_def)
  ultimately show thesis using that JNum by simp
next
  case (JBool b)
  then show thesis using that by (cases b) (auto simp: starts_def)
qed (auto simp: starts_def json_quote_def intro: that split: if_splits)

lemma join_Cons: "xs \<noteq> [] \<Longrightarrow> join (x # xs) sep = x @ sep @ join xs sep"
  by (cases xs) auto

text \<open>\<open>reads v\<close>: the text of \<open>v\<close> reads back, whatever comes after it.\<close>

definition reads_back :: "json \<Rightarrow> bool" where
  "reads_back v \<longleftrightarrow> (\<forall>d r. writable d v \<longrightarrow> ends r \<longrightarrow> parse_val d (json_text v @ r) = Some (v, r))"

lemma parse_elems_text:
  assumes "\<forall>v\<in>set vs. reads_back v" "vs \<noteq> []" "list_all (writable d) vs"
  shows "parse_elems d (join (map json_text vs) '','' @ CHR 0x5D # r) = Some (vs, r)"
  using assms
proof (induction vs)
  case (Cons v vs)
  have v: "parse_val d (json_text v @ c # q) = Some (v, c # q)" if "ends (c # q)" for c q
    using Cons.prems that by (simp add: reads_back_def)
  show ?case
  proof (cases "vs = []")
    case True
    then show ?thesis by (subst parse_elems_eq) (simp add: v)
  next
    case False
    then show ?thesis
      using Cons.IH Cons.prems by (subst parse_elems_eq) (simp add: v join_Cons)
  qed
qed simp

lemma parse_members_text:
  assumes "\<forall>(k, v)\<in>set ms. reads_back v" "ms \<noteq> []" "list_all (\<lambda>(k, v). utf8_ok k \<and> writable d v) ms"
  shows "parse_members d (join (map (\<lambda>(k, v). json_quote k @ '':'' @ json_text v) ms) '','' @ CHR 0x7D # r) = Some (ms, r)"
  using assms
proof (induction ms)
  case (Cons m ms)
  obtain k v where m: "m = (k, v)" by fastforce
  have v: "parse_val d (json_text v @ c # q) = Some (v, c # q)" if "ends (c # q)" for c q
    using Cons.prems that by (simp add: reads_back_def m)
  have k: "parse_chars (escape_chars k @ CHR 0x22 # q) = Some (k, q)" for q
    using Cons.prems by (intro parse_escape_chars) (simp add: m)
  show ?case
  proof (cases "ms = []")
    case True
    then show ?thesis by (subst parse_members_eq) (simp add: v m k json_quote_def)
  next
    case False
    then show ?thesis
      using Cons.IH Cons.prems by (subst parse_members_eq) (simp add: v join_Cons m k json_quote_def)
  qed
qed simp

lemma value_reads_back: "reads_back v"
proof (induction v)
  case (JBool b)
  then show ?case by (cases b) (simp_all add: reads_back_def parse_val.simps lex_lit_def prefix_def)
next
  case (JNum n)
  show ?case unfolding reads_back_def
  proof (intro allI impI)
    fix d r assume w: "writable d (JNum n)" "ends r"
    then obtain c cs where c: "num_text n = c # cs" "c = CHR ''-'' \<or> is_digit c"
      by (auto elim: num_text_start)
    then have "\<not> json_space c" "c \<notin> {CHR 0x7B, CHR 0x5B, CHR 0x22, CHR ''t'', CHR ''f'', CHR ''n''}"
      by (auto simp: json_space_def is_digit_def byte_of_def)
    then show "parse_val d (json_text (JNum n) @ r) = Some (JNum n, r)"
      using lex_num_text [of n r] w c(1) by (subst parse_val.simps) simp
  qed
next
  case (JStr s)
  show ?case by (simp add: reads_back_def parse_val.simps json_quote_def parse_escape_chars)
next
  case (JArr vs)
  show ?case unfolding reads_back_def
  proof (intro allI impI)
    fix d r assume w: "writable d (JArr vs)" "ends r"
    show "parse_val d (json_text (JArr vs) @ r) = Some (JArr vs, r)"
    proof (cases vs)
      case Nil
      with w show ?thesis by (subst parse_val.simps) simp
    next
      case (Cons v vs')
      have "writable (d - 1) v" using w(1) Cons by simp
      then obtain c cs where c: "json_text v = c # cs" "starts c" by (rule json_text_start)
      define t where "t = join (map json_text vs) '','' @ CHR 0x5D # r"
      have "\<exists>q. t = c # q" using c(1) by (cases vs') (auto simp: t_def Cons)
      then have "skip_ws t \<noteq> [] \<and> hd (skip_ws t) \<noteq> CHR 0x5D" using c(2) by (auto simp: starts_def)
      moreover have "parse_elems (d - 1) t = Some (vs, r)"
        unfolding t_def using w(1) JArr by (intro parse_elems_text) (auto simp: Cons)
      moreover have "json_text (JArr vs) @ r = CHR 0x5B # t" by (simp add: t_def)
      ultimately show ?thesis using w(1) by (simp add: parse_val.simps [of d])
    qed
  qed
next
  case (JObj ms)
  show ?case unfolding reads_back_def
  proof (intro allI impI)
    fix d r assume w: "writable d (JObj ms)" "ends r"
    show "parse_val d (json_text (JObj ms) @ r) = Some (JObj ms, r)"
    proof (cases ms)
      case Nil
      with w show ?thesis by (subst parse_val.simps) simp
    next
      case (Cons m ms')
      define t where "t = join (map (\<lambda>(k, v). json_quote k @ '':'' @ json_text v) ms) '','' @ CHR 0x7D # r"
      have "\<exists>q. t = CHR 0x22 # q" by (cases ms'; cases m) (auto simp: t_def Cons json_quote_def)
      then have "skip_ws t \<noteq> [] \<and> hd (skip_ws t) \<noteq> CHR 0x7D" by auto
      moreover have "parse_members (d - 1) t = Some (ms, r)"
        unfolding t_def
      proof (rule parse_members_text)
        show "\<forall>(k, v)\<in>set ms. reads_back v" using JObj by fastforce
      qed (use w(1) in \<open>simp_all add: Cons\<close>)
      moreover have "json_text (JObj ms) @ r = CHR 0x7B # t" by (simp add: t_def)
      ultimately show ?thesis using w(1) by (simp add: parse_val.simps [of d])
    qed
  qed
qed (simp add: reads_back_def parse_val.simps lex_lit_def prefix_def)

theorem json_text_roundtrip:
  assumes "writable max_nesting v" "list_all json_space r" "ends r"
  shows "json_unmarshal (json_text v @ r) = Some v"
proof -
  have "skip_ws r = []" using assms(2) by (simp add: skip_ws_def list_all_iff dropWhile_eq_Nil_conv)
  then show ?thesis
    using value_reads_back [of v] assms(1,3) by (simp add: json_unmarshal_def reads_back_def)
qed

end
