(* ===== verification/Wire.thy ===== *)
theory Wire
  imports Http Json_Text "HOL-Library.List_Lexorder"
begin

text \<open>
  The bytes of a response: the JSON value of each body by its struct tags, and what
  \<open>WriteJSON\<close> writes for it. Struct fields keep their order, map keys are sorted, \<open>omitempty\<close>
  leaves nil pointers out. The text of a time is a parameter: its zone is the process's.
\<close>

section \<open>Sorted map keys\<close>

text \<open>Statuses in the order of their names.\<close>

fun status_rank :: "status \<Rightarrow> nat" where
  "status_rank Failed = 0"
| "status_rank Pending = 1"
| "status_rank Processed = 2"
| "status_rank Processing = 3"

instantiation status :: linorder
begin

definition less_eq_status :: "status \<Rightarrow> status \<Rightarrow> bool" where
  "s \<le> t \<longleftrightarrow> status_rank s \<le> status_rank t"

definition less_status :: "status \<Rightarrow> status \<Rightarrow> bool" where
  "s < t \<longleftrightarrow> status_rank s < status_rank t"

instance
proof
  fix s t u :: status
  show "s < t \<longleftrightarrow> s \<le> t \<and> \<not> t \<le> s" by (auto simp: less_eq_status_def less_status_def)
  show "s \<le> s" by (simp add: less_eq_status_def)
  show "s \<le> t \<Longrightarrow> t \<le> u \<Longrightarrow> s \<le> u" by (simp add: less_eq_status_def)
  show "s \<le> t \<Longrightarrow> t \<le> s \<Longrightarrow> s = t" by (cases s; cases t) (simp_all add: less_eq_status_def)
  show "s \<le> t \<or> t \<le> s" by (auto simp: less_eq_status_def)
qed

end

lemma status_order: "s \<le> t \<longleftrightarrow> status_text s \<le> status_text t"
  by (cases s; cases t; hypsubst; code_simp)

section \<open>Values\<close>

text \<open>\<open>time.Time\<close>'s text, for the times of the database and for the worker's UTC clock.\<close>

record time_text =
  tt_local :: "time \<Rightarrow> string"
  tt_utc :: "time \<Rightarrow> string"

definition nullable :: "('a \<Rightarrow> json) \<Rightarrow> 'a option \<Rightarrow> json" where
  "nullable f x = (case x of None \<Rightarrow> JNull | Some y \<Rightarrow> f y)"

definition omitempty :: "string \<Rightarrow> ('a \<Rightarrow> json) \<Rightarrow> 'a option \<Rightarrow> (string \<times> json) list" where
  "omitempty k f x = (case x of None \<Rightarrow> [] | Some y \<Rightarrow> [(k, f y)])"

definition float_json :: "float64 \<Rightarrow> json" where
  "float_json x = JNum (float_lit x)"

definition int_json :: "int \<Rightarrow> json" where
  "int_json i = JNum (int_lit i)"

definition event_json :: "time_text \<Rightarrow> event \<Rightarrow> json" where
  "event_json tt e =
     JObj [(''id'', JStr (ev_id e)), (''user_id'', JStr (ev_user_id e)),
           (''idempotency_key'', JStr (ev_idempotency_key e)), (''type'', JStr (ev_type e)),
           (''payload'', ev_payload e), (''status'', JStr (status_text (ev_status e))),
           (''attempt_count'', int_json (ev_attempt_count e)),
           (''last_error'', nullable JStr (ev_last_error e)),
           (''matched_rule_id'', nullable JStr (ev_matched_rule_id e)),
           (''received_at'', JStr (tt_local tt (ev_received_at e))),
           (''processed_at'', nullable (\<lambda>t. JStr (tt_local tt t)) (ev_processed_at e))]"

definition rule_json :: "time_text \<Rightarrow> rule \<Rightarrow> json" where
  "rule_json tt r =
     JObj [(''id'', JStr (r_id r)), (''user_id'', JStr (r_user_id r)), (''name'', JStr (r_name r)),
           (''event_type'', JStr (r_event_type r)), (''threshold'', nullable float_json (r_threshold r)),
           (''enabled'', JBool (r_enabled r)), (''created_at'', JStr (tt_local tt (r_created_at r))),
           (''updated_at'', JStr (tt_local tt (r_updated_at r)))]"

definition tokens_json :: "token_response \<Rightarrow> json" where
  "tokens_json t =
     JObj [(''access_token'', JStr (tr_access_token t)), (''refresh_token'', JStr (tr_refresh_token t)),
           (''expires_in'', int_json (tr_expires_in t))]"

definition me_json :: "me_response \<Rightarrow> json" where
  "me_json m = JObj [(''id'', JStr (me_id m)), (''email'', JStr (me_email m))]"

definition simulate_json :: "time_text \<Rightarrow> simulate_response \<Rightarrow> json" where
  "simulate_json tt s =
     JObj ([(''events'', JArr (map (event_json tt) (sr_events s)))]
           @ omitempty ''demo_rule_id'' JStr (sr_demo_rule_id s)
           @ [(''demo_rule_created'', JBool (sr_demo_rule_created s)), (''hint'', JStr (sr_hint s))])"

definition snapshot_json :: "time_text \<Rightarrow> snapshot \<Rightarrow> json" where
  "snapshot_json tt s =
     JObj [(''last_tick'', nullable (\<lambda>t. JStr (tt_utc tt t)) (sn_last_tick s)),
           (''processed_total'', int_json (sint (sn_processed_total s))),
           (''error_total'', int_json (sint (sn_error_total s)))]"

definition queue_json :: "queue_stats \<Rightarrow> json" where
  "queue_json q =
     JObj ([(''by_status'', JObj (map (\<lambda>(s, n). (status_text s, int_json n)) (sort_key fst (qs_by_status q))))]
           @ omitempty ''oldest_pending_seconds'' float_json (qs_oldest_pending_s q))"

definition error_json :: "string \<Rightarrow> string \<Rightarrow> json" where
  "error_json c m = JObj [(''error'', JObj [(''code'', JStr c), (''message'', JStr m)])]"

fun body_json :: "time_text \<Rightarrow> body \<Rightarrow> json option" where
  "body_json tt NoBody = None"
| "body_json tt (TextBody t) = None"
| "body_json tt (ErrorBody c m) = Some (error_json c m)"
| "body_json tt (EventBody e) = Some (event_json tt e)"
| "body_json tt (EventsBody es) = Some (JObj [(''items'', JArr (map (event_json tt) es))])"
| "body_json tt (RuleBody r) = Some (rule_json tt r)"
| "body_json tt (RulesBody rs) = Some (JObj [(''items'', JArr (map (rule_json tt) rs))])"
| "body_json tt (TokensBody t) = Some (tokens_json t)"
| "body_json tt (MeBody m) = Some (me_json m)"
| "body_json tt (SimulateBody s) = Some (simulate_json tt s)"
| "body_json tt (SummaryBody s) = Some (summary_json s)"
| "body_json tt (HealthBody w q) =
     Some (JObj (omitempty ''queue'' queue_json q @ [(''status'', JStr ''ok'')]
                 @ omitempty ''worker'' (snapshot_json tt) w))"
| "body_json tt (UnavailableBody e) =
     Some (JObj (omitempty ''error'' JStr e @ [(''status'', JStr ''unavailable'')]))"

text \<open>\<open>Encode\<close> ends a value with a line break, as \<open>http.Error\<close> does a text.\<close>

definition wire :: "time_text \<Rightarrow> body \<Rightarrow> string" where
  "wire tt b =
     (case body_json tt b of
        Some v \<Rightarrow> json_text v @ [CHR 0x0A]
      | None \<Rightarrow> (case b of TextBody t \<Rightarrow> t @ [CHR 0x0A] | _ \<Rightarrow> []))"

section \<open>Well-formed bodies\<close>

text \<open>Texts are valid UTF-8, numbers are \<open>float64\<close> values, and payloads leave room for what is
  around them.\<close>

definition is_float :: "float64 \<Rightarrow> bool" where
  "is_float x \<longleftrightarrow> round64 x = Some x"

abbreviation all_opt :: "('a \<Rightarrow> bool) \<Rightarrow> 'a option \<Rightarrow> bool" where
  "all_opt P x \<equiv> (case x of None \<Rightarrow> True | Some y \<Rightarrow> P y)"

definition times_ok :: "time_text \<Rightarrow> bool" where
  "times_ok tt \<longleftrightarrow> (\<forall>t. utf8_ok (tt_local tt t) \<and> utf8_ok (tt_utc tt t))"

definition event_wire :: "event \<Rightarrow> bool" where
  "event_wire e \<longleftrightarrow> list_all utf8_ok [ev_id e, ev_user_id e, ev_idempotency_key e, ev_type e]
     \<and> all_opt utf8_ok (ev_last_error e) \<and> all_opt utf8_ok (ev_matched_rule_id e) \<and> writable (max_nesting - 3) (ev_payload e)"

definition rule_wire :: "rule \<Rightarrow> bool" where
  "rule_wire r \<longleftrightarrow> list_all utf8_ok [r_id r, r_user_id r, r_name r, r_event_type r] \<and> all_opt is_float (r_threshold r)"

definition summary_wire :: "summary \<Rightarrow> bool" where
  "summary_wire s \<longleftrightarrow> list_all utf8_ok ([s_title s, s_risk_level s] @ s_summary_bullets s @ s_event_ids s)
     \<and> all_opt (list_all utf8_ok) (s_follow_ups s)"

fun body_wire :: "body \<Rightarrow> bool" where
  "body_wire NoBody = False"
| "body_wire (TextBody t) = False"
| "body_wire (ErrorBody c m) = (utf8_ok c \<and> utf8_ok m)"
| "body_wire (EventBody e) = event_wire e"
| "body_wire (EventsBody es) = list_all event_wire es"
| "body_wire (RuleBody r) = rule_wire r"
| "body_wire (RulesBody rs) = list_all rule_wire rs"
| "body_wire (TokensBody t) = (utf8_ok (tr_access_token t) \<and> utf8_ok (tr_refresh_token t))"
| "body_wire (MeBody m) = (utf8_ok (me_id m) \<and> utf8_ok (me_email m))"
| "body_wire (SimulateBody s) = (list_all event_wire (sr_events s) \<and> all_opt utf8_ok (sr_demo_rule_id s) \<and> utf8_ok (sr_hint s))"
| "body_wire (SummaryBody s) = summary_wire s"
| "body_wire (HealthBody w q) = all_opt (\<lambda>q. all_opt is_float (qs_oldest_pending_s q)) q"
| "body_wire (UnavailableBody e) = all_opt utf8_ok e"

lemma writable_mono: "writable d v \<Longrightarrow> d \<le> d' \<Longrightarrow> writable d' v"
proof (induction d v arbitrary: d' rule: writable.induct)
  case (5 d vs)
  then show ?case by (auto simp: list_all_iff diff_le_mono)
next
  case (6 d ms)
  then show ?case by (fastforce simp: list_all_iff diff_le_mono)
qed auto

text \<open>The names the program writes are ASCII.\<close>

lemma names_ok [simp]:
  "utf8_ok ''id''" "utf8_ok ''user_id''" "utf8_ok ''idempotency_key''" "utf8_ok ''type''"
  "utf8_ok ''payload''" "utf8_ok ''status''" "utf8_ok ''attempt_count''" "utf8_ok ''last_error''"
  "utf8_ok ''matched_rule_id''" "utf8_ok ''received_at''" "utf8_ok ''processed_at''" "utf8_ok ''name''"
  "utf8_ok ''event_type''" "utf8_ok ''threshold''" "utf8_ok ''enabled''" "utf8_ok ''created_at''"
  "utf8_ok ''updated_at''" "utf8_ok ''access_token''" "utf8_ok ''refresh_token''" "utf8_ok ''expires_in''"
  "utf8_ok ''email''" "utf8_ok ''events''" "utf8_ok ''demo_rule_id''" "utf8_ok ''demo_rule_created''"
  "utf8_ok ''hint''" "utf8_ok ''last_tick''" "utf8_ok ''processed_total''" "utf8_ok ''error_total''"
  "utf8_ok ''by_status''" "utf8_ok ''oldest_pending_seconds''" "utf8_ok ''error''" "utf8_ok ''code''"
  "utf8_ok ''message''" "utf8_ok ''items''" "utf8_ok ''queue''" "utf8_ok ''ok''" "utf8_ok ''worker''"
  "utf8_ok ''unavailable''" "utf8_ok ''title''" "utf8_ok ''summary_bullets''" "utf8_ok ''risk_level''"
  "utf8_ok ''follow_ups''" "utf8_ok ''event_ids''" "utf8_ok ''failed''" "utf8_ok ''pending''"
  "utf8_ok ''processed''" "utf8_ok ''processing''"
  by (rule utf8_ok_ascii, code_simp)+

lemma utf8_ok_status [simp]: "utf8_ok (status_text s)"
  by (cases s) simp_all

lemma writable_leaves [simp]:
  "writable d (int_json i)" "is_float x \<Longrightarrow> writable d (float_json x)"
  "all_opt utf8_ok t \<Longrightarrow> writable d (nullable JStr t)" "all_opt is_float y \<Longrightarrow> writable d (nullable float_json y)"
  "times_ok tt \<Longrightarrow> writable d (nullable (\<lambda>t. JStr (tt_local tt t)) ti)"
  "times_ok tt \<Longrightarrow> writable d (nullable (\<lambda>t. JStr (tt_utc tt t)) ti)"
  by (auto simp: int_json_def int_lit_ok float_json_def float_lit_ok is_float_def nullable_def times_ok_def split: option.splits)

lemma times_ok_simps [simp]: "times_ok tt \<Longrightarrow> utf8_ok (tt_local tt t)" "times_ok tt \<Longrightarrow> utf8_ok (tt_utc tt t)"
  by (simp_all add: times_ok_def)

lemma writable_event:
  assumes "times_ok tt" "event_wire e" "max_nesting - 2 \<le> d" shows "writable d (event_json tt e)"
proof -
  have "0 < d" using assms(3) by (simp add: max_nesting_def)
  moreover have "writable (d - 1) (ev_payload e)"
    by (rule writable_mono [of "max_nesting - 3"]) (use assms(2,3) in \<open>simp_all add: event_wire_def\<close>)
  ultimately show ?thesis
    using assms(1,2) by (simp add: event_json_def event_wire_def)
qed

lemma writable_rule:
  "times_ok tt \<Longrightarrow> rule_wire r \<Longrightarrow> 0 < d \<Longrightarrow> writable d (rule_json tt r)"
  by (simp add: rule_json_def rule_wire_def)

lemma writable_strings: "list_all utf8_ok ss \<Longrightarrow> 0 < d \<Longrightarrow> writable d (strings_json ss)"
  by (simp add: strings_json_def list_all_iff)

lemma writable_summary: "summary_wire s \<Longrightarrow> 1 < d \<Longrightarrow> writable d (summary_json s)"
  by (simp add: summary_json_def summary_wire_def writable_strings split: option.splits)

lemma writable_queue: "all_opt is_float (qs_oldest_pending_s q) \<Longrightarrow> 1 < d \<Longrightarrow> writable d (queue_json q)"
  by (auto simp: queue_json_def omitempty_def list_all_iff split: option.splits)

lemma writable_snapshot: "times_ok tt \<Longrightarrow> 0 < d \<Longrightarrow> writable d (snapshot_json tt s)"
  by (simp add: snapshot_json_def)

lemma writable_body:
  assumes "times_ok tt" "body_wire b" "body_json tt b = Some v" shows "writable max_nesting v"
  using assms
  by (cases b)
     (auto simp: max_nesting_def writable_event writable_rule writable_summary writable_queue writable_snapshot
        list_all_iff error_json_def tokens_json_def me_json_def simulate_json_def omitempty_def
        split: option.splits)

section \<open>Reading back\<close>

text \<open>A client that decodes into the same struct: \<open>parse\<close> reads the text of a time.\<close>

definition dec_time :: "(string \<Rightarrow> time option) \<Rightarrow> time decoder" where
  "dec_time parse v old = (case v of JNull \<Rightarrow> Some old | JStr s \<Rightarrow> parse s | _ \<Rightarrow> None)"

definition dec_status :: "status decoder" where
  "dec_status v old = List.find (\<lambda>s. v = JStr (status_text s)) [Pending, Processing, Processed, Failed]"

definition read_rule :: "(string \<Rightarrow> time option) \<Rightarrow> json \<Rightarrow> rule option" where
  "read_rule parse v =
     Option.bind (dec_struct v) (\<lambda>ms.
     Option.bind (dec_field ''id'' dec_string ms []) (\<lambda>i.
     Option.bind (dec_field ''user_id'' dec_string ms []) (\<lambda>u.
     Option.bind (dec_field ''name'' dec_string ms []) (\<lambda>n.
     Option.bind (dec_field ''event_type'' dec_string ms []) (\<lambda>ty.
     Option.bind (dec_field ''threshold'' (dec_ptr 0 dec_float) ms None) (\<lambda>th.
     Option.bind (dec_field ''enabled'' dec_bool ms False) (\<lambda>en.
     Option.bind (dec_field ''created_at'' (dec_time parse) ms 0) (\<lambda>c.
     Option.bind (dec_field ''updated_at'' (dec_time parse) ms 0) (\<lambda>m.
       Some \<lparr>r_id = i, r_user_id = u, r_name = n, r_event_type = ty, r_threshold = th, r_enabled = en,
             r_created_at = c, r_updated_at = m\<rparr>)))))))))"

definition read_event :: "(string \<Rightarrow> time option) \<Rightarrow> json \<Rightarrow> event option" where
  "read_event parse v =
     Option.bind (dec_struct v) (\<lambda>ms.
     Option.bind (dec_field ''id'' dec_string ms []) (\<lambda>i.
     Option.bind (dec_field ''user_id'' dec_string ms []) (\<lambda>u.
     Option.bind (dec_field ''idempotency_key'' dec_string ms []) (\<lambda>k.
     Option.bind (dec_field ''type'' dec_string ms []) (\<lambda>ty.
     Option.bind (dec_field ''payload'' dec_raw ms None) (\<lambda>p.
     Option.bind (dec_field ''status'' dec_status ms Pending) (\<lambda>st.
     Option.bind (dec_field ''attempt_count'' dec_int ms 0) (\<lambda>n.
     Option.bind (dec_field ''last_error'' (dec_ptr [] dec_string) ms None) (\<lambda>le.
     Option.bind (dec_field ''matched_rule_id'' (dec_ptr [] dec_string) ms None) (\<lambda>m.
     Option.bind (dec_field ''received_at'' (dec_time parse) ms 0) (\<lambda>rc.
     Option.bind (dec_field ''processed_at'' (dec_ptr 0 (dec_time parse)) ms None) (\<lambda>pr.
       map_option (\<lambda>p. \<lparr>ev_id = i, ev_user_id = u, ev_idempotency_key = k, ev_type = ty, ev_payload = p,
         ev_status = st, ev_attempt_count = n, ev_last_error = le, ev_matched_rule_id = m,
         ev_received_at = rc, ev_processed_at = pr\<rparr>) p))))))))))))"

text \<open>The other answers, each by the names that the mobile client uses (\<open>mobile/lib\<close>).\<close>

definition dec_opt :: "(json \<Rightarrow> 'a option) \<Rightarrow> 'a option decoder" where
  "dec_opt read v old = (case v of JNull \<Rightarrow> Some None | _ \<Rightarrow> map_option Some (read v))"

definition dec_list :: "(json \<Rightarrow> 'a option) \<Rightarrow> 'a list decoder" where
  "dec_list read v old = (case v of JNull \<Rightarrow> Some [] | JArr vs \<Rightarrow> those (map read vs) | _ \<Rightarrow> None)"

definition read_string :: "json \<Rightarrow> string option" where
  "read_string v = (case v of JStr s \<Rightarrow> Some s | _ \<Rightarrow> None)"

definition read_items :: "(json \<Rightarrow> 'a option) \<Rightarrow> json \<Rightarrow> 'a list option" where
  "read_items read v = Option.bind (dec_struct v) (\<lambda>ms. dec_field ''items'' (dec_list read) ms [])"

definition read_error :: "json \<Rightarrow> (string \<times> string) option" where
  "read_error v =
     Option.bind (dec_struct v) (\<lambda>ms.
     Option.bind (dec_field ''error'' (\<lambda>v _. dec_struct v) ms []) (\<lambda>es.
     Option.bind (dec_field ''code'' dec_string es []) (\<lambda>c.
     Option.bind (dec_field ''message'' dec_string es []) (\<lambda>m. Some (c, m)))))"

definition read_tokens :: "json \<Rightarrow> token_response option" where
  "read_tokens v =
     Option.bind (dec_struct v) (\<lambda>ms.
     Option.bind (dec_field ''access_token'' dec_string ms []) (\<lambda>a.
     Option.bind (dec_field ''refresh_token'' dec_string ms []) (\<lambda>r.
     Option.bind (dec_field ''expires_in'' dec_int ms 0) (\<lambda>n.
       Some \<lparr>tr_access_token = a, tr_refresh_token = r, tr_expires_in = n\<rparr>))))"

definition read_me :: "json \<Rightarrow> me_response option" where
  "read_me v =
     Option.bind (dec_struct v) (\<lambda>ms.
     Option.bind (dec_field ''id'' dec_string ms []) (\<lambda>i.
     Option.bind (dec_field ''email'' dec_string ms []) (\<lambda>e. Some \<lparr>me_id = i, me_email = e\<rparr>)))"

definition read_simulate :: "(string \<Rightarrow> time option) \<Rightarrow> json \<Rightarrow> simulate_response option" where
  "read_simulate parse v =
     Option.bind (dec_struct v) (\<lambda>ms.
     Option.bind (dec_field ''events'' (dec_list (read_event parse)) ms []) (\<lambda>es.
     Option.bind (dec_field ''demo_rule_id'' (dec_opt read_string) ms None) (\<lambda>i.
     Option.bind (dec_field ''demo_rule_created'' dec_bool ms False) (\<lambda>c.
     Option.bind (dec_field ''hint'' dec_string ms []) (\<lambda>h.
       Some \<lparr>sr_events = es, sr_demo_rule_id = i, sr_demo_rule_created = c, sr_hint = h\<rparr>)))))"

definition read_summary :: "json \<Rightarrow> summary option" where
  "read_summary v =
     Option.bind (dec_struct v) (\<lambda>ms.
     Option.bind (dec_field ''title'' dec_string ms []) (\<lambda>t.
     Option.bind (dec_field ''summary_bullets'' (dec_list read_string) ms []) (\<lambda>b.
     Option.bind (dec_field ''risk_level'' dec_string ms []) (\<lambda>r.
     Option.bind (dec_field ''follow_ups'' (dec_opt (\<lambda>v. dec_list read_string v [])) ms None) (\<lambda>f.
     Option.bind (dec_field ''event_ids'' (dec_list read_string) ms []) (\<lambda>i.
       Some \<lparr>s_title = t, s_summary_bullets = b, s_risk_level = r, s_follow_ups = f, s_event_ids = i\<rparr>))))))"

definition read_snapshot :: "(string \<Rightarrow> time option) \<Rightarrow> json \<Rightarrow> snapshot option" where
  "read_snapshot parse v =
     Option.bind (dec_struct v) (\<lambda>ms.
     Option.bind (dec_field ''last_tick'' (dec_ptr 0 (dec_time parse)) ms None) (\<lambda>t.
     Option.bind (dec_field ''processed_total'' dec_int ms 0) (\<lambda>p.
     Option.bind (dec_field ''error_total'' dec_int ms 0) (\<lambda>e.
       Some \<lparr>sn_last_tick = t, sn_processed_total = word_of_int p, sn_error_total = word_of_int e\<rparr>))))"

definition read_count :: "string \<times> json \<Rightarrow> (status \<times> int) option" where
  "read_count m = Option.bind (dec_status (JStr (fst m)) Pending) (\<lambda>s. map_option (Pair s) (dec_int (snd m) 0))"

definition read_queue :: "json \<Rightarrow> queue_stats option" where
  "read_queue v =
     Option.bind (dec_struct v) (\<lambda>ms.
     Option.bind (dec_field ''by_status'' (\<lambda>v _. Option.bind (dec_struct v) (\<lambda>ms. those (map read_count ms))) ms []) (\<lambda>b.
     Option.bind (dec_field ''oldest_pending_seconds'' (dec_ptr 0 dec_float) ms None) (\<lambda>a.
       Some \<lparr>qs_by_status = b, qs_oldest_pending_s = a\<rparr>)))"

definition read_health :: "(string \<Rightarrow> time option) \<Rightarrow> json \<Rightarrow> (string \<times> snapshot option \<times> queue_stats option) option" where
  "read_health parse v =
     Option.bind (dec_struct v) (\<lambda>ms.
     Option.bind (dec_field ''status'' dec_string ms []) (\<lambda>st.
     Option.bind (dec_field ''worker'' (dec_opt (read_snapshot parse)) ms None) (\<lambda>w.
     Option.bind (dec_field ''queue'' (dec_opt read_queue) ms None) (\<lambda>q. Some (st, w, q)))))"

definition read_unavailable :: "json \<Rightarrow> (string \<times> string option) option" where
  "read_unavailable v =
     Option.bind (dec_struct v) (\<lambda>ms.
     Option.bind (dec_field ''status'' dec_string ms []) (\<lambda>st.
     Option.bind (dec_field ''error'' (dec_opt read_string) ms None) (\<lambda>e. Some (st, e))))"

text \<open>The client knows which kind of answer it expects: of \<open>b\<close> only the constructor is used.\<close>

fun read_body :: "(string \<Rightarrow> time option) \<Rightarrow> body \<Rightarrow> json \<Rightarrow> body option" where
  "read_body parse (ErrorBody _ _) v = map_option (\<lambda>(c, m). ErrorBody c m) (read_error v)"
| "read_body parse (EventBody _) v = map_option EventBody (read_event parse v)"
| "read_body parse (EventsBody _) v = map_option EventsBody (read_items (read_event parse) v)"
| "read_body parse (RuleBody _) v = map_option RuleBody (read_rule parse v)"
| "read_body parse (RulesBody _) v = map_option RulesBody (read_items (read_rule parse) v)"
| "read_body parse (TokensBody _) v = map_option TokensBody (read_tokens v)"
| "read_body parse (MeBody _) v = map_option MeBody (read_me v)"
| "read_body parse (SimulateBody _) v = map_option SimulateBody (read_simulate parse v)"
| "read_body parse (SummaryBody _) v = map_option SummaryBody (read_summary v)"
| "read_body parse (HealthBody _ _) v =
     Option.bind (read_health parse v) (\<lambda>(st, w, q). if st = ''ok'' then Some (HealthBody w q) else None)"
| "read_body parse (UnavailableBody _) v =
     Option.bind (read_unavailable v) (\<lambda>(st, e). if st = ''unavailable'' then Some (UnavailableBody e) else None)"
| "read_body parse _ v = None"

text \<open>Integers fit Go's; the counts of the queue come in the order of the names of the statuses.\<close>

definition int64 :: "int \<Rightarrow> bool" where
  "int64 i \<longleftrightarrow> - (2 ^ 63) \<le> i \<and> i < 2 ^ 63"

fun body_range :: "body \<Rightarrow> bool" where
  "body_range (EventBody e) = int64 (ev_attempt_count e)"
| "body_range (EventsBody es) = list_all (\<lambda>e. int64 (ev_attempt_count e)) es"
| "body_range (SimulateBody s) = list_all (\<lambda>e. int64 (ev_attempt_count e)) (sr_events s)"
| "body_range (TokensBody t) = int64 (tr_expires_in t)"
| "body_range (HealthBody w q) = all_opt (\<lambda>q. list_all (\<lambda>(st, n). int64 n) (qs_by_status q)) q"
| "body_range b = True"

fun in_name_order :: "body \<Rightarrow> body" where
  "in_name_order (HealthBody w q) = HealthBody w (map_option (\<lambda>q. q\<lparr>qs_by_status := sort_key fst (qs_by_status q)\<rparr>) q)"
| "in_name_order b = b"

lemma dec_field_step:
  "fold_key k = f \<Longrightarrow> dec v old = Some x \<Longrightarrow> dec_field f dec ((k, v) # ms) old = dec_field f dec ms x"
  "fold_key k \<noteq> f \<Longrightarrow> dec_field f dec ((k, v) # ms) old = dec_field f dec ms old"
  by simp_all

lemma dec_leaves:
  "dec_string (JStr s) old = Some s" "dec_bool (JBool b) old' = Some b" "dec_raw v old'' = Some (Some v)"
  "dec_status (JStr (status_text st)) old3 = Some st"
  "dec_ptr [] dec_string (nullable JStr t) old4 = Some t"
  "all_opt is_float y \<Longrightarrow> dec_ptr 0 dec_float (nullable float_json y) old5 = Some y"
  "parse (f ti) = Some ti \<Longrightarrow> dec_time parse (JStr (f ti)) old6 = Some ti"
  "(\<And>t. parse (f t) = Some t) \<Longrightarrow> dec_ptr 0 (dec_time parse) (nullable (\<lambda>t. JStr (f t)) to) old7 = Some to"
  "- (2 ^ 63) \<le> i \<Longrightarrow> i < 2 ^ 63 \<Longrightarrow> dec_int (int_json i) old8 = Some i"
  by (simp_all add: dec_string_def dec_bool_def dec_raw_def dec_time_def dec_status_def dec_ptr_def nullable_def
      float_json_def dec_float_def is_float_def float_lit_reads int_json_def int_lit_reads
      split: option.splits)
     (cases st; simp)

lemma folded_names [simp]:
  "fold_key ''id'' = ''id''"
  "fold_key ''user_id'' = ''user_id''"
  "fold_key ''idempotency_key'' = ''idempotency_key''"
  "fold_key ''type'' = ''type''"
  "fold_key ''payload'' = ''payload''"
  "fold_key ''status'' = ''status''"
  "fold_key ''attempt_count'' = ''attempt_count''"
  "fold_key ''last_error'' = ''last_error''"
  "fold_key ''matched_rule_id'' = ''matched_rule_id''"
  "fold_key ''received_at'' = ''received_at''"
  "fold_key ''processed_at'' = ''processed_at''"
  "fold_key ''name'' = ''name''"
  "fold_key ''event_type'' = ''event_type''"
  "fold_key ''threshold'' = ''threshold''"
  "fold_key ''enabled'' = ''enabled''"
  "fold_key ''created_at'' = ''created_at''"
  "fold_key ''updated_at'' = ''updated_at''"
  "fold_key ''items'' = ''items''" "fold_key ''error'' = ''error''" "fold_key ''code'' = ''code''"
  "fold_key ''message'' = ''message''" "fold_key ''access_token'' = ''access_token''"
  "fold_key ''refresh_token'' = ''refresh_token''" "fold_key ''expires_in'' = ''expires_in''"
  "fold_key ''email'' = ''email''" "fold_key ''events'' = ''events''" "fold_key ''demo_rule_id'' = ''demo_rule_id''"
  "fold_key ''demo_rule_created'' = ''demo_rule_created''" "fold_key ''hint'' = ''hint''"
  "fold_key ''title'' = ''title''" "fold_key ''summary_bullets'' = ''summary_bullets''"
  "fold_key ''risk_level'' = ''risk_level''" "fold_key ''follow_ups'' = ''follow_ups''"
  "fold_key ''event_ids'' = ''event_ids''" "fold_key ''last_tick'' = ''last_tick''"
  "fold_key ''processed_total'' = ''processed_total''" "fold_key ''error_total'' = ''error_total''"
  "fold_key ''by_status'' = ''by_status''" "fold_key ''oldest_pending_seconds'' = ''oldest_pending_seconds''"
  "fold_key ''queue'' = ''queue''" "fold_key ''worker'' = ''worker''"
  by code_simp+

lemma read_rule_json:
  assumes "rule_wire r" "\<And>t. parse (tt_local tt t) = Some t"
  shows "read_rule parse (rule_json tt r) = Some r"
  using assms by (simp add: read_rule_def rule_json_def dec_struct_def dec_field_step dec_leaves rule_wire_def
      del: fold_key.simps dec_field.simps(2))

lemma read_event_json:
  assumes "\<And>t. parse (tt_local tt t) = Some t" "int64 (ev_attempt_count e)"
  shows "read_event parse (event_json tt e) = Some e"
  using assms by (simp add: read_event_def event_json_def dec_struct_def dec_field_step dec_leaves int64_def
      del: fold_key.simps dec_field.simps(2))

lemma those_map: "(\<And>x. x \<in> set xs \<Longrightarrow> read (f x) = Some x) \<Longrightarrow> those (map read (map f xs)) = Some xs"
  by (induction xs) simp_all

lemma dec_list_map: "(\<And>x. x \<in> set xs \<Longrightarrow> read (f x) = Some x) \<Longrightarrow> dec_list read (JArr (map f xs)) old = Some xs"
  using those_map [of xs read f] by (simp add: dec_list_def)

lemma dec_list_strings: "dec_list read_string (strings_json ss) old = Some ss"
  unfolding strings_json_def by (rule dec_list_map) (simp add: read_string_def)

lemma read_items_map:
  assumes "\<And>x. x \<in> set xs \<Longrightarrow> read (f x) = Some x"
  shows "read_items read (JObj [(''items'', JArr (map f xs))]) = Some xs"
  using dec_list_map [of xs read f, OF assms]
  by (simp add: read_items_def dec_struct_def dec_field_step del: fold_key.simps dec_field.simps(2))

lemma dec_opt_strings: "dec_opt (\<lambda>v. dec_list read_string v []) (strings_json ss) old = Some (Some ss)"
  by (simp add: dec_opt_def strings_json_def dec_list_strings [unfolded strings_json_def])

lemmas read_simps = dec_struct_def dec_field_step dec_leaves

lemma read_error_json: "read_error (error_json c m) = Some (c, m)"
  by (simp add: read_error_def error_json_def read_simps del: fold_key.simps dec_field.simps(2))

lemma read_tokens_json: "int64 (tr_expires_in t) \<Longrightarrow> read_tokens (tokens_json t) = Some t"
  by (simp add: read_tokens_def tokens_json_def read_simps int64_def del: fold_key.simps dec_field.simps(2))

lemma read_me_json: "read_me (me_json m) = Some m"
  by (simp add: read_me_def me_json_def read_simps del: fold_key.simps dec_field.simps(2))

lemma read_simulate_json:
  assumes "\<And>t. parse (tt_local tt t) = Some t" "list_all (\<lambda>e. int64 (ev_attempt_count e)) (sr_events s)"
  shows "read_simulate parse (simulate_json tt s) = Some s"
proof -
  have "dec_list (read_event parse) (JArr (map (event_json tt) (sr_events s))) old = Some (sr_events s)" for old
    using assms by (intro dec_list_map read_event_json) (auto simp: list_all_iff)
  then show ?thesis
    by (cases "sr_demo_rule_id s")
       (simp_all add: read_simulate_def simulate_json_def omitempty_def dec_opt_def read_string_def read_simps
          del: fold_key.simps dec_field.simps(2))
qed

lemma read_summary_json: "read_summary (summary_json s) = Some s"
  by (cases "s_follow_ups s")
     (simp_all add: read_summary_def summary_json_def dec_opt_strings dec_list_strings dec_opt_def [of _ JNull] read_simps
        del: fold_key.simps dec_field.simps(2))

lemma read_snapshot_json:
  assumes "\<And>t. parse (tt_utc tt t) = Some t" shows "read_snapshot parse (snapshot_json tt s) = Some s"
proof -
  have "- (2 ^ 63) \<le> sint (v :: 64 word) \<and> sint v < 2 ^ 63" for v
    using sint_ge [of v] sint_lt [of v] by simp
  then show ?thesis
    using assms by (simp add: read_snapshot_def snapshot_json_def read_simps del: fold_key.simps dec_field.simps(2))
qed

lemma read_queue_json:
  assumes "all_opt is_float (qs_oldest_pending_s q)" "list_all (\<lambda>(st, n). int64 n) (qs_by_status q)"
  shows "read_queue (queue_json q) = Some (q\<lparr>qs_by_status := sort_key fst (qs_by_status q)\<rparr>)"
proof -
  let ?counts = "sort_key fst (qs_by_status q)"
  have "those (map read_count (map (\<lambda>(st, n). (status_text st, int_json n)) ?counts)) = Some ?counts"
    using assms(2) by (intro those_map) (auto simp: read_count_def dec_leaves int64_def list_all_iff)
  then show ?thesis
    using assms(1)
    by (cases "qs_oldest_pending_s q")
       (simp_all add: read_queue_def queue_json_def omitempty_def read_simps dec_leaves(6) [of "Some _", unfolded nullable_def, simplified]
          del: fold_key.simps dec_field.simps(2))
qed

text \<open>A threshold that a request was decoded to is a \<open>float64\<close>, so it can be written exactly.\<close>

lemma decoded_float: "dec_float (JNum n) old = Some x \<Longrightarrow> is_float x"
  by (simp add: dec_float_def is_float_def round64_idem)

text \<open>Times as plain numbers of microseconds, for the witnesses.\<close>

definition plain_times :: time_text where
  "plain_times = \<lparr>tt_local = show_int, tt_utc = show_int\<rparr>"

definition read_plain :: "string \<Rightarrow> time option" where
  "read_plain s =
     Some (if take 1 s = ''-'' then - int (read_nat_from 0 (drop 1 s)) else int (read_nat_from 0 s))"

lemma show_nat_sign: "take 1 (show_nat n) \<noteq> ''-''"
  using show_nat_digits [of n] show_nat_nonempty [of n] by (cases "show_nat n") auto

lemma read_plain_times: "read_plain (tt_local plain_times t) = Some t"
  by (simp add: read_plain_def plain_times_def show_int_def read_show_nat show_nat_sign [simplified])

lemma plain_times_ok: "times_ok plain_times"
proof -
  have "list_all is_ascii (show_int t)" for t
    using show_nat_digits [of "nat t"] show_nat_digits [of "nat (- t)"]
    by (auto simp: show_int_def list_all_iff is_digit_def is_ascii_def) (simp add: byte_of_def)
  then show ?thesis by (simp add: times_ok_def plain_times_def utf8_ok_ascii)
qed

section \<open>Properties\<close>

lemma wire_reads_back:
  assumes "times_ok tt" "body_wire b" "body_json tt b = Some v"
  shows "json_unmarshal (wire tt b) = Some v"
  unfolding wire_def assms(3) option.case
  by (rule json_text_roundtrip [OF writable_body [OF assms]]) (simp_all add: json_space_def)

text \<open>C27: every JSON answer of the server says what the server means: a client that decodes the bytes by the field names
  that the mobile app uses gets the body that the handler returned, of every kind (errors, tokens, the user, events and
  rules one by one and in lists, simulations, summaries, and both states of health), every number exactly and
  every string with its quotes, line breaks and HTML characters; only the counts of the queue come sorted by
  name. Texts must be valid UTF-8, integers fit 64 bits and times be readable.\<close>

theorem answers_read_back:
  assumes "times_ok tt" "\<And>t. parse (tt_local tt t) = Some t" "\<And>t. parse (tt_utc tt t) = Some t"
    and "body_wire b" "body_range b"
  shows "Option.bind (json_unmarshal (wire tt b)) (read_body parse b) = Some (in_name_order b)"
proof -
  obtain v where v: "body_json tt b = Some v" using assms(4) by (cases b) auto
  note w = wire_reads_back [OF assms(1,4) v]
  have "read_body parse b v = Some (in_name_order b)"
  proof (cases b)
    case (HealthBody wk q)
    have q: "all_opt (\<lambda>q. read_queue (queue_json q) = Some (q\<lparr>qs_by_status := sort_key fst (qs_by_status q)\<rparr>)) q"
      using assms(4,5) HealthBody by (auto simp: read_queue_json split: option.splits)
    have "dec_opt read_queue (queue_json x) old = map_option Some (read_queue (queue_json x))"
      "dec_opt (read_snapshot parse) (snapshot_json tt y) old' = map_option Some (read_snapshot parse (snapshot_json tt y))"
      for x y old old' by (simp_all add: dec_opt_def queue_json_def snapshot_json_def)
    with v HealthBody q read_snapshot_json [OF assms(3)] show ?thesis
      by (auto simp: read_health_def omitempty_def read_simps split: option.splits simp del: fold_key.simps dec_field.simps(2))
  next
    case (UnavailableBody e)
    with v show ?thesis
      by (cases e) (auto simp: read_unavailable_def omitempty_def dec_opt_def read_string_def read_simps
          simp del: fold_key.simps dec_field.simps(2))
  qed (use assms v in \<open>auto simp: read_error_json read_tokens_json read_me_json read_summary_json list_all_iff
      intro!: read_event_json read_rule_json read_simulate_json read_items_map\<close>)
  with w show ?thesis by simp
qed

definition plain_health :: body where
  "plain_health = HealthBody (Some \<lparr>sn_last_tick = Some 7, sn_processed_total = 2 ^ 63, sn_error_total = 3\<rparr>)
     (Some \<lparr>qs_by_status = [(Pending, 2), (Failed, 1)], qs_oldest_pending_s = None\<rparr>)"

theorem answers_read_back_witness:
  "Option.bind (json_unmarshal (wire plain_times plain_health)) (read_body read_plain plain_health)
     = Some (HealthBody (Some \<lparr>sn_last_tick = Some 7, sn_processed_total = 2 ^ 63, sn_error_total = 3\<rparr>)
         (Some \<lparr>qs_by_status = [(Failed, 1), (Pending, 2)], qs_oldest_pending_s = None\<rparr>))"
proof -
  have utc: "read_plain (tt_utc plain_times t) = Some t" for t
    using read_plain_times [of t] by (simp add: plain_times_def)
  have "body_wire plain_health" "body_range plain_health" by (simp_all add: plain_health_def int64_def)
  from answers_read_back [where parse = read_plain, OF plain_times_ok read_plain_times utc this]
  show ?thesis by (simp add: plain_health_def less_eq_status_def)
qed





end
